theory Spec2Isabelle
  imports Main "HOL-Library.List_Lexorder" "HOL-Library.Multiset"
begin

section \<open>Python strings and exceptions\<close>

text \<open>
  A Python \<open>str\<close> is a sequence of Unicode code points; \<open>len\<close> counts code points
  and \<open>encode('utf-8')\<close> turns each of them into one to four bytes. The model keeps a
  string as the list of its code points, so that both counts are those of the source.
  Comparison of strings is lexicographic on code points, which is the order of
  \<open>HOL-Library.List_Lexorder\<close>.
\<close>

type_synonym pystr = "nat list"

text \<open>
  An exception, an instance of \<open>Exception\<close>: its class and \<open>str(e)\<close>. A class is named
  as Python prints it: a built-in class by its name (\<open>ValueError\<close>), a class of a module
  by the module and its name (\<open>http.client.RemoteDisconnected\<close>), so that two classes
  with the same \<open>__name__\<close> are two classes.
\<close>

datatype exn = Exn (exc_class: string) (exc_str: pystr)

text \<open>\<open>type(e).__name__\<close>: the name after the last dot.\<close>

definition class_name :: "string \<Rightarrow> string" where
  "class_name cls = rev (takeWhile (\<lambda>c. c \<noteq> CHR ''.'') (rev cls))"

text \<open>
  What a class inherits from is decided where the class is defined, in the standard
  library or in a package: \<open>ancestors cls\<close> is the other classes of the method
  resolution order of \<open>cls\<close>, a parameter. \<open>except C\<close> catches the instances of \<open>C\<close>
  and of the classes that inherit from \<open>C\<close>.
\<close>

definition caught_by :: "(string \<Rightarrow> string list) \<Rightarrow> string \<Rightarrow> exn \<Rightarrow> bool" where
  "caught_by ancestors cls e \<longleftrightarrow> exc_class e = cls \<or> cls \<in> set (ancestors (exc_class e))"

text \<open>What a call does: it returns, it raises, or it never comes back.\<close>

datatype 'a outcome = Returns 'a | Raises exn | Hangs

definition NL :: nat where
  "NL = 10"

text \<open>A literal of ASCII characters as a Python string.\<close>

definition ascii :: "string \<Rightarrow> pystr" where
  "ascii s = map of_char s"

text \<open>\<open>s.split(sep)\<close> for a one-character separator: never the empty list.\<close>

fun split_on :: "nat \<Rightarrow> pystr \<Rightarrow> pystr list" where
  "split_on sep [] = [[]]"
| "split_on sep (c # cs) =
     (if c = sep then [] # split_on sep cs
      else (case split_on sep cs of
              [] \<Rightarrow> [[c]]
            | l # ls \<Rightarrow> (c # l) # ls))"

text \<open>\<open>sep.join(xs)\<close>.\<close>

fun join :: "pystr \<Rightarrow> pystr list \<Rightarrow> pystr" where
  "join sep [] = []"
| "join sep [x] = x"
| "join sep (x # y # ys) = x @ sep @ join sep (y # ys)"

text \<open>
  The characters \<open>str.strip()\<close> removes (CPython's \<open>_PyUnicode_IsWhitespace\<close>).
\<close>

definition is_space :: "nat \<Rightarrow> bool" where
  "is_space c \<longleftrightarrow>
     (9 \<le> c \<and> c \<le> 13) \<or> (28 \<le> c \<and> c \<le> 32) \<or> c = 133 \<or> c = 160 \<or> c = 5760 \<or>
     (8192 \<le> c \<and> c \<le> 8202) \<or> c = 8232 \<or> c = 8233 \<or> c = 8239 \<or> c = 8287 \<or>
     c = 12288"

definition strip :: "pystr \<Rightarrow> pystr" where
  "strip s = rev (dropWhile is_space (rev (dropWhile is_space s)))"

text \<open>\<open>s.startswith(p)\<close> and \<open>sub in s\<close>.\<close>

fun startswith :: "pystr \<Rightarrow> pystr \<Rightarrow> bool" where
  "startswith s [] = True"
| "startswith [] (p # ps) = False"
| "startswith (c # cs) (p # ps) = (c = p \<and> startswith cs ps)"

fun contains :: "pystr \<Rightarrow> pystr \<Rightarrow> bool" where
  "contains [] sub = (sub = [])"
| "contains (c # cs) sub = (startswith (c # cs) sub \<or> contains cs sub)"

text \<open>
  \<open>s.encode('utf-8')\<close>: the bytes of one code point, and of a string. A lone surrogate
  (U+D800 to U+DFFF) has no UTF-8 form and the call raises \<open>UnicodeEncodeError\<close>.
\<close>

definition utf8_cp :: "nat \<Rightarrow> nat list" where
  "utf8_cp c =
     (if c < 128 then [c]
      else if c < 2048 then [192 + c div 64, 128 + c mod 64]
      else if c < 65536 then [224 + c div 4096, 128 + (c div 64) mod 64, 128 + c mod 64]
      else [240 + c div 262144, 128 + (c div 4096) mod 64, 128 + (c div 64) mod 64,
            128 + c mod 64])"

definition is_surrogate :: "nat \<Rightarrow> bool" where
  "is_surrogate c \<longleftrightarrow> 55296 \<le> c \<and> c \<le> 57343"

definition encodable :: "pystr \<Rightarrow> bool" where
  "encodable s = list_all (\<lambda>c. \<not> is_surrogate c) s"

definition UnicodeEncodeError :: exn where
  "UnicodeEncodeError =
     Exn ''UnicodeEncodeError'' (ascii ''surrogates not allowed'')"

definition encode_utf8 :: "pystr \<Rightarrow> exn + nat list" where
  "encode_utf8 s =
     (if encodable s then Inr (concat (map utf8_cp s)) else Inl UnicodeEncodeError)"

section \<open>The chunker of the log analyzer\<close>

text \<open>
  \<open>LangGraphAnalyzer._chunk_logs\<close> (log_analyzer/plugins/analyzers/langgraph.py).
  The loop keeps the finished chunks, the lines of the chunk being built and
  \<open>current_size\<close>, the sum of the byte lengths of those lines; \<open>chunk_size\<close> is a Python
  integer.
\<close>

fun chunk_loop ::
  "int \<Rightarrow> pystr list \<Rightarrow> pystr list \<Rightarrow> pystr list \<Rightarrow> int \<Rightarrow> exn + (pystr list \<times> pystr list)"
where
  "chunk_loop chunk_size [] chunks current_chunk current_size = Inr (chunks, current_chunk)"
| "chunk_loop chunk_size (line # lines) chunks current_chunk current_size =
     (case encode_utf8 line of
        Inl e \<Rightarrow> Inl e
      | Inr bytes \<Rightarrow>
          (let line_size = int (length bytes) in
           if current_size + line_size > chunk_size \<and> current_chunk \<noteq> [] then
             chunk_loop chunk_size lines (chunks @ [join [NL] current_chunk]) [line] line_size
           else
             chunk_loop chunk_size lines chunks (current_chunk @ [line])
               (current_size + line_size)))"

definition chunk_logs :: "int \<Rightarrow> pystr \<Rightarrow> exn + pystr list" where
  "chunk_logs chunk_size logs =
     (case chunk_loop chunk_size (split_on NL logs) [] [] 0 of
        Inl e \<Rightarrow> Inl e
      | Inr (chunks, current_chunk) \<Rightarrow>
          Inr (if current_chunk \<noteq> [] then chunks @ [join [NL] current_chunk] else chunks))"

definition utf8_len :: "pystr \<Rightarrow> int" where
  "utf8_len s = int (length (concat (map utf8_cp s)))"

text \<open>What the chunker returns for the chunks it has closed and the lines it still holds.\<close>

definition emit :: "pystr list \<Rightarrow> pystr list \<Rightarrow> pystr list" where
  "emit chunks current_chunk =
     (if current_chunk \<noteq> [] then chunks @ [join [NL] current_chunk] else chunks)"

text \<open>
  The bound the chunker keeps: a chunk is one line, or the byte lengths of its lines,
  the separating newlines not counted, add up to at most \<open>chunk_size\<close>.
\<close>

definition chunk_ok :: "int \<Rightarrow> pystr \<Rightarrow> bool" where
  "chunk_ok chunk_size chunk \<longleftrightarrow>
     length (split_on NL chunk) = 1 \<or>
     sum_list (map utf8_len (split_on NL chunk)) \<le> chunk_size"

subsection \<open>The chunks are the text, and their size\<close>

lemma split_on_not_Nil: "split_on sep s \<noteq> []"
  by (induction s) (auto split: list.splits)

lemma join_Cons: "join sep (x # xs) = (if xs = [] then x else x @ sep @ join sep xs)"
  by (cases xs) auto

lemma join_split_on: "join [sep] (split_on sep s) = s"
proof (induction s)
  case Nil
  then show ?case by simp
next
  case (Cons c cs)
  show ?case
  proof (cases "c = sep")
    case True
    with Cons split_on_not_Nil[of sep cs] show ?thesis by (simp add: join_Cons)
  next
    case False
    obtain l ls where sp: "split_on sep cs = l # ls"
      using split_on_not_Nil[of sep cs] by (cases "split_on sep cs") auto
    with Cons False show ?thesis by (simp add: join_Cons split: if_splits)
  qed
qed

lemma join_append:
  "xs \<noteq> [] \<Longrightarrow> ys \<noteq> [] \<Longrightarrow> join sep (xs @ ys) = join sep xs @ sep @ join sep ys"
  by (induction xs) (auto simp: join_Cons)

lemma join_inner:
  assumes "ys \<noteq> []"
  shows "join sep (xs @ [join sep ys] @ zs) = join sep (xs @ ys @ zs)"
proof (cases "zs = []")
  case True
  with assms show ?thesis by (cases "xs = []") (simp_all add: join_append)
next
  case False
  with assms have mid: "join sep ([join sep ys] @ zs) = join sep (ys @ zs)"
    by (simp add: join_append join_Cons)
  show ?thesis
  proof (cases "xs = []")
    case True
    with mid show ?thesis by simp
  next
    case xs: False
    have "join sep (xs @ ([join sep ys] @ zs)) = join sep xs @ sep @ join sep ([join sep ys] @ zs)"
      by (rule join_append) (use xs in simp_all)
    moreover have "join sep (xs @ (ys @ zs)) = join sep xs @ sep @ join sep (ys @ zs)"
      by (rule join_append) (use xs assms in simp_all)
    ultimately show ?thesis using mid by simp
  qed
qed

lemma chunk_loop_join:
  "chunk_loop S lines chunks cur sz = Inr (chunks', cur') \<Longrightarrow>
   join [NL] (emit chunks' cur') = join [NL] (emit chunks cur @ lines)"
proof (induction lines arbitrary: chunks cur sz)
  case Nil
  then show ?case by simp
next
  case (Cons line lines)
  then obtain bytes where enc: "encode_utf8 line = Inr bytes"
    by (cases "encode_utf8 line") auto
  show ?case
  proof (cases "sz + int (length bytes) > S \<and> cur \<noteq> []")
    case True
    with Cons.prems enc
    have "chunk_loop S lines (chunks @ [join [NL] cur]) [line] (int (length bytes)) = Inr (chunks', cur')"
      by (simp add: Let_def)
    from Cons.IH[OF this] True show ?thesis by (simp add: emit_def)
  next
    case False
    with Cons.prems enc
    have "chunk_loop S lines chunks (cur @ [line]) (sz + int (length bytes)) = Inr (chunks', cur')"
      by (auto simp add: Let_def)
    from Cons.IH[OF this]
    have "join [NL] (emit chunks' cur') = join [NL] (chunks @ [join [NL] (cur @ [line])] @ lines)"
      by (simp add: emit_def)
    also have "\<dots> = join [NL] (chunks @ (cur @ [line]) @ lines)"
      by (rule join_inner) simp
    also have "\<dots> = join [NL] (emit chunks cur @ line # lines)"
    proof (cases "cur = []")
      case True
      then show ?thesis by (simp add: emit_def)
    next
      case False
      have "join [NL] (chunks @ [join [NL] cur] @ line # lines) = join [NL] (chunks @ cur @ line # lines)"
        by (rule join_inner) (rule False)
      with False show ?thesis by (simp add: emit_def)
    qed
    finally show ?thesis .
  qed
qed


lemma split_on_no_sep: "list_all (\<lambda>l. sep \<notin> set l) (split_on sep s)"
proof (induction s)
  case Nil
  then show ?case by simp
next
  case (Cons c cs)
  then show ?case by (cases "split_on sep cs") auto
qed

lemma split_on_no_sep_id: "sep \<notin> set l \<Longrightarrow> split_on sep l = [l]"
  by (induction l) auto

lemma split_on_append:
  "sep \<notin> set l \<Longrightarrow> split_on sep (l @ sep # r) = l # split_on sep r"
  by (induction l) auto

lemma split_on_join:
  "ls \<noteq> [] \<Longrightarrow> list_all (\<lambda>l. sep \<notin> set l) ls \<Longrightarrow> split_on sep (join [sep] ls) = ls"
proof (induction ls)
  case Nil
  then show ?case by simp
next
  case (Cons l ls)
  then show ?case
    by (cases "ls = []") (simp_all add: join_Cons split_on_no_sep_id split_on_append)
qed

lemma encodable_split_on: "encodable s \<Longrightarrow> list_all encodable (split_on sep s)"
proof (induction s)
  case Nil
  then show ?case by (simp add: encodable_def)
next
  case (Cons c cs)
  then show ?case by (cases "split_on sep cs") (auto simp: encodable_def)
qed

lemma chunk_loop_total:
  "list_all encodable lines \<Longrightarrow> \<exists>r. chunk_loop S lines chunks cur sz = Inr r"
  by (induction lines arbitrary: chunks cur sz) (auto simp: encode_utf8_def Let_def)

lemma utf8_len_nonneg: "0 \<le> utf8_len s"
  by (simp add: utf8_len_def)

lemma chunk_ok_join:
  assumes "cur \<noteq> []" "list_all (\<lambda>l. NL \<notin> set l) cur"
    and "length cur \<le> 1 \<or> sum_list (map utf8_len cur) \<le> S"
  shows "chunk_ok S (join [NL] cur)"
proof -
  have sp: "split_on NL (join [NL] cur) = cur"
    using assms(1,2) by (rule split_on_join)
  from assms(1) have "length cur \<noteq> 0" by simp
  with assms(3) have "length cur = 1 \<or> sum_list (map utf8_len cur) \<le> S" by linarith
  with sp show ?thesis by (simp add: chunk_ok_def)
qed

lemma chunk_loop_bound:
  assumes "chunk_loop S lines chunks cur sz = Inr (chunks', cur')"
    and "sz = sum_list (map utf8_len cur)"
    and "length cur \<le> 1 \<or> sz \<le> S"
    and "list_all (chunk_ok S) chunks"
    and "list_all (\<lambda>l. NL \<notin> set l) cur"
    and "list_all (\<lambda>l. NL \<notin> set l) lines"
  shows "list_all (chunk_ok S) (emit chunks' cur')"
  using assms
proof (induction lines arbitrary: chunks cur sz)
  case Nil
  then show ?case by (auto simp: emit_def chunk_ok_join)
next
  case (Cons line lines)
  from Cons.prems(1) obtain bytes where enc: "encode_utf8 line = Inr bytes"
    by (cases "encode_utf8 line") auto
  then have len: "int (length bytes) = utf8_len line"
    by (auto simp: encode_utf8_def utf8_len_def split: if_splits)
  show ?case
  proof (cases "sz + utf8_len line > S \<and> cur \<noteq> []")
    case True
    with Cons.prems(1) enc len
    have run: "chunk_loop S lines (chunks @ [join [NL] cur]) [line] (utf8_len line) = Inr (chunks', cur')"
      by (simp add: Let_def)
    have "chunk_ok S (join [NL] cur)"
      using True Cons.prems(2,3,5) by (intro chunk_ok_join) auto
    with Cons.prems(4) have "list_all (chunk_ok S) (chunks @ [join [NL] cur])" by simp
    with run Cons.prems(6) show ?thesis
      by (intro Cons.IH[OF run]) auto
  next
    case False
    with Cons.prems(1) enc len
    have run: "chunk_loop S lines chunks (cur @ [line]) (sz + utf8_len line) = Inr (chunks', cur')"
      by (auto simp add: Let_def)
    have "length (cur @ [line]) \<le> 1 \<or> sz + utf8_len line \<le> S"
      using False by (cases "cur = []") auto
    with run Cons.prems show ?thesis
      by (intro Cons.IH[OF run]) auto
  qed
qed

text \<open>
  Claim C1, as the code has it. For every text that UTF-8 can encode and every chunk
  size, \<open>_chunk_logs\<close> returns a list of chunks whose join with a newline is the text
  again, and every chunk is a single line or has lines whose byte lengths add up to at
  most the chunk size. The newlines inside a chunk are not counted by the chunker, so
  the bytes of a chunk of several lines can exceed the chunk size.
\<close>

theorem chunk_logs_lossless_bound:
  assumes "encodable T"
  shows "\<exists>chunks. chunk_logs S T = Inr chunks \<and> join [NL] chunks = T \<and>
           list_all (chunk_ok S) chunks"
proof -
  from assms have "list_all encodable (split_on NL T)"
    by (rule encodable_split_on)
  then obtain chunks cur where run: "chunk_loop S (split_on NL T) [] [] 0 = Inr (chunks, cur)"
    using chunk_loop_total[of "split_on NL T" S "[]" "[]" 0] by auto
  then have res: "chunk_logs S T = Inr (emit chunks cur)"
    by (simp add: chunk_logs_def emit_def)
  have "join [NL] (emit chunks cur) = join [NL] (emit [] [] @ split_on NL T)"
    using run by (rule chunk_loop_join)
  then have j: "join [NL] (emit chunks cur) = T"
    by (simp add: emit_def join_split_on)
  have "list_all (chunk_ok S) (emit chunks cur)"
    using run by (rule chunk_loop_bound) (simp_all add: split_on_no_sep)
  with res j show ?thesis by simp
qed

lemma chunk_loop_unencodable:
  "\<not> list_all encodable lines \<Longrightarrow> chunk_loop S lines chunks cur sz = Inl UnicodeEncodeError"
  by (induction lines arbitrary: chunks cur sz) (auto simp: encode_utf8_def Let_def)

theorem chunk_logs_lossless_bound_witness:
  "encodable [97, 98, 10, 98, 99, 10, 99] \<and>
   (\<exists>chunks. chunk_logs 3 [97, 98, 10, 98, 99, 10, 99] = Inr chunks \<and>
      join [NL] chunks = [97, 98, 10, 98, 99, 10, 99] \<and> list_all (chunk_ok 3) chunks)"
proof -
  have enc: "encodable [97, 98, 10, 98, 99, 10, 99]"
    by (simp add: encodable_def is_surrogate_def)
  from chunk_logs_lossless_bound[OF enc, of 3] enc show ?thesis by simp
qed

text \<open>
  The text \<open>a\nb\nc\<close> with chunk size 3: the three lines are one byte each, so the
  chunker keeps them in one chunk, which is five bytes long and is not a single line.
\<close>

theorem chunk_size_bound_counterexample:
  "chunk_logs 3 [97, 10, 98, 10, 99] = Inr [[97, 10, 98, 10, 99]] \<and>
   split_on NL [97, 10, 98, 10, 99] = [[97], [98], [99]] \<and>
   utf8_len [97, 10, 98, 10, 99] = 5 \<and>
   \<not> utf8_len [97, 10, 98, 10, 99] \<le> 3"
  by (simp add: chunk_logs_def encode_utf8_def encodable_def is_surrogate_def utf8_cp_def
      utf8_len_def NL_def)

text \<open>A text with a lone surrogate is not chunked: the encoding of the line raises.\<close>

lemma chunk_logs_unencodable:
  "\<not> encodable T \<Longrightarrow> chunk_logs S T = Inl UnicodeEncodeError"
proof -
  assume ne: "\<not> encodable T"
  have "\<not> list_all encodable (split_on NL T)"
  proof
    assume all: "list_all encodable (split_on NL T)"
    have "encodable (join [NL] ls)" if "list_all encodable ls" for ls
      using that by (induction ls) (auto simp: join_Cons encodable_def NL_def is_surrogate_def)
    from this[OF all] have "encodable T" by (simp add: join_split_on)
    with ne show False by simp
  qed
  then show ?thesis by (simp add: chunk_logs_def chunk_loop_unencodable)
qed

lemma chunk_logs_surrogate_example:
  "chunk_logs 3 [55296] = Inl UnicodeEncodeError"
  by (rule chunk_logs_unencodable) (simp add: encodable_def is_surrogate_def)

section \<open>The analyzer of the log analysis\<close>

text \<open>
  \<open>LangGraphAnalyzer\<close> of log_analyzer/plugins/analyzers/langgraph.py. The fields are
  those of the object. \<open>progress_callback\<close> says whether a callback is set, and
  \<open>run_id\<close> is \<open>None\<close> until \<open>set_run_id\<close>. The prompt templates and the remote model
  are outside the program: \<open>chunk_prompt\<close> and \<open>summary_prompt\<close> stand for
  \<open>prompts.get(..., default).format(...)\<close>, which gives the prompt or raises (a
  template of the configuration with a field that \<open>format\<close> is not given, a lone brace,
  a template that is not a string), and \<open>client\<close> for \<open>client.chat.completions.create\<close>.
  A request is numbered by the chunk it is for, the request for the summary by the
  number of chunks; the answer is an exception or the \<open>message.content\<close> of each choice,
  which may be \<open>None\<close>.
\<close>

record analyzer =
  mode :: pystr
  concurrency :: int
  chunk_size :: int
  progress_callback :: bool
  run_id :: "int option"
  chunk_prompt :: "pystr \<Rightarrow> exn + pystr"
  summary_prompt :: "pystr \<Rightarrow> exn + pystr"
  client :: "nat \<Rightarrow> pystr \<Rightarrow> exn + pystr option list"

text \<open>What an analysis does to the world: the requests sent, and the calls of the callback.\<close>

datatype request = ChunkRequest nat pystr | SummaryRequest pystr

record effects =
  llm_log :: "request list"
  progress_log :: "(int \<times> nat \<times> nat) list"

definition no_effects :: effects where
  "no_effects = \<lparr>llm_log = [], progress_log = []\<rparr>"

text \<open>The literals of the source, as code points.\<close>

definition no_error_logs :: pystr where
  "no_error_logs = [26410, 21457, 29616, 20219, 20309, 38169, 35823, 26085, 24535]"

definition none_marker :: pystr where
  "none_marker = ascii ''<NONE>''"

definition no_errors_found_any :: pystr where
  "no_errors_found_any = [26410, 21457, 29616, 20219, 20309, 38169, 35823]"

definition no_errors_found :: pystr where
  "no_errors_found = [26410, 21457, 29616, 38169, 35823]"

definition without_errors :: pystr where
  "without_errors = [26080, 38169, 35823]"

definition no_errors_report :: pystr where
  "no_errors_report =
     [35, 35, 32, 20998, 26512, 32467, 26524, 10, 10, 9989, 32, 42, 42, 26410, 21457, 29616,
      20219, 20309, 38169, 35823, 42, 42, 10, 10, 26412, 27425, 20998, 26512, 26410, 26816,
      27979, 21040, 20219, 20309, 38169, 35823, 12289, 24322, 24120, 25110, 35686, 21578,
      20449, 24687, 12290]"

definition analysis_failed :: pystr where
  "analysis_failed = [20998, 26512, 22833, 36133, 58, 32]"

definition separator :: pystr where
  "separator = ascii [CHR 0x0A, CHR 0x0A, CHR ''-'', CHR ''-'', CHR ''-'', CHR 0x0A, CHR 0x0A]"

text \<open>
  \<open>response.choices[0].message.content.strip()\<close>: no choice is an \<open>IndexError\<close>, a
  content of \<open>None\<close> an \<open>AttributeError\<close>.
\<close>

definition completion_text :: "exn + pystr option list \<Rightarrow> exn + pystr" where
  "completion_text response =
     (case response of
        Inl e \<Rightarrow> Inl e
      | Inr [] \<Rightarrow> Inl (Exn ''IndexError'' (ascii ''list index out of range''))
      | Inr (None # _) \<Rightarrow>
          Inl (Exn ''AttributeError''
                 (ascii [CHR 0x27] @ ascii ''NoneType'' @ ascii [CHR 0x27] @
                  ascii '' object has no attribute '' @ ascii [CHR 0x27] @ ascii ''strip'' @
                  ascii [CHR 0x27]))
      | Inr (Some content # _) \<Rightarrow> Inr (strip content))"

text \<open>
  The \<open>try\<close> of \<open>_analyze_chunk\<close>: one request; a failure of the request becomes the
  text.
\<close>

definition request_chunk :: "analyzer \<Rightarrow> nat \<Rightarrow> pystr \<Rightarrow> pystr" where
  "request_chunk a i prompt =
     (case completion_text (client a i prompt) of
        Inl e \<Rightarrow> analysis_failed @ exc_str e
      | Inr result \<Rightarrow> result)"

text \<open>
  \<open>_analyze_chunk\<close>: the prompt is built before the \<open>try\<close>, so an exception of
  \<open>format\<close> leaves the method.
\<close>

definition analyze_chunk :: "analyzer \<Rightarrow> nat \<Rightarrow> pystr \<Rightarrow> exn + pystr" where
  "analyze_chunk a i chunk =
     (case chunk_prompt a chunk of
        Inl e \<Rightarrow> Inl e
      | Inr prompt \<Rightarrow> Inr (request_chunk a i prompt))"

text \<open>\<open>if self.progress_callback and self.run_id: self.progress_callback(...)\<close>.\<close>

definition report_progress :: "analyzer \<Rightarrow> nat \<Rightarrow> nat \<Rightarrow> effects \<Rightarrow> effects" where
  "report_progress a total_chunks processed eff =
     (case run_id a of
        None \<Rightarrow> eff
      | Some r \<Rightarrow>
          if progress_callback a \<and> r \<noteq> 0
          then eff\<lparr>progress_log := progress_log eff @ [(r, total_chunks, processed)]\<rparr>
          else eff)"

definition send :: "request \<Rightarrow> effects \<Rightarrow> effects" where
  "send r eff = eff\<lparr>llm_log := llm_log eff @ [r]\<rparr>"

text \<open>
  \<open>_analyze_sequential\<close>: the loop over \<open>enumerate(chunks)\<close>. An exception of
  \<open>_analyze_chunk\<close> ends it.
\<close>

fun analyze_sequential_loop ::
  "analyzer \<Rightarrow> nat \<Rightarrow> nat \<Rightarrow> pystr list \<Rightarrow> pystr list \<Rightarrow> effects \<Rightarrow>
   pystr list outcome \<times> effects"
where
  "analyze_sequential_loop a total_chunks i [] analyses eff = (Returns analyses, eff)"
| "analyze_sequential_loop a total_chunks i (chunk # chunks) analyses eff =
     (case chunk_prompt a chunk of
        Inl e \<Rightarrow> (Raises e, eff)
      | Inr prompt \<Rightarrow>
          (let analysis = request_chunk a i prompt;
               eff1 = send (ChunkRequest i prompt) eff;
               eff2 = report_progress a total_chunks (i + 1) eff1
           in analyze_sequential_loop a total_chunks (i + 1) chunks (analyses @ [analysis]) eff2))"

definition analyze_sequential ::
  "analyzer \<Rightarrow> pystr list \<Rightarrow> effects \<Rightarrow> pystr list outcome \<times> effects" where
  "analyze_sequential a chunks eff = analyze_sequential_loop a (length chunks) 0 chunks [] eff"

text \<open>The filter of \<open>_analyze_async\<close>: the loop that fills \<open>valid_analyses\<close>.\<close>

fun filter_loop :: "pystr list \<Rightarrow> pystr list \<Rightarrow> pystr list" where
  "filter_loop [] valid = valid"
| "filter_loop (a # analyses) valid =
     (if a = [] \<or> strip a = none_marker then filter_loop analyses valid
      else if contains a no_errors_found_any \<or> contains a no_errors_found \<or>
              contains a without_errors
        then filter_loop analyses valid
      else if length (strip a) < 50 then filter_loop analyses valid
      else filter_loop analyses (valid @ [a]))"

definition valid_analyses :: "pystr list \<Rightarrow> pystr list" where
  "valid_analyses analyses = filter_loop analyses []"

text \<open>
  \<open>_summarize\<close>: one analysis is the summary; otherwise one more request, whose prompt
  is built before the \<open>try\<close>.
\<close>

definition summarize ::
  "analyzer \<Rightarrow> nat \<Rightarrow> pystr list \<Rightarrow> effects \<Rightarrow> (exn + pystr) \<times> effects" where
  "summarize a n analyses eff =
     (case analyses of
        [only] \<Rightarrow> (Inr only, eff)
      | _ \<Rightarrow>
          (case summary_prompt a (join separator analyses) of
             Inl e \<Rightarrow> (Inl e, eff)
           | Inr prompt \<Rightarrow>
               (let eff1 = send (SummaryRequest prompt) eff
                in (case completion_text (client a n prompt) of
                      Inl e \<Rightarrow> (Inr (join separator analyses), eff1)
                    | Inr result \<Rightarrow> (Inr result, eff1)))))"


subsection \<open>The concurrent analysis\<close>

text \<open>
  \<open>_analyze_concurrent\<close> starts one task per chunk and waits for all of them with
  \<open>asyncio.gather\<close>. The model is the state of the tasks and of what they share, and
  one step of one task. A task is at one of these places of \<open>analyze_with_semaphore\<close>:
  before \<open>async with semaphore\<close>; inside \<open>await self._analyze_chunk(chunk)\<close>, its
  request sent, with the prompt; before \<open>async with lock\<close>, with its result; holding
  the lock, before \<open>processed_count += 1\<close> reads the counter; with the value it read,
  before it stores the sum; before the call of the callback; before the lock is
  released; before the semaphore is released; returned; ended by the exception that
  \<open>format\<close> raised. The event loop of asyncio runs a task from one \<open>await\<close> to the next
  without interruption, so its runs are among those of the model, which lets the tasks
  take turns at every step. \<open>raised\<close> is the first exception that ended a task: the one
  \<open>gather\<close> raises in the caller.
\<close>

datatype pc =
    AwaitSemaphore
  | AwaitChunk pystr
  | AwaitLock pystr
  | Increment pystr
  | Store pystr nat
  | Callback pystr
  | ReleaseLock pystr
  | ReleaseSemaphore pystr
  | Finished pystr
  | Failed exn

record conc_state =
  pcs :: "pc list"
  semaphore :: nat
  lock_held :: bool
  processed_count :: nat
  raised :: "exn option"
  conc_eff :: effects


text \<open>
  \<open>asyncio.Semaphore(self.concurrency)\<close>, the counter at zero and a free lock; a
  negative value is refused by the constructor (see \<open>analyze_concurrent\<close>).
\<close>

definition conc_init :: "analyzer \<Rightarrow> pystr list \<Rightarrow> effects \<Rightarrow> conc_state" where
  "conc_init a chunks eff =
     \<lparr>pcs = replicate (length chunks) AwaitSemaphore, semaphore = nat (concurrency a),
      lock_held = False, processed_count = 0, raised = None, conc_eff = eff\<rparr>"


text \<open>
  One step of task \<open>i\<close>; \<open>None\<close> when the task waits (no free slot of the semaphore,
  the lock held by another task) or has ended. A task that enters the semaphore builds
  its prompt at once: when \<open>format\<close> raises, \<open>async with\<close> gives the slot back and the
  task ends with the exception.
\<close>

definition task_step :: "analyzer \<Rightarrow> pystr list \<Rightarrow> conc_state \<Rightarrow> nat \<Rightarrow> conc_state option" where
  "task_step a chunks s i =
     (if length (pcs s) \<le> i \<or> length chunks \<le> i then None
      else (case pcs s ! i of
        AwaitSemaphore \<Rightarrow>
          if 0 < semaphore s
          then (case chunk_prompt a (chunks ! i) of
                  Inl e \<Rightarrow>
                    Some (s\<lparr>pcs := (pcs s)[i := Failed e],
                            raised := (case raised s of None \<Rightarrow> Some e | Some e0 \<Rightarrow> Some e0)\<rparr>)
                | Inr prompt \<Rightarrow>
                    Some (s\<lparr>pcs := (pcs s)[i := AwaitChunk prompt], semaphore := semaphore s - 1,
                            conc_eff := send (ChunkRequest i prompt) (conc_eff s)\<rparr>))
          else None
      | AwaitChunk prompt \<Rightarrow>
          Some (s\<lparr>pcs := (pcs s)[i := AwaitLock (request_chunk a i prompt)]\<rparr>)
      | AwaitLock r \<Rightarrow>
          if lock_held s then None
          else Some (s\<lparr>pcs := (pcs s)[i := Increment r], lock_held := True\<rparr>)
      | Increment r \<Rightarrow> Some (s\<lparr>pcs := (pcs s)[i := Store r (processed_count s)]\<rparr>)
      | Store r v \<Rightarrow> Some (s\<lparr>pcs := (pcs s)[i := Callback r], processed_count := v + 1\<rparr>)
      | Callback r \<Rightarrow>
          Some (s\<lparr>pcs := (pcs s)[i := ReleaseLock r],
                  conc_eff := report_progress a (length chunks) (processed_count s) (conc_eff s)\<rparr>)
      | ReleaseLock r \<Rightarrow> Some (s\<lparr>pcs := (pcs s)[i := ReleaseSemaphore r], lock_held := False\<rparr>)
      | ReleaseSemaphore r \<Rightarrow>
          Some (s\<lparr>pcs := (pcs s)[i := Finished r], semaphore := semaphore s + 1\<rparr>)
      | Finished r \<Rightarrow> None
      | Failed e \<Rightarrow> None))"


text \<open>
  The steps each task still has to take; every step lowers the sum, so a run is finite.
\<close>

fun rank :: "pc \<Rightarrow> nat" where
  "rank AwaitSemaphore = 8"
| "rank (AwaitChunk p) = 7"
| "rank (AwaitLock r) = 6"
| "rank (Increment r) = 5"
| "rank (Store r v) = 4"
| "rank (Callback r) = 3"
| "rank (ReleaseLock r) = 2"
| "rank (ReleaseSemaphore r) = 1"
| "rank (Finished r) = 0"
| "rank (Failed e) = 0"

definition remaining :: "conc_state \<Rightarrow> nat" where
  "remaining s = sum_list (map rank (pcs s))"


text \<open>
  The step of the first task that can take one, as long as no task has raised: once
  one has, \<open>gather\<close> raises in the caller and the event loop cancels the tasks that
  have not returned.
\<close>

definition first_enabled :: "analyzer \<Rightarrow> pystr list \<Rightarrow> conc_state \<Rightarrow> conc_state option" where
  "first_enabled a chunks s =
     (if raised s \<noteq> None then None
      else (case List.find (\<lambda>i. task_step a chunks s i \<noteq> None) [0..<length (pcs s)] of
              None \<Rightarrow> None
            | Some i \<Rightarrow> task_step a chunks s i))"

lemma sum_list_rank_update:
  "i < length xs \<Longrightarrow> rank y < rank (xs ! i) \<Longrightarrow>
   sum_list (map rank (xs[i := y])) < sum_list (map rank xs)"
proof (induction xs arbitrary: i)
  case Nil
  then show ?case by simp
next
  case (Cons x xs)
  then show ?case by (cases i) auto
qed

lemma task_step_remaining:
  "task_step a chunks s i = Some s' \<Longrightarrow> remaining s' < remaining s"
  unfolding task_step_def remaining_def
  by (auto split: if_splits pc.splits sum.splits intro!: sum_list_rank_update)

lemma first_enabled_remaining:
  "first_enabled a chunks s = Some s' \<Longrightarrow> remaining s' < remaining s"
  unfolding first_enabled_def
  by (auto split: option.splits if_splits dest: task_step_remaining)


text \<open>
  The order in which the tasks take their steps is not the program's to choose: it is a
  parameter, the list of the tasks that are given a turn (a turn of a task that waits
  changes nothing). After the schedule the loop goes on running tasks until none can
  take a step or one has raised.
\<close>

fun run_schedule :: "analyzer \<Rightarrow> pystr list \<Rightarrow> nat list \<Rightarrow> conc_state \<Rightarrow> conc_state" where
  "run_schedule a chunks [] s = s"
| "run_schedule a chunks (i # sched) s =
     (case task_step a chunks s i of
        None \<Rightarrow> run_schedule a chunks sched s
      | Some s' \<Rightarrow> run_schedule a chunks sched s')"

function drain :: "analyzer \<Rightarrow> pystr list \<Rightarrow> conc_state \<Rightarrow> conc_state" where
  "drain a chunks s =
     (case first_enabled a chunks s of
        None \<Rightarrow> s
      | Some s' \<Rightarrow> drain a chunks s')"
  by pat_completeness auto

termination
  by (relation "measure (\<lambda>(a, chunks, s). remaining s)") (auto dest: first_enabled_remaining)

text \<open>
  \<open>asyncio.gather\<close> gives the results in the order of the tasks once all have returned.
\<close>

fun result_of :: "pc \<Rightarrow> pystr option" where
  "result_of (Finished r) = Some r"
| "result_of p = None"

fun gather :: "pc list \<Rightarrow> pystr list option" where
  "gather [] = Some []"
| "gather (p # ps) =
     (case result_of p of
        None \<Rightarrow> None
      | Some r \<Rightarrow> (case gather ps of None \<Rightarrow> None | Some rs \<Rightarrow> Some (r # rs)))"


text \<open>
  \<open>_analyze_concurrent\<close>. When a task has raised, the \<open>await\<close> of \<open>gather\<close> raises its
  exception. When no task can take a step and one has not returned, the \<open>await\<close>
  never ends.
\<close>

definition analyze_concurrent ::
  "analyzer \<Rightarrow> pystr list \<Rightarrow> nat list \<Rightarrow> effects \<Rightarrow> pystr list outcome \<times> effects" where
  "analyze_concurrent a chunks sched eff =
     (if concurrency a < 0
      then (Raises (Exn ''ValueError'' (ascii ''Semaphore initial value must be >= 0'')), eff)
      else
        (let s = drain a chunks (run_schedule a chunks sched (conc_init a chunks eff))
         in (case raised s of
               Some e \<Rightarrow> (Raises e, conc_eff s)
             | None \<Rightarrow>
                 (case gather (pcs s) of
                    None \<Rightarrow> (Hangs, conc_eff s)
                  | Some results \<Rightarrow> (Returns results, conc_eff s)))))"


text \<open>
  Every chunk has a prompt; and then the analyses of the chunks, each the answer to the
  request numbered by its chunk.
\<close>

definition prompts_built :: "analyzer \<Rightarrow> pystr list \<Rightarrow> bool" where
  "prompts_built a chunks = list_all (\<lambda>chunk. \<not> isl (chunk_prompt a chunk)) chunks"

definition chunk_analyses :: "analyzer \<Rightarrow> pystr list \<Rightarrow> pystr list" where
  "chunk_analyses a chunks =
     map (\<lambda>i. request_chunk a i (projr (chunk_prompt a (chunks ! i)))) [0..<length chunks]"


text \<open>The callback is called when it is set and the run id is set and not zero.\<close>

definition reporting :: "analyzer \<Rightarrow> bool" where
  "reporting a \<longleftrightarrow> (case run_id a of None \<Rightarrow> False | Some r \<Rightarrow> progress_callback a \<and> r \<noteq> 0)"


text \<open>The calls of the callback for the counts 1 to \<open>n\<close>, in this order.\<close>

definition progress_upto :: "analyzer \<Rightarrow> nat \<Rightarrow> nat \<Rightarrow> (int \<times> nat \<times> nat) list" where
  "progress_upto a total_chunks n =
     (case run_id a of
        None \<Rightarrow> []
      | Some r \<Rightarrow>
          if progress_callback a \<and> r \<noteq> 0 then map (\<lambda>k. (r, total_chunks, k)) [1..<Suc n]
          else [])"

fun is_chunk_request :: "request \<Rightarrow> bool" where
  "is_chunk_request (ChunkRequest i p) = True"
| "is_chunk_request (SummaryRequest p) = False"


text \<open>
  What holds in every state of a run. The tasks between the two ends of
  \<open>async with semaphore\<close> and the free slots add up to the bound; the lock is held by
  exactly the one task inside \<open>async with lock\<close>, if any; the counter is the number of
  tasks that have stored their sum; a task that has read the counter holds its present
  value; the callback has been called with 1, 2, ... up to the number of tasks that are
  past it; every request sent is for a chunk, one for each task past the semaphore;
  an exception is recorded exactly when a task has ended with one.
\<close>

fun holds_permit :: "pc \<Rightarrow> bool" where
  "holds_permit AwaitSemaphore = False"
| "holds_permit (Finished r) = False"
| "holds_permit (Failed e) = False"
| "holds_permit p = True"

fun in_lock :: "pc \<Rightarrow> bool" where
  "in_lock (Increment r) = True"
| "in_lock (Store r v) = True"
| "in_lock (Callback r) = True"
| "in_lock (ReleaseLock r) = True"
| "in_lock p = False"

fun is_callback :: "pc \<Rightarrow> bool" where
  "is_callback (Callback r) = True"
| "is_callback p = False"

fun reported :: "pc \<Rightarrow> bool" where
  "reported (ReleaseLock r) = True"
| "reported (ReleaseSemaphore r) = True"
| "reported (Finished r) = True"
| "reported p = False"

fun requested :: "pc \<Rightarrow> bool" where
  "requested AwaitSemaphore = False"
| "requested (Failed e) = False"
| "requested p = True"

fun is_failed :: "pc \<Rightarrow> bool" where
  "is_failed (Failed e) = True"
| "is_failed p = False"

fun read_ok :: "nat \<Rightarrow> pc \<Rightarrow> bool" where
  "read_ok n (Store r v) = (v = n)"
| "read_ok n p = True"

fun result_ok :: "analyzer \<Rightarrow> pystr list \<Rightarrow> nat \<times> pc \<Rightarrow> bool" where
  "result_ok a chunks (i, AwaitSemaphore) = True"
| "result_ok a chunks (i, AwaitChunk p) = (chunk_prompt a (chunks ! i) = Inr p)"
| "result_ok a chunks (i, AwaitLock r) = (analyze_chunk a i (chunks ! i) = Inr r)"
| "result_ok a chunks (i, Increment r) = (analyze_chunk a i (chunks ! i) = Inr r)"
| "result_ok a chunks (i, Store r v) = (analyze_chunk a i (chunks ! i) = Inr r)"
| "result_ok a chunks (i, Callback r) = (analyze_chunk a i (chunks ! i) = Inr r)"
| "result_ok a chunks (i, ReleaseLock r) = (analyze_chunk a i (chunks ! i) = Inr r)"
| "result_ok a chunks (i, ReleaseSemaphore r) = (analyze_chunk a i (chunks ! i) = Inr r)"
| "result_ok a chunks (i, Finished r) = (analyze_chunk a i (chunks ! i) = Inr r)"
| "result_ok a chunks (i, Failed e) = (chunk_prompt a (chunks ! i) = Inl e)"

definition how_many :: "('a \<Rightarrow> bool) \<Rightarrow> 'a list \<Rightarrow> nat" where
  "how_many P xs = length (filter P xs)"

definition conc_inv :: "analyzer \<Rightarrow> pystr list \<Rightarrow> effects \<Rightarrow> conc_state \<Rightarrow> bool" where
  "conc_inv a chunks eff0 s \<longleftrightarrow>
     length (pcs s) = length chunks \<and>
     how_many holds_permit (pcs s) + semaphore s = nat (concurrency a) \<and>
     how_many in_lock (pcs s) = (if lock_held s then 1 else 0) \<and>
     processed_count s = how_many reported (pcs s) + how_many is_callback (pcs s) \<and>
     list_all (read_ok (processed_count s)) (pcs s) \<and>
     list_all (result_ok a chunks) (enumerate 0 (pcs s)) \<and>
     progress_log (conc_eff s) =
       progress_log eff0 @ progress_upto a (length chunks) (how_many reported (pcs s)) \<and>
     (\<exists>reqs. llm_log (conc_eff s) = llm_log eff0 @ reqs \<and> list_all is_chunk_request reqs \<and>
        length reqs = how_many requested (pcs s)) \<and>
     (raised s = None) = (how_many is_failed (pcs s) = 0)"


subsection \<open>Every run keeps the invariant and ends\<close>

lemma how_many_update:
  "i < length xs \<Longrightarrow>
   how_many P (xs[i := y]) + (if P (xs ! i) then 1 else 0) =
   how_many P xs + (if P y then 1 else 0)"
  unfolding how_many_def
proof (induction xs arbitrary: i)
  case Nil
  then show ?case by simp
next
  case (Cons x xs)
  then show ?case by (cases i) auto
qed

lemma how_many_unique:
  assumes "how_many P xs \<le> 1" "i < length xs" "j < length xs" "P (xs ! i)" "P (xs ! j)"
  shows "i = j"
proof (rule ccontr)
  assume "i \<noteq> j"
  let ?S = "{k. k < length xs \<and> P (xs ! k)}"
  have "{i, j} \<subseteq> ?S" using assms by auto
  moreover have "finite ?S" by simp
  ultimately have "card {i, j} \<le> card ?S" by (rule card_mono[rotated])
  moreover have "card ?S = how_many P xs"
    by (simp add: how_many_def length_filter_conv_card)
  ultimately show False using \<open>i \<noteq> j\<close> assms(1) by simp
qed

lemma conc_init_inv:
  "0 \<le> concurrency a \<Longrightarrow> conc_inv a chunks eff (conc_init a chunks eff)"
  by (simp add: conc_inv_def conc_init_def how_many_def progress_upto_def list_all_length
      nth_enumerate_eq split: option.splits)

lemma list_all_update:
  "list_all P xs \<Longrightarrow> P y \<Longrightarrow> list_all P (xs[i := y])"
  by (induction xs arbitrary: i) (auto split: nat.splits)

lemma list_all_enumerate_update:
  "i < length xs \<Longrightarrow> list_all P (enumerate 0 xs) \<Longrightarrow> P (i, y) \<Longrightarrow>
   list_all P (enumerate 0 (xs[i := y]))"
  by (auto simp: list_all_length nth_enumerate_eq nth_list_update)

lemma task_step_bounds:
  "task_step a chunks s i = Some s' \<Longrightarrow> i < length (pcs s) \<and> i < length chunks"
  by (auto simp: task_step_def split: if_splits)

lemma step_AwaitSemaphore:
  assumes inv: "conc_inv a chunks eff0 s" and i: "i < length (pcs s)" "i < length chunks"
    and pc: "pcs s ! i = AwaitSemaphore" and sem: "0 < semaphore s"
    and prompt: "chunk_prompt a (chunks ! i) = Inr p"
  shows "conc_inv a chunks eff0 (s\<lparr>pcs := (pcs s)[i := AwaitChunk p], semaphore := semaphore s - 1,
        conc_eff := send (ChunkRequest i p) (conc_eff s)\<rparr>)"
proof -
  note hm = how_many_update[OF i(1)]
  let ?y = "AwaitChunk p"
  from inv sem pc i prompt hm[of holds_permit ?y] hm[of in_lock ?y]
      hm[of reported ?y] hm[of is_callback ?y] hm[of requested ?y] hm[of is_failed ?y]
  show ?thesis unfolding conc_inv_def
    by (auto simp: send_def intro!: list_all_update list_all_enumerate_update)
qed

lemma step_Failed:
  assumes inv: "conc_inv a chunks eff0 s" and i: "i < length (pcs s)" "i < length chunks"
    and pc: "pcs s ! i = AwaitSemaphore"
    and prompt: "chunk_prompt a (chunks ! i) = Inl e"
  shows "conc_inv a chunks eff0 (s\<lparr>pcs := (pcs s)[i := Failed e],
        raised := (case raised s of None \<Rightarrow> Some e | Some e0 \<Rightarrow> Some e0)\<rparr>)"
proof -
  note hm = how_many_update[OF i(1)]
  let ?y = "Failed e"
  from inv pc i prompt hm[of holds_permit ?y] hm[of in_lock ?y]
      hm[of reported ?y] hm[of is_callback ?y] hm[of requested ?y] hm[of is_failed ?y]
  show ?thesis unfolding conc_inv_def
    by (auto intro!: list_all_update list_all_enumerate_update split: option.splits)
qed

lemma step_AwaitChunk:
  assumes inv: "conc_inv a chunks eff0 s" and i: "i < length (pcs s)" "i < length chunks"
    and pc: "pcs s ! i = AwaitChunk p"
  shows "conc_inv a chunks eff0 (s\<lparr>pcs := (pcs s)[i := AwaitLock (request_chunk a i p)]\<rparr>)"
proof -
  note hm = how_many_update[OF i(1)]
  let ?y = "AwaitLock (request_chunk a i p)"
  have "result_ok a chunks (i, pcs s ! i)"
    using inv i by (simp add: conc_inv_def list_all_length nth_enumerate_eq)
  with pc have "analyze_chunk a i (chunks ! i) = Inr (request_chunk a i p)"
    by (simp add: analyze_chunk_def)
  with inv pc i hm[of holds_permit ?y] hm[of in_lock ?y]
      hm[of reported ?y] hm[of is_callback ?y] hm[of requested ?y] hm[of is_failed ?y]
  show ?thesis unfolding conc_inv_def
    by (auto simp: send_def intro!: list_all_update list_all_enumerate_update)
qed

lemma step_AwaitLock:
  assumes inv: "conc_inv a chunks eff0 s" and i: "i < length (pcs s)" "i < length chunks"
    and pc: "pcs s ! i = AwaitLock r" and free: "\<not> lock_held s"
  shows "conc_inv a chunks eff0 (s\<lparr>pcs := (pcs s)[i := Increment r], lock_held := True\<rparr>)"
proof -
  note hm = how_many_update[OF i(1)]
  let ?y = "Increment r"
  have "result_ok a chunks (i, pcs s ! i)"
    using inv i by (simp add: conc_inv_def list_all_length nth_enumerate_eq)
  with inv pc free i hm[of holds_permit ?y] hm[of in_lock ?y]
      hm[of reported ?y] hm[of is_callback ?y] hm[of requested ?y] hm[of is_failed ?y]
  show ?thesis unfolding conc_inv_def
    by (auto simp: send_def intro!: list_all_update list_all_enumerate_update)
qed

lemma step_Increment:
  assumes inv: "conc_inv a chunks eff0 s" and i: "i < length (pcs s)" "i < length chunks"
    and pc: "pcs s ! i = Increment r"
  shows "conc_inv a chunks eff0 (s\<lparr>pcs := (pcs s)[i := Store r (processed_count s)]\<rparr>)"
proof -
  note hm = how_many_update[OF i(1)]
  let ?y = "Store r (processed_count s)"
  have "result_ok a chunks (i, pcs s ! i)"
    using inv i by (simp add: conc_inv_def list_all_length nth_enumerate_eq)
  with inv pc i hm[of holds_permit ?y] hm[of in_lock ?y]
      hm[of reported ?y] hm[of is_callback ?y] hm[of requested ?y] hm[of is_failed ?y]
  show ?thesis unfolding conc_inv_def
    by (auto simp: send_def intro!: list_all_update list_all_enumerate_update)
qed

lemma conc_inv_reads:
  "conc_inv a chunks eff0 s \<Longrightarrow> list_all (read_ok (processed_count s)) (pcs s)"
  unfolding conc_inv_def by blast

lemma conc_inv_results:
  "conc_inv a chunks eff0 s \<Longrightarrow> list_all (result_ok a chunks) (enumerate 0 (pcs s))"
  unfolding conc_inv_def by blast

lemma conc_inv_lock:
  "conc_inv a chunks eff0 s \<Longrightarrow> how_many in_lock (pcs s) = (if lock_held s then 1 else 0)"
  unfolding conc_inv_def by blast

lemma conc_inv_count:
  "conc_inv a chunks eff0 s \<Longrightarrow>
   processed_count s = how_many reported (pcs s) + how_many is_callback (pcs s)"
  unfolding conc_inv_def by blast

lemma how_many_pos: "i < length xs \<Longrightarrow> P (xs ! i) \<Longrightarrow> 0 < how_many P xs"
  by (auto simp: how_many_def filter_empty_conv)

lemma how_many_mono: "(\<And>x. P x \<Longrightarrow> Q x) \<Longrightarrow> how_many P xs \<le> how_many Q xs"
  unfolding how_many_def by (induction xs) auto

lemma lock_owner_unique:
  assumes inv: "conc_inv a chunks eff0 s" and i: "i < length (pcs s)" and own: "in_lock (pcs s ! i)"
    and j: "j < length (pcs s)" "j \<noteq> i"
  shows "\<not> in_lock (pcs s ! j)"
proof
  assume "in_lock (pcs s ! j)"
  moreover from inv have "how_many in_lock (pcs s) \<le> 1"
    by (simp add: conc_inv_def)
  ultimately have "i = j" using i own j(1) by (intro how_many_unique[of in_lock "pcs s"]) auto
  with j(2) show False by simp
qed

lemma step_Store:
  assumes inv: "conc_inv a chunks eff0 s" and i: "i < length (pcs s)" "i < length chunks"
    and pc: "pcs s ! i = Store r v"
  shows "conc_inv a chunks eff0 (s\<lparr>pcs := (pcs s)[i := Callback r], processed_count := v + 1\<rparr>)"
proof -
  note hm = how_many_update[OF i(1)]
  let ?y = "Callback r"
  have res: "result_ok a chunks (i, pcs s ! i)"
    using inv i by (simp add: conc_inv_def list_all_length nth_enumerate_eq)
  from conc_inv_reads[OF inv] i(1) have "read_ok (processed_count s) (pcs s ! i)"
    by (simp add: list_all_length)
  with pc have v: "v = processed_count s" by simp
  have others: "read_ok n (pcs s ! j)" if "j < length (pcs s)" "j \<noteq> i" for j n
  proof -
    from lock_owner_unique[OF inv i(1) _ that] pc have "\<not> in_lock (pcs s ! j)" by simp
    then show ?thesis by (cases "pcs s ! j") auto
  qed
  have reads: "list_all (read_ok n) ((pcs s)[i := Callback r])" for n
    using others i by (auto simp: list_all_length nth_list_update)
  from res inv pc i v hm[of holds_permit ?y] hm[of in_lock ?y]
      hm[of reported ?y] hm[of is_callback ?y] hm[of requested ?y] hm[of is_failed ?y] reads
  show ?thesis unfolding conc_inv_def
    by (auto intro!: list_all_enumerate_update)
qed

lemma progress_upto_Suc:
  "report_progress a total_chunks (Suc n) eff =
   eff\<lparr>progress_log := progress_log eff @
         (if reporting a then [(the (run_id a), total_chunks, Suc n)] else [])\<rparr>"
  by (auto simp: report_progress_def reporting_def split: option.splits)

lemma progress_upto_step:
  "progress_upto a total_chunks (Suc n) =
   progress_upto a total_chunks n @
     (if reporting a then [(the (run_id a), total_chunks, Suc n)] else [])"
  by (auto simp: progress_upto_def reporting_def split: option.splits)

lemma step_Callback:
  assumes inv: "conc_inv a chunks eff0 s" and i: "i < length (pcs s)" "i < length chunks"
    and pc: "pcs s ! i = Callback r"
  shows "conc_inv a chunks eff0 (s\<lparr>pcs := (pcs s)[i := ReleaseLock r],
           conc_eff := report_progress a (length chunks) (processed_count s) (conc_eff s)\<rparr>)"
proof -
  note hm = how_many_update[OF i(1)]
  let ?y = "ReleaseLock r"
  have res: "result_ok a chunks (i, pcs s ! i)"
    using inv i by (simp add: conc_inv_def list_all_length nth_enumerate_eq)
  have "how_many is_callback (pcs s) \<le> how_many in_lock (pcs s)"
    by (rule how_many_mono) (case_tac x, auto)
  moreover have "0 < how_many is_callback (pcs s)"
    using i pc by (intro how_many_pos[of i]) auto
  moreover have "how_many in_lock (pcs s) \<le> 1" using inv by (simp add: conc_inv_def)
  ultimately have cb: "how_many is_callback (pcs s) = 1" by linarith
  with inv have count: "processed_count s = Suc (how_many reported (pcs s))"
    by (simp add: conc_inv_def)
  from res inv pc i cb hm[of holds_permit ?y] hm[of in_lock ?y]
      hm[of reported ?y] hm[of is_callback ?y] hm[of requested ?y] hm[of is_failed ?y]
  show ?thesis unfolding conc_inv_def
    by (auto simp: count progress_upto_Suc progress_upto_step
        intro!: list_all_update list_all_enumerate_update)
qed

lemma step_ReleaseLock:
  assumes inv: "conc_inv a chunks eff0 s" and i: "i < length (pcs s)" "i < length chunks"
    and pc: "pcs s ! i = ReleaseLock r"
  shows "conc_inv a chunks eff0 (s\<lparr>pcs := (pcs s)[i := ReleaseSemaphore r], lock_held := False\<rparr>)"
proof -
  note hm = how_many_update[OF i(1)]
  let ?y = "ReleaseSemaphore r"
  have res: "result_ok a chunks (i, pcs s ! i)"
    using inv i by (simp add: conc_inv_def list_all_length nth_enumerate_eq)
  have "0 < how_many in_lock (pcs s)"
    using i pc by (intro how_many_pos[of i]) auto
  with inv have held: "lock_held s" "how_many in_lock (pcs s) = 1"
    by (auto simp: conc_inv_def split: if_splits)
  from res inv pc i held hm[of holds_permit ?y] hm[of in_lock ?y]
      hm[of reported ?y] hm[of is_callback ?y] hm[of requested ?y] hm[of is_failed ?y]
  show ?thesis unfolding conc_inv_def
    by (auto intro!: list_all_update list_all_enumerate_update)
qed

lemma step_ReleaseSemaphore:
  assumes inv: "conc_inv a chunks eff0 s" and i: "i < length (pcs s)" "i < length chunks"
    and pc: "pcs s ! i = ReleaseSemaphore r"
  shows "conc_inv a chunks eff0 (s\<lparr>pcs := (pcs s)[i := Finished r], semaphore := semaphore s + 1\<rparr>)"
proof -
  note hm = how_many_update[OF i(1)]
  let ?y = "Finished r"
  have res: "result_ok a chunks (i, pcs s ! i)"
    using inv i by (simp add: conc_inv_def list_all_length nth_enumerate_eq)
  from res inv pc i hm[of holds_permit ?y] hm[of in_lock ?y]
      hm[of reported ?y] hm[of is_callback ?y] hm[of requested ?y] hm[of is_failed ?y]
  show ?thesis unfolding conc_inv_def
    by (auto intro!: list_all_update list_all_enumerate_update)
qed

lemma task_step_inv:
  assumes inv: "conc_inv a chunks eff0 s" and step: "task_step a chunks s i = Some s'"
  shows "conc_inv a chunks eff0 s'"
proof -
  from step have i: "i < length (pcs s)" "i < length chunks"
    by (auto dest: task_step_bounds)
  show ?thesis
  proof (cases "pcs s ! i")
    case AwaitSemaphore
    show ?thesis
    proof (cases "chunk_prompt a (chunks ! i)")
      case (Inl e)
      with step i AwaitSemaphore step_Failed[OF inv i AwaitSemaphore Inl] show ?thesis
        by (auto simp: task_step_def split: if_splits)
    next
      case (Inr p)
      with step i AwaitSemaphore step_AwaitSemaphore[OF inv i AwaitSemaphore _ Inr] show ?thesis
        by (auto simp: task_step_def split: if_splits)
    qed
  next
    case (AwaitChunk p)
    with step i step_AwaitChunk[OF inv i AwaitChunk] show ?thesis
      by (auto simp: task_step_def)
  next
    case (AwaitLock r)
    with step i step_AwaitLock[OF inv i AwaitLock] show ?thesis
      by (auto simp: task_step_def split: if_splits)
  next
    case (Increment r)
    with step i step_Increment[OF inv i Increment] show ?thesis
      by (auto simp: task_step_def)
  next
    case (Store r v)
    with step i step_Store[OF inv i Store] show ?thesis
      by (auto simp: task_step_def)
  next
    case (Callback r)
    with step i step_Callback[OF inv i Callback] show ?thesis
      by (auto simp: task_step_def)
  next
    case (ReleaseLock r)
    with step i step_ReleaseLock[OF inv i ReleaseLock] show ?thesis
      by (auto simp: task_step_def)
  next
    case (ReleaseSemaphore r)
    with step i step_ReleaseSemaphore[OF inv i ReleaseSemaphore] show ?thesis
      by (auto simp: task_step_def)
  next
    case (Finished r)
    with step i show ?thesis by (auto simp: task_step_def)
  next
    case (Failed e)
    with step i show ?thesis by (auto simp: task_step_def)
  qed
qed

lemma run_schedule_inv:
  "conc_inv a chunks eff0 s \<Longrightarrow> conc_inv a chunks eff0 (run_schedule a chunks sched s)"
proof (induction sched arbitrary: s)
  case Nil
  then show ?case by simp
next
  case (Cons i sched)
  then show ?case
    by (cases "task_step a chunks s i") (auto intro: task_step_inv)
qed

lemma first_enabled_Some:
  "first_enabled a chunks s = Some s' \<Longrightarrow> \<exists>i. task_step a chunks s i = Some s'"
  by (auto simp: first_enabled_def split: option.splits if_splits)

lemma first_enabled_None:
  "first_enabled a chunks s = None \<Longrightarrow> raised s = None \<Longrightarrow> i < length (pcs s) \<Longrightarrow>
   task_step a chunks s i = None"
  by (auto simp: first_enabled_def find_None_iff split: option.splits if_splits
      dest: find_Some_iff[THEN iffD1])

lemma drain_inv:
  "conc_inv a chunks eff0 s \<Longrightarrow> conc_inv a chunks eff0 (drain a chunks s)"
proof (induction a chunks s rule: drain.induct)
  case (1 a chunks s)
  show ?case
  proof (cases "first_enabled a chunks s")
    case None
    with 1 show ?thesis by simp
  next
    case (Some s')
    then obtain i where "task_step a chunks s i = Some s'"
      by (auto dest: first_enabled_Some)
    with "1.prems" have "conc_inv a chunks eff0 s'" by (rule task_step_inv)
    with 1 Some show ?thesis by simp
  qed
qed

lemma drain_stuck: "first_enabled a chunks (drain a chunks s) = None"
proof (induction a chunks s rule: drain.induct)
  case (1 a chunks s)
  then show ?case by (cases "first_enabled a chunks s") auto
qed

lemma how_many_zero: "how_many P xs = 0 \<longleftrightarrow> (\<forall>i<length xs. \<not> P (xs ! i))"
  unfolding how_many_def length_0_conv filter_empty_conv
  by (metis in_set_conv_nth)

lemma conc_inv_failed:
  "conc_inv a chunks eff0 s \<Longrightarrow> (raised s = None) = (how_many is_failed (pcs s) = 0)"
  unfolding conc_inv_def by blast

lemma no_deadlock:
  assumes inv: "conc_inv a chunks eff0 s" and pos: "0 < concurrency a"
    and stuck: "\<And>i. i < length (pcs s) \<Longrightarrow> task_step a chunks s i = None"
    and none: "raised s = None"
    and i: "i < length (pcs s)"
  shows "\<exists>r. pcs s ! i = Finished r"
proof -
  from inv have len: "length (pcs s) = length chunks" by (simp add: conc_inv_def)
  from conc_inv_failed[OF inv] none have "how_many is_failed (pcs s) = 0" by simp
  then have nofail: "\<not> is_failed (pcs s ! j)" if "j < length (pcs s)" for j
    using that by (simp add: how_many_zero)
  have shape: "pcs s ! j = AwaitSemaphore \<and> semaphore s = 0 \<or>
      (\<exists>r. pcs s ! j = AwaitLock r) \<and> lock_held s \<or> (\<exists>r. pcs s ! j = Finished r)"
    if "j < length (pcs s)" for j
    using stuck[OF that] that len nofail[OF that]
    by (cases "pcs s ! j") (auto simp: task_step_def split: if_splits sum.splits)
  have "how_many in_lock (pcs s) = 0"
    unfolding how_many_zero using shape by fastforce
  with conc_inv_lock[OF inv] have free: "\<not> lock_held s" by (simp split: if_splits)
  with shape have shape2: "pcs s ! j = AwaitSemaphore \<and> semaphore s = 0 \<or> (\<exists>r. pcs s ! j = Finished r)"
    if "j < length (pcs s)" for j using that by blast
  have "how_many holds_permit (pcs s) = 0"
    unfolding how_many_zero using shape2 by fastforce
  with inv pos have "0 < semaphore s" by (simp add: conc_inv_def)
  with shape2[OF i] show ?thesis by simp
qed

lemma how_many_all: "(\<And>i. i < length xs \<Longrightarrow> P (xs ! i)) \<Longrightarrow> how_many P xs = length xs"
proof -
  assume "\<And>i. i < length xs \<Longrightarrow> P (xs ! i)"
  then have "filter P xs = xs" by (auto simp: filter_id_conv in_set_conv_nth)
  then show ?thesis by (simp add: how_many_def)
qed

lemma gather_finished:
  assumes "\<And>i. i < length ps \<Longrightarrow> ps ! i = Finished (f i)"
  shows "gather ps = Some (map f [0..<length ps])"
  using assms
proof (induction ps arbitrary: f)
  case Nil
  then show ?case by simp
next
  case (Cons p ps)
  from Cons.prems[of 0] have p: "p = Finished (f 0)" by simp
  have "gather ps = Some (map (f \<circ> Suc) [0..<length ps])"
    by (rule Cons.IH) (use Cons.prems[of "Suc i" for i] in auto)
  with p show ?case
    by (simp add: upt_conv_Cons map_Suc_upt[symmetric] del: upt_Suc)
qed

text \<open>A state in which no exception is recorded and no task can take a step.\<close>

lemma concurrent_final:
  assumes pos: "0 < concurrency a" and inv: "conc_inv a chunks eff0 s"
    and stuck: "first_enabled a chunks s = None" and none: "raised s = None"
  shows "gather (pcs s) = Some (chunk_analyses a chunks) \<and>
     how_many reported (pcs s) = length chunks \<and> how_many is_callback (pcs s) = 0 \<and>
     how_many requested (pcs s) = length chunks"
proof -
  from inv have len: "length (pcs s) = length chunks" by (simp add: conc_inv_def)
  from stuck none have stuck: "task_step a chunks s i = None" if "i < length (pcs s)" for i
    using that by (rule first_enabled_None)
  have fin: "pcs s ! i = Finished (request_chunk a i (projr (chunk_prompt a (chunks ! i))))"
    if "i < length (pcs s)" for i
  proof -
    from no_deadlock[OF inv pos stuck none that] obtain r where r: "pcs s ! i = Finished r"
      by blast
    from conc_inv_results[OF inv] that have "result_ok a chunks (i, pcs s ! i)"
      by (simp add: list_all_length nth_enumerate_eq)
    with r show ?thesis by (auto simp: analyze_chunk_def split: sum.splits)
  qed
  then have g: "gather (pcs s) = Some (chunk_analyses a chunks)"
    unfolding chunk_analyses_def len[symmetric] by (rule gather_finished)
  have "how_many reported (pcs s) = length (pcs s)"
    by (rule how_many_all) (simp add: fin)
  moreover have "how_many requested (pcs s) = length (pcs s)"
    by (rule how_many_all) (simp add: fin)
  moreover have "how_many is_callback (pcs s) = 0"
    unfolding how_many_zero by (simp add: fin)
  ultimately show ?thesis using g len by simp
qed

text \<open>When every chunk has a prompt, no task ends with an exception.\<close>

lemma prompts_built_none:
  assumes built: "prompts_built a chunks" and inv: "conc_inv a chunks eff0 s"
  shows "raised s = None"
proof -
  from inv have len: "length (pcs s) = length chunks" by (simp add: conc_inv_def)
  have "\<not> is_failed (pcs s ! i)" if "i < length (pcs s)" for i
  proof
    assume "is_failed (pcs s ! i)"
    then obtain e where e: "pcs s ! i = Failed e" by (cases "pcs s ! i") auto
    from conc_inv_results[OF inv] that have "result_ok a chunks (i, pcs s ! i)"
      by (simp add: list_all_length nth_enumerate_eq)
    with e have "chunk_prompt a (chunks ! i) = Inl e" by simp
    moreover from built that len have "\<not> isl (chunk_prompt a (chunks ! i))"
      by (simp add: prompts_built_def list_all_length)
    ultimately show False by simp
  qed
  then have "how_many is_failed (pcs s) = 0" by (simp add: how_many_zero)
  with conc_inv_failed[OF inv] show ?thesis by simp
qed

lemma analyze_concurrent_returns:
  assumes pos: "0 < concurrency a" and built: "prompts_built a chunks"
  shows "\<exists>eff reqs. analyze_concurrent a chunks sched eff0 = (Returns (chunk_analyses a chunks), eff) \<and>
     progress_log eff = progress_log eff0 @ progress_upto a (length chunks) (length chunks) \<and>
     llm_log eff = llm_log eff0 @ reqs \<and> list_all is_chunk_request reqs \<and>
     length reqs = length chunks"
proof -
  define s where "s = drain a chunks (run_schedule a chunks sched (conc_init a chunks eff0))"
  have inv: "conc_inv a chunks eff0 s"
    unfolding s_def using pos by (intro drain_inv run_schedule_inv conc_init_inv) simp
  have none: "raised s = None" using built inv by (rule prompts_built_none)
  have "first_enabled a chunks s = None" unfolding s_def by (rule drain_stuck)
  from concurrent_final[OF pos inv this none] show ?thesis
    using inv pos none unfolding analyze_concurrent_def s_def[symmetric] conc_inv_def
    by (auto simp: Let_def)
qed

text \<open>
  When a chunk has no prompt, the call does not return the analyses: it raises, unless
  it never ends.
\<close>

lemma analyze_concurrent_format_raises:
  assumes pos: "0 < concurrency a" and i: "i < length chunks"
    and fails: "chunk_prompt a (chunks ! i) = Inl e"
  shows "\<exists>e' eff. analyze_concurrent a chunks sched eff0 = (Raises e', eff)"
proof -
  define s where "s = drain a chunks (run_schedule a chunks sched (conc_init a chunks eff0))"
  have inv: "conc_inv a chunks eff0 s"
    unfolding s_def using pos by (intro drain_inv run_schedule_inv conc_init_inv) simp
  then have len: "length (pcs s) = length chunks" by (simp add: conc_inv_def)
  have stuck: "first_enabled a chunks s = None" unfolding s_def by (rule drain_stuck)
  have "raised s \<noteq> None"
  proof
    assume none: "raised s = None"
    from stuck none have st: "task_step a chunks s j = None" if "j < length (pcs s)" for j
      using that by (rule first_enabled_None)
    from i len have i': "i < length (pcs s)" by simp
    from no_deadlock[OF inv pos st none i'] obtain r where r: "pcs s ! i = Finished r" by blast
    from conc_inv_results[OF inv] i' have "result_ok a chunks (i, pcs s ! i)"
      by (simp add: list_all_length nth_enumerate_eq)
    with r fails show False by (simp add: analyze_chunk_def)
  qed
  then obtain e' where "raised s = Some e'" by auto
  then show ?thesis
    using pos unfolding analyze_concurrent_def s_def[symmetric] by (simp add: Let_def)
qed


subsection \<open>The analysis as a whole\<close>

text \<open>\<open>str(n)\<close> for a natural number.\<close>

fun decimal :: "nat \<Rightarrow> pystr" where
  "decimal n = (if n < 10 then [48 + n] else decimal (n div 10) @ [48 + n mod 10])"

declare decimal.simps [simp del]


text \<open>
  The argument of \<open>analyze\<close>: a string, an iterable (its items are strings, or objects
  of another type, which \<open>join\<close> refuses with a \<open>TypeError\<close>), or another object, of
  which \<open>str(data)\<close> is kept.
\<close>

datatype item = StrItem pystr | OtherItem string

datatype data = Str pystr | Iterable "item list" | Object pystr

fun join_items :: "nat \<Rightarrow> item list \<Rightarrow> exn + pystr list" where
  "join_items i [] = Inr []"
| "join_items i (StrItem s # items) =
     (case join_items (i + 1) items of Inl e \<Rightarrow> Inl e | Inr ss \<Rightarrow> Inr (s # ss))"
| "join_items i (OtherItem t # items) =
     Inl (Exn ''TypeError''
            (ascii ''sequence item '' @ decimal i @ ascii '': expected str instance, '' @
             ascii t @ ascii '' found''))"

definition log_data_of :: "data \<Rightarrow> exn + pystr" where
  "log_data_of d =
     (case d of
        Str s \<Rightarrow> Inr s
      | Iterable items \<Rightarrow>
          (case join_items 0 items of Inl e \<Rightarrow> Inl e | Inr ss \<Rightarrow> Inr (join [NL] ss))
      | Object s \<Rightarrow> Inr s)"


text \<open>The branch on \<open>self.mode\<close>.\<close>

definition per_chunk_analyses ::
  "analyzer \<Rightarrow> nat list \<Rightarrow> pystr list \<Rightarrow> effects \<Rightarrow> pystr list outcome \<times> effects" where
  "per_chunk_analyses a sched chunks eff =
     (if mode a = ascii ''concurrent'' then analyze_concurrent a chunks sched eff
      else analyze_sequential a chunks eff)"


text \<open>
  \<open>_analyze_async\<close>. The effects are those of this call. \<open>analyze\<close> runs it on an event
  loop of its own (with \<open>asyncio.run\<close>, or on a fresh loop in a thread when a loop is
  already running) and returns what it returns.
\<close>

definition analyze_async :: "analyzer \<Rightarrow> nat list \<Rightarrow> data \<Rightarrow> pystr outcome \<times> effects" where
  "analyze_async a sched d =
     (case log_data_of d of
        Inl e \<Rightarrow> (Raises e, no_effects)
      | Inr log_data \<Rightarrow>
          if strip log_data = [] then (Returns no_error_logs, no_effects)
          else
            (case chunk_logs (chunk_size a) log_data of
               Inl e \<Rightarrow> (Raises e, no_effects)
             | Inr chunks \<Rightarrow>
                 (let total_chunks = length chunks;
                      eff0 = report_progress a total_chunks 0 no_effects
                  in (case per_chunk_analyses a sched chunks eff0 of
                        (Raises e, eff1) \<Rightarrow> (Raises e, eff1)
                      | (Hangs, eff1) \<Rightarrow> (Hangs, eff1)
                      | (Returns analyses, eff1) \<Rightarrow>
                          (let eff2 = report_progress a total_chunks total_chunks eff1;
                               valid = valid_analyses analyses
                           in if valid = []
                              then (Returns no_errors_report, eff2)
                              else (case summarize a total_chunks valid eff2 of
                                      (Inl e, eff3) \<Rightarrow> (Raises e, eff3)
                                    | (Inr summary, eff3) \<Rightarrow> (Returns summary, eff3)))))))"

definition analyze :: "analyzer \<Rightarrow> nat list \<Rightarrow> data \<Rightarrow> pystr outcome \<times> effects" where
  "analyze a sched d = analyze_async a sched d"


text \<open>What the filter drops, as one predicate.\<close>

definition is_noise :: "pystr \<Rightarrow> bool" where
  "is_noise a \<longleftrightarrow>
     a = [] \<or> strip a = none_marker \<or> contains a no_errors_found_any \<or>
     contains a no_errors_found \<or> contains a without_errors \<or> length (strip a) < 50"


text \<open>The third argument of each call of the callback.\<close>

definition counts_reported :: "effects \<Rightarrow> nat list" where
  "counts_reported eff = map (\<lambda>(r, n, k). k) (progress_log eff)"


text \<open>An analyzer and a finding of 68 characters, for the examples.\<close>

definition example_finding :: pystr where
  "example_finding =
     ascii ''ERROR db: connection refused at 10:00:01, retried 3 times (code 111)''"

definition example_analyzer :: analyzer where
  "example_analyzer =
     \<lparr>mode = ascii ''sequential'', concurrency = 3, chunk_size = 5000,
      progress_callback = True, run_id = Some 1,
      chunk_prompt = (\<lambda>chunk. Inr chunk), summary_prompt = (\<lambda>analyses. Inr analyses),
      client = (\<lambda>i prompt. Inr [Some example_finding])\<rparr>"


subsection \<open>The filter\<close>

lemma filter_loop_filter:
  "filter_loop analyses valid = valid @ filter (\<lambda>a. \<not> is_noise a) analyses"
  by (induction analyses arbitrary: valid) (auto simp: is_noise_def)


text \<open>
  Claim C7. The filter of \<open>_analyze_async\<close> drops an analysis that is empty, is the
  marker \<open><NONE>\<close> once stripped, contains one of the three phrases for "no error", or
  is shorter than 50 characters once stripped. Filtering what the filter kept keeps all
  of it.
\<close>

theorem filter_idempotent:
  "valid_analyses (valid_analyses analyses) = valid_analyses analyses"
  by (simp add: valid_analyses_def filter_loop_filter)


subsection \<open>The empty input\<close>

text \<open>
  Claim C10. When the text of the input is empty or only whitespace, \<open>analyze\<close> returns
  the fixed string of the source, no request is sent and the callback is not called.
  (Chunking has no effect to observe: the chunker is not reached.)
\<close>

theorem empty_input_shortcut:
  assumes "log_data_of d = Inr log_data" and "strip log_data = []"
  shows "analyze a sched d = (Returns no_error_logs, no_effects)"
  using assms by (simp add: analyze_def analyze_async_def)

theorem empty_input_shortcut_witness:
  "analyze example_analyzer [] (Str [32, 10, 9]) = (Returns no_error_logs, no_effects)"
  by (rule empty_input_shortcut[of _ "[32, 10, 9]"])
     (simp_all add: log_data_of_def strip_def is_space_def)


subsection \<open>The sequential analysis\<close>

lemma sequential_loop_analyses:
  "analyze_sequential_loop a n i chunks analyses eff = (Returns rs, eff') \<Longrightarrow>
   rs = analyses @ map (\<lambda>(k, c). request_chunk a k (projr (chunk_prompt a c))) (enumerate i chunks)"
proof (induction chunks arbitrary: i analyses eff)
  case Nil
  then show ?case by simp
next
  case (Cons chunk chunks)
  from Cons.prems obtain p where p: "chunk_prompt a chunk = Inr p"
    by (cases "chunk_prompt a chunk") auto
  with Cons.prems have run: "analyze_sequential_loop a n (Suc i) chunks
      (analyses @ [request_chunk a i p])
      (report_progress a n (Suc i) (send (ChunkRequest i p) eff)) = (Returns rs, eff')"
    by (simp add: Let_def)
  from Cons.IH[OF run] p show ?case by simp
qed

lemma report_progress_llm_log [simp]:
  "llm_log (report_progress a n k eff) = llm_log eff"
  by (simp add: report_progress_def split: option.splits)

lemma report_progress_progress_log:
  "progress_log (report_progress a n k eff) =
   progress_log eff @ (if reporting a then [(the (run_id a), n, k)] else [])"
  by (auto simp: report_progress_def reporting_def split: option.splits)

lemma send_logs [simp]:
  "llm_log (send r eff) = llm_log eff @ [r]" "progress_log (send r eff) = progress_log eff"
  by (simp_all add: send_def)

lemma sequential_loop_llm_log:
  "analyze_sequential_loop a n i chunks analyses eff = (Returns rs, eff') \<Longrightarrow>
   llm_log eff' =
   llm_log eff @ map (\<lambda>(k, c). ChunkRequest k (projr (chunk_prompt a c))) (enumerate i chunks)"
proof (induction chunks arbitrary: i analyses eff)
  case Nil
  then show ?case by simp
next
  case (Cons chunk chunks)
  from Cons.prems obtain p where p: "chunk_prompt a chunk = Inr p"
    by (cases "chunk_prompt a chunk") auto
  with Cons.prems have run: "analyze_sequential_loop a n (Suc i) chunks
      (analyses @ [request_chunk a i p])
      (report_progress a n (Suc i) (send (ChunkRequest i p) eff)) = (Returns rs, eff')"
    by (simp add: Let_def)
  from Cons.IH[OF run] p show ?case by simp
qed

lemma sequential_loop_progress_log:
  "analyze_sequential_loop a n i chunks analyses eff = (Returns rs, eff') \<Longrightarrow>
   progress_log eff' =
   progress_log eff @
     (if reporting a then map (\<lambda>k. (the (run_id a), n, k)) [Suc i..<Suc i + length chunks] else [])"
proof (induction chunks arbitrary: i analyses eff)
  case Nil
  then show ?case by simp
next
  case (Cons chunk chunks)
  have upt: "[Suc i..<Suc i + length (chunk # chunks)] =
      Suc i # [Suc (Suc i)..<Suc (Suc i) + length chunks]"
    by (simp add: upt_conv_Cons del: upt_Suc)
  from Cons.prems obtain p where p: "chunk_prompt a chunk = Inr p"
    by (cases "chunk_prompt a chunk") auto
  with Cons.prems have run: "analyze_sequential_loop a n (Suc i) chunks
      (analyses @ [request_chunk a i p])
      (report_progress a n (Suc i) (send (ChunkRequest i p) eff)) = (Returns rs, eff')"
    by (simp add: Let_def)
  from Cons.IH[OF run] upt show ?case
    by (simp add: report_progress_progress_log del: upt_Suc)
qed

lemma sequential_loop_built:
  "list_all (\<lambda>chunk. \<not> isl (chunk_prompt a chunk)) chunks \<Longrightarrow>
   \<exists>rs eff'. analyze_sequential_loop a n i chunks analyses eff = (Returns rs, eff')"
  by (induction chunks arbitrary: i analyses eff) (auto simp: Let_def split: sum.splits)

lemma map_enumerate_nth:
  "map (\<lambda>(k, c). f k c) (enumerate 0 xs) = map (\<lambda>k. f k (xs ! k)) [0..<length xs]"
  by (rule nth_equalityI) (simp_all add: nth_enumerate_eq)

lemma analyze_sequential_analyses:
  "analyze_sequential a chunks eff = (Returns rs, eff') \<Longrightarrow> rs = chunk_analyses a chunks"
  unfolding analyze_sequential_def
  by (drule sequential_loop_analyses) (simp add: chunk_analyses_def map_enumerate_nth)

lemma progress_upto_eq:
  "progress_upto a n m = (if reporting a then map (\<lambda>k. (the (run_id a), n, k)) [1..<Suc m] else [])"
  by (auto simp: progress_upto_def reporting_def split: option.splits)

lemma analyze_sequential_progress:
  "analyze_sequential a chunks eff = (Returns rs, eff') \<Longrightarrow>
   progress_log eff' = progress_log eff @ progress_upto a (length chunks) (length chunks)"
  unfolding analyze_sequential_def
  by (drule sequential_loop_progress_log) (simp add: progress_upto_eq)

lemma analyze_sequential_requests:
  "analyze_sequential a chunks eff = (Returns rs, eff') \<Longrightarrow>
   \<exists>reqs. llm_log eff' = llm_log eff @ reqs \<and>
     list_all is_chunk_request reqs \<and> length reqs = length chunks"
  unfolding analyze_sequential_def
  by (drule sequential_loop_llm_log) (auto simp: list_all_length nth_enumerate_eq)


subsection \<open>No slot, or a negative number of slots\<close>

lemma task_step_no_slot:
  "concurrency a \<le> 0 \<Longrightarrow> task_step a chunks (conc_init a chunks eff) i = None"
  by (simp add: task_step_def conc_init_def)

lemma run_schedule_stuck:
  "(\<And>i. task_step a chunks s i = None) \<Longrightarrow> run_schedule a chunks sched s = s"
  by (induction sched) simp_all

lemma drain_stuck_id:
  "(\<And>i. task_step a chunks s i = None) \<Longrightarrow> drain a chunks s = s"
proof -
  assume stuck: "\<And>i. task_step a chunks s i = None"
  have "List.find (\<lambda>i. task_step a chunks s i \<noteq> None) [0..<length (pcs s)] = None"
    by (simp add: find_None_iff stuck)
  then have "first_enabled a chunks s = None" by (simp add: first_enabled_def)
  then show ?thesis by (subst drain.simps) simp
qed

lemma gather_waiting: "gather (replicate n AwaitSemaphore) = (if n = 0 then Some [] else None)"
  by (cases n) simp_all

lemma analyze_concurrent_no_slot:
  assumes "concurrency a = 0"
  shows "analyze_concurrent a chunks sched eff =
     (if chunks = [] then Returns [] else Hangs, eff)"
proof -
  have stuck: "task_step a chunks (conc_init a chunks eff) i = None" for i
    using assms by (simp add: task_step_no_slot)
  have r: "run_schedule a chunks sched (conc_init a chunks eff) = conc_init a chunks eff"
    by (rule run_schedule_stuck) (rule stuck)
  have d: "drain a chunks (conc_init a chunks eff) = conc_init a chunks eff"
    by (rule drain_stuck_id) (rule stuck)
  have "drain a chunks (run_schedule a chunks sched (conc_init a chunks eff)) = conc_init a chunks eff"
    unfolding r d ..
  then show ?thesis
    unfolding analyze_concurrent_def using assms
    by (simp add: conc_init_def gather_waiting del: drain.simps)
qed

lemma analyze_concurrent_negative:
  "concurrency a < 0 \<Longrightarrow>
   analyze_concurrent a chunks sched eff =
     (Raises (Exn ''ValueError'' (ascii ''Semaphore initial value must be >= 0'')), eff)"
  by (simp add: analyze_concurrent_def)

lemma per_chunk_analyses_returns:
  assumes "per_chunk_analyses a sched chunks eff0 = (Returns analyses, eff)"
  shows "analyses = chunk_analyses a chunks \<and>
     progress_log eff = progress_log eff0 @ progress_upto a (length chunks) (length chunks) \<and>
     (\<exists>reqs. llm_log eff = llm_log eff0 @ reqs \<and> list_all is_chunk_request reqs \<and>
        length reqs = length chunks)"
proof (cases "mode a = ascii ''concurrent''")
  case False
  with assms have eq: "analyze_sequential a chunks eff0 = (Returns analyses, eff)"
    by (simp add: per_chunk_analyses_def)
  from analyze_sequential_analyses[OF eq] analyze_sequential_progress[OF eq]
    analyze_sequential_requests[OF eq]
  show ?thesis by simp
next
  case True
  with assms have run: "analyze_concurrent a chunks sched eff0 = (Returns analyses, eff)"
    by (simp add: per_chunk_analyses_def)
  show ?thesis
  proof (cases "0 < concurrency a")
    case True
    define s where "s = drain a chunks (run_schedule a chunks sched (conc_init a chunks eff0))"
    have inv: "conc_inv a chunks eff0 s"
      unfolding s_def using True by (intro drain_inv run_schedule_inv conc_init_inv) simp
    have stuck: "first_enabled a chunks s = None" unfolding s_def by (rule drain_stuck)
    from run True have none: "raised s = None"
      unfolding analyze_concurrent_def s_def[symmetric]
      by (auto simp: Let_def split: option.splits)
    from concurrent_final[OF True inv stuck none] run True none inv show ?thesis
      unfolding analyze_concurrent_def s_def[symmetric] conc_inv_def
      by (auto simp: Let_def)
  next
    case False
    show ?thesis
    proof (cases "concurrency a = 0")
      case True
      with run show ?thesis
        by (auto simp: analyze_concurrent_no_slot chunk_analyses_def progress_upto_def
            split: if_splits option.splits)
    next
      case neg: False
      with False run show ?thesis by (simp add: analyze_concurrent_negative)
    qed
  qed
qed

lemma counts_progress_upto:
  "map (\<lambda>(r, n, k). k) (progress_upto a n m) = (if reporting a then [1..<Suc m] else [])"
  by (simp add: progress_upto_eq comp_def del: upt_Suc)


subsection \<open>The progress of the concurrent analysis\<close>

text \<open>
  Claim C3, as the code has it. With at least one slot in the semaphore, whatever the
  order in which the tasks take their steps: at every moment the counter is the number
  of tasks that have stored their increment, at most one task is between its increment
  and its call of the callback, and the callback has been called with 1, 2, ... up to
  the number of tasks past it; the analysis returns the analyses in the order of the
  chunks, the counter is then the number of chunks \<open>N\<close> and the counts reported are
  1, 2, ..., \<open>N\<close> (none when no callback or no run id is set). The prompt of every
  chunk must have been built: when \<open>format\<close> raises for a chunk, the call raises.
\<close>

theorem concurrent_progress_exact:
  assumes "0 < concurrency a" and "prompts_built a chunks"
  shows "(let s = run_schedule a chunks sched (conc_init a chunks no_effects)
          in processed_count s = how_many reported (pcs s) + how_many is_callback (pcs s) \<and>
             how_many is_callback (pcs s) \<le> 1 \<and>
             counts_reported (conc_eff s) =
               (if reporting a then [1..<Suc (how_many reported (pcs s))] else [])) \<and>
         (let s = drain a chunks (run_schedule a chunks sched (conc_init a chunks no_effects))
          in processed_count s = length chunks \<and>
             analyze_concurrent a chunks sched no_effects =
               (Returns (chunk_analyses a chunks), conc_eff s) \<and>
             counts_reported (conc_eff s) =
               (if reporting a then [1..<Suc (length chunks)] else []))"
proof -
  define s where "s = run_schedule a chunks sched (conc_init a chunks no_effects)"
  define t where "t = drain a chunks s"
  note pos = assms(1) and built = assms(2)
  have inv: "conc_inv a chunks no_effects s"
    unfolding s_def using pos by (intro run_schedule_inv conc_init_inv) simp
  then have invt: "conc_inv a chunks no_effects t"
    unfolding t_def by (rule drain_inv)
  have none: "raised t = None" using built invt by (rule prompts_built_none)
  have cb: "how_many is_callback (pcs s) \<le> 1"
  proof -
    have "how_many is_callback (pcs s) \<le> how_many in_lock (pcs s)"
      by (rule how_many_mono) (case_tac x, auto)
    with conc_inv_lock[OF inv] show ?thesis by (simp split: if_splits)
  qed
  have log: "progress_log (conc_eff s) =
      progress_upto a (length chunks) (how_many reported (pcs s))"
    using inv by (simp add: conc_inv_def no_effects_def)
  have first: "processed_count s = how_many reported (pcs s) + how_many is_callback (pcs s) \<and>
      how_many is_callback (pcs s) \<le> 1 \<and>
      counts_reported (conc_eff s) =
        (if reporting a then [1..<Suc (how_many reported (pcs s))] else [])"
    using conc_inv_count[OF inv] cb
    by (simp add: counts_reported_def log counts_progress_upto del: upt_Suc)
  have "first_enabled a chunks t = None" unfolding t_def by (rule drain_stuck)
  from concurrent_final[OF pos invt this none]
  have rep: "how_many reported (pcs t) = length chunks"
    and "how_many is_callback (pcs t) = 0"
    by simp_all
  with conc_inv_count[OF invt] have count: "processed_count t = length chunks" by simp
  have logt: "progress_log (conc_eff t) = progress_upto a (length chunks) (length chunks)"
    using invt rep by (simp add: conc_inv_def no_effects_def)
  have "snd (analyze_concurrent a chunks sched no_effects) = conc_eff t"
    unfolding analyze_concurrent_def Let_def t_def s_def using pos
    by (simp split: option.splits del: drain.simps)
  moreover from analyze_concurrent_returns[OF pos built, of sched no_effects]
  have "fst (analyze_concurrent a chunks sched no_effects) = Returns (chunk_analyses a chunks)"
    by auto
  ultimately have ret: "analyze_concurrent a chunks sched no_effects =
      (Returns (chunk_analyses a chunks), conc_eff t)"
    by (simp add: prod_eq_iff)
  have second: "processed_count t = length chunks \<and>
      analyze_concurrent a chunks sched no_effects = (Returns (chunk_analyses a chunks), conc_eff t) \<and>
      counts_reported (conc_eff t) = (if reporting a then [1..<Suc (length chunks)] else [])"
    using count ret by (simp add: counts_reported_def logt counts_progress_upto del: upt_Suc)
  from first second show ?thesis
    unfolding Let_def s_def[symmetric] t_def[symmetric] by blast
qed

theorem concurrent_progress_exact_witness:
  "0 < concurrency (example_analyzer\<lparr>mode := ascii ''concurrent''\<rparr>) \<and>
   prompts_built (example_analyzer\<lparr>mode := ascii ''concurrent''\<rparr>) [[97], [98]] \<and>
   (let s = drain (example_analyzer\<lparr>mode := ascii ''concurrent''\<rparr>) [[97], [98]]
              (run_schedule (example_analyzer\<lparr>mode := ascii ''concurrent''\<rparr>) [[97], [98]]
                 [1, 0, 1]
                 (conc_init (example_analyzer\<lparr>mode := ascii ''concurrent''\<rparr>) [[97], [98]]
                    no_effects))
    in processed_count s = length [[97::nat], [98]] \<and>
       counts_reported (conc_eff s) = [1, 2])"
proof -
  let ?a = "example_analyzer\<lparr>mode := ascii ''concurrent''\<rparr>"
  have pos: "0 < concurrency ?a" by (simp add: example_analyzer_def)
  have rep: "reporting ?a" by (simp add: reporting_def example_analyzer_def)
  have built: "prompts_built ?a [[97], [98]]"
    by (simp add: prompts_built_def example_analyzer_def)
  from concurrent_progress_exact[OF pos built, of "[1, 0, 1]"] pos rep built
  show ?thesis by (simp add: Let_def del: drain.simps)
qed


text \<open>
  With \<open>concurrency = 0\<close> the semaphore never admits a task: for two chunks the call
  never returns and the callback is never called, so the count never reaches 2.
\<close>

theorem concurrent_zero_slots_counterexample:
  "analyze_concurrent (example_analyzer\<lparr>mode := ascii ''concurrent'', concurrency := 0\<rparr>)
     [[97], [98]] [0, 1, 0, 1] no_effects = (Hangs, no_effects) \<and>
   counts_reported no_effects = []"
  by (simp add: analyze_concurrent_no_slot counts_reported_def no_effects_def)


subsection \<open>One surviving analysis\<close>

text \<open>
  Claim C4. When the analysis of the chunks returns and exactly one of the analyses
  passes the filter, \<open>analyze\<close> returns that analysis unchanged, and every request sent
  is a request for a chunk, one per chunk: no request for a summary.
\<close>

theorem single_survivor_shortcut:
  assumes "log_data_of d = Inr log_data" and "strip log_data \<noteq> []"
    and "chunk_logs (chunk_size a) log_data = Inr chunks"
    and "fst (per_chunk_analyses a sched chunks (report_progress a (length chunks) 0 no_effects)) =
           Returns analyses"
    and "valid_analyses analyses = [survivor]"
  shows "\<exists>eff. analyze a sched d = (Returns survivor, eff) \<and>
           list_all is_chunk_request (llm_log eff) \<and> length (llm_log eff) = length chunks"
proof -
  let ?eff0 = "report_progress a (length chunks) 0 no_effects"
  obtain eff1 where run: "per_chunk_analyses a sched chunks ?eff0 = (Returns analyses, eff1)"
    using assms(4) by (cases "per_chunk_analyses a sched chunks ?eff0") auto
  from per_chunk_analyses_returns[OF run]
  obtain reqs where reqs: "llm_log eff1 = llm_log ?eff0 @ reqs" "list_all is_chunk_request reqs"
      "length reqs = length chunks"
    by blast
  let ?eff2 = "report_progress a (length chunks) (length chunks) eff1"
  have "analyze a sched d = (Returns survivor, ?eff2)"
    using assms(1,2,3,5) run
    by (simp add: analyze_def analyze_async_def Let_def summarize_def)
  moreover have "llm_log ?eff2 = reqs"
    using reqs(1) by (simp add: no_effects_def)
  ultimately show ?thesis using reqs(2,3) by simp
qed

lemma example_finding_valid: "valid_analyses [example_finding] = [example_finding]"
  by (simp add: valid_analyses_def example_finding_def ascii_def strip_def is_space_def
      none_marker_def no_errors_found_any_def no_errors_found_def without_errors_def)

theorem single_survivor_shortcut_witness:
  "\<exists>eff. analyze example_analyzer [] (Str (ascii ''boom'')) = (Returns example_finding, eff) \<and>
     list_all is_chunk_request (llm_log eff) \<and> length (llm_log eff) = length [ascii ''boom'']"
proof (rule single_survivor_shortcut)
  show "log_data_of (Str (ascii ''boom'')) = Inr (ascii ''boom'')"
    by (simp add: log_data_of_def)
  show "strip (ascii ''boom'') \<noteq> []"
    by (simp add: strip_def ascii_def is_space_def)
  show "chunk_logs (chunk_size example_analyzer) (ascii ''boom'') = Inr [ascii ''boom'']"
    by (simp add: chunk_logs_def example_analyzer_def ascii_def NL_def encode_utf8_def
        encodable_def is_surrogate_def utf8_cp_def)
  show "fst (per_chunk_analyses example_analyzer [] [ascii ''boom'']
          (report_progress example_analyzer (length [ascii ''boom'']) 0 no_effects)) =
        Returns [example_finding]"
    by (simp add: per_chunk_analyses_def example_analyzer_def ascii_def analyze_sequential_def
        Let_def request_chunk_def completion_text_def strip_def is_space_def example_finding_def)
  show "valid_analyses [example_finding] = [example_finding]"
    by (rule example_finding_valid)
qed


section \<open>The analyzer of the database analysis\<close>

text \<open>
  The data a source collects: the values of Python that JSON knows, and any other
  object, of which only the name of its type is kept.
\<close>

datatype pyval =
    PNone
  | PBool bool
  | PInt int
  | PStr pystr
  | PList "pyval list"
  | PDict "(pystr \<times> pyval) list"
  | PObject string

fun type_name :: "pyval \<Rightarrow> string" where
  "type_name PNone = ''NoneType''"
| "type_name (PBool b) = ''bool''"
| "type_name (PInt i) = ''int''"
| "type_name (PStr s) = ''str''"
| "type_name (PList vs) = ''list''"
| "type_name (PDict kvs) = ''dict''"
| "type_name (PObject t) = t"

definition quoted :: "string \<Rightarrow> pystr" where
  "quoted s = ascii [CHR 0x27] @ ascii s @ ascii [CHR 0x27]"

text \<open>\<open>data.get(key, default)\<close>: only a dict has the method.\<close>

definition py_get :: "pyval \<Rightarrow> pystr \<Rightarrow> pyval \<Rightarrow> exn + pyval" where
  "py_get d key dflt =
     (case d of
        PDict kvs \<Rightarrow> Inr (case map_of kvs key of None \<Rightarrow> dflt | Some v \<Rightarrow> v)
      | _ \<Rightarrow>
          Inl (Exn ''AttributeError''
                 (quoted (type_name d) @ ascii '' object has no attribute '' @ quoted ''get'')))"

text \<open>\<open>len(v)\<close>: a string, a list and a dict have a length.\<close>

definition py_len :: "pyval \<Rightarrow> exn + nat" where
  "py_len v =
     (case v of
        PStr s \<Rightarrow> Inr (length s)
      | PList vs \<Rightarrow> Inr (length vs)
      | PDict kvs \<Rightarrow> Inr (length kvs)
      | _ \<Rightarrow>
          Inl (Exn ''TypeError''
                 (ascii ''object of type '' @ quoted (type_name v) @ ascii '' has no len()'')))"

text \<open>\<open>str(i)\<close> for an integer.\<close>

definition py_int_str :: "int \<Rightarrow> pystr" where
  "py_int_str i = (if i < 0 then 45 # decimal (nat (- i)) else decimal (nat i))"

text \<open>
  \<open>LangGraphAnalyzer\<close> of db_ops_analyzer/plugins/analyzers/langgraph.py. Outside the
  program, and so parameters: \<open>db_prompt\<close> is \<open>json.dumps(data, ...)\<close> put into the
  template by \<open>format\<close> (either may raise); \<open>db_client\<close> is the request under
  \<open>asyncio.wait_for\<close>; \<open>db_layout\<close> is the layout of a successful answer,
  \<open>_format_report(_force_format_report(...), data)\<close>, which is not followed here;
  \<open>db_now\<close> is the time printed in a report; \<open>db_render\<close> is \<open>str\<close> of a value that
  is not a string, a number or \<open>None\<close>; \<open>db_ancestors\<close> is what the classes of the
  exceptions inherit from.
\<close>

record db_analyzer =
  db_base_url :: pystr
  db_api_key :: pystr
  db_model_name :: pystr
  db_timeout :: int
  db_prompt :: "pyval \<Rightarrow> exn + pystr"
  db_client :: "pystr \<Rightarrow> exn + pystr option list"
  db_layout :: "pystr \<Rightarrow> pyval \<Rightarrow> exn + pystr"
  db_now :: pystr
  db_render :: "pyval \<Rightarrow> pystr"
  db_ancestors :: "string \<Rightarrow> string list"

text \<open>
  \<open>str(v)\<close>; for a value that is not a string, a number, a truth value or \<open>None\<close> it
  is left to the parameter \<open>render\<close>.
\<close>

definition py_str :: "(pyval \<Rightarrow> pystr) \<Rightarrow> pyval \<Rightarrow> pystr" where
  "py_str render v =
     (case v of
        PStr s \<Rightarrow> s
      | PNone \<Rightarrow> ascii ''None''
      | PBool b \<Rightarrow> (if b then ascii ''True'' else ascii ''False'')
      | PInt i \<Rightarrow> py_int_str i
      | _ \<Rightarrow> render v)"

text \<open>The heading of the remediation hints in the messages of \<open>_analyze_async\<close> (line 126 and after).\<close>

definition hints_heading :: pystr where
  "hints_heading =
     [24314, 35758, 65306]"

text \<open>The first words of the message of line 126.\<close>

definition wait_timeout_headline :: pystr where
  "wait_timeout_headline =
     [25968, 25454, 24211, 20998, 26512, 36229, 26102]"

text \<open>Line 126, literal part 1.\<close>

definition wait_timeout_text1 :: pystr where
  "wait_timeout_text1 =
     [65288, 24050, 31561, 24453, 32]"

text \<open>Line 126, literal part 2, up to the hints.\<close>

definition wait_timeout_text2a :: pystr where
  "wait_timeout_text2a =
     [32, 31186, 65289, 10, 10, 21487, 33021, 30340, 21407, 22240, 65306, 10, 49, 46, 32,
      76, 76, 77, 32, 65, 80, 73, 26381, 21153, 21709, 24212, 24930, 10, 50, 46, 32,
      25968, 25454, 37327, 36807, 22823, 65292, 20998, 26512, 26102, 38388, 36807, 38271,
      10, 51, 46, 32, 32593, 32476, 36830, 25509, 19981, 31283, 23450, 10, 10]"

text \<open>Line 126, literal part 2, after the heading of the hints.\<close>

definition wait_timeout_text2b :: pystr where
  "wait_timeout_text2b =
     [10, 45, 32, 26816, 26597, 76, 76, 77, 32, 65, 80, 73, 26381, 21153, 29366, 24577,
      10, 45, 32, 23581, 35797, 22686, 21152, 36229, 26102, 26102, 38388, 65288, 24403,
      21069, 58, 32]"

text \<open>Line 126, literal part 3.\<close>

definition wait_timeout_text3 :: pystr where
  "wait_timeout_text3 =
     [31186, 65289, 10, 45, 32, 26816, 26597, 32593, 32476, 36830, 25509]"

text \<open>The message of line 126.\<close>

definition wait_timeout_msg :: "db_analyzer \<Rightarrow> pystr" where
  "wait_timeout_msg a =
     wait_timeout_headline @
     wait_timeout_text1 @
     py_int_str (db_timeout a) @
     wait_timeout_text2a @
     hints_heading @
     wait_timeout_text2b @
     py_int_str (db_timeout a) @
     wait_timeout_text3"

text \<open>The first words of the message of line 130.\<close>

definition request_timeout_headline :: pystr where
  "request_timeout_headline =
     [76, 76, 77, 32, 65, 80, 73, 35831, 27714, 36229, 26102]"

text \<open>Line 130, literal part 1.\<close>

definition request_timeout_text1 :: pystr where
  "request_timeout_text1 =
     [10, 10, 38169, 35823, 35814, 24773, 58, 32]"

text \<open>Line 130, literal part 2, up to the hints.\<close>

definition request_timeout_text2a :: pystr where
  "request_timeout_text2a =
     [10, 10, 21487, 33021, 30340, 21407, 22240, 65306, 10, 49, 46, 32, 76, 76, 77, 32,
      65, 80, 73, 26381, 21153, 26080, 21709, 24212, 10, 50, 46, 32, 32593, 32476, 36830,
      25509, 36229, 26102, 10, 51, 46, 32, 26381, 21153, 22120, 36127, 36733, 36807,
      39640, 10, 10]"

text \<open>Line 130, literal part 2, after the heading of the hints.\<close>

definition request_timeout_text2b :: pystr where
  "request_timeout_text2b =
     [10, 45, 32, 26816, 26597, 76, 76, 77, 32, 65, 80, 73, 26381, 21153, 26159, 21542,
      27491, 24120, 36816, 34892, 10, 45, 32, 26816, 26597, 32593, 32476, 36830, 25509,
      10, 45, 32, 23581, 35797, 22686, 21152, 36229, 26102, 26102, 38388, 65288, 24403,
      21069, 58, 32]"

text \<open>Line 130, literal part 3.\<close>

definition request_timeout_text3 :: pystr where
  "request_timeout_text3 =
     [31186, 65289]"

text \<open>The message of line 130.\<close>

definition request_timeout_msg :: "db_analyzer \<Rightarrow> exn \<Rightarrow> pystr" where
  "request_timeout_msg a e =
     request_timeout_headline @
     request_timeout_text1 @
     exc_str e @
     request_timeout_text2a @
     hints_heading @
     request_timeout_text2b @
     py_int_str (db_timeout a) @
     request_timeout_text3"

text \<open>The first words of the message of line 134.\<close>

definition connect_error_headline :: pystr where
  "connect_error_headline =
     [26080, 27861, 36830, 25509, 21040, 76, 76, 77, 32, 65, 80, 73, 26381, 21153]"

text \<open>Line 134, literal part 1.\<close>

definition connect_error_text1 :: pystr where
  "connect_error_text1 =
     [10, 10, 38169, 35823, 35814, 24773, 58, 32]"

text \<open>Line 134, literal part 2.\<close>

definition connect_error_text2 :: pystr where
  "connect_error_text2 =
     [10, 10, 21487, 33021, 30340, 21407, 22240, 65306, 10, 49, 46, 32, 76, 76, 77, 32,
      65, 80, 73, 26381, 21153, 26410, 36816, 34892, 10, 50, 46, 32, 98, 97, 115, 101, 95,
      117, 114, 108, 37197, 32622, 38169, 35823, 65288, 24403, 21069, 58, 32]"

text \<open>Line 134, literal part 3, up to the hints.\<close>

definition connect_error_text3a :: pystr where
  "connect_error_text3a =
     [65289, 10, 51, 46, 32, 32593, 32476, 19981, 36890, 25110, 38450, 28779, 22681,
      38459, 27490, 10, 10]"

text \<open>Line 134, literal part 3, after the heading of the hints.\<close>

definition connect_error_text3b :: pystr where
  "connect_error_text3b =
     [10, 45, 32, 26816, 26597, 98, 97, 115, 101, 95, 117, 114, 108, 37197, 32622, 26159,
      21542, 27491, 30830, 10, 45, 32, 26816, 26597, 76, 76, 77, 32, 65, 80, 73, 26381,
      21153, 26159, 21542, 36816, 34892, 10, 45, 32, 27979, 35797, 32593, 32476, 36830,
      25509, 58, 32, 99, 117, 114, 108, 32]"

text \<open>The message of line 134.\<close>

definition connect_error_msg :: "db_analyzer \<Rightarrow> exn \<Rightarrow> pystr" where
  "connect_error_msg a e =
     connect_error_headline @
     connect_error_text1 @
     exc_str e @
     connect_error_text2 @
     db_base_url a @
     connect_error_text3a @
     hints_heading @
     connect_error_text3b @
     db_base_url a"

text \<open>The first words of the message of line 138.\<close>

definition api_error_headline :: pystr where
  "api_error_headline =
     [76, 76, 77, 32, 65, 80, 73, 38169, 35823]"

text \<open>Line 138, literal part 1.\<close>

definition api_error_text1 :: pystr where
  "api_error_text1 =
     [10, 10, 38169, 35823, 35814, 24773, 58, 32]"

text \<open>Line 138, literal part 2.\<close>

definition api_error_text2 :: pystr where
  "api_error_text2 =
     [10, 10, 21487, 33021, 30340, 21407, 22240, 65306, 10, 49, 46, 32, 65, 80, 73, 23494,
      38053, 26080, 25928, 65288, 24403, 21069, 107, 101, 121, 58, 32]"

text \<open>Line 138, literal part 3.\<close>

definition api_error_text3 :: pystr where
  "api_error_text3 =
     [46, 46, 46, 65289, 10, 50, 46, 32, 27169, 22411, 21517, 31216, 38169, 35823, 65288,
      24403, 21069, 58, 32]"

text \<open>Line 138, literal part 4, up to the hints.\<close>

definition api_error_text4a :: pystr where
  "api_error_text4a =
     [65289, 10, 51, 46, 32, 65, 80, 73, 26381, 21153, 36820, 22238, 38169, 35823, 10, 10]"

text \<open>Line 138, literal part 4, after the heading of the hints.\<close>

definition api_error_text4b :: pystr where
  "api_error_text4b =
     [10, 45, 32, 26816, 26597, 65, 80, 73, 23494, 38053, 26159, 21542, 27491, 30830, 10,
      45, 32, 26816, 26597, 27169, 22411, 21517, 31216, 26159, 21542, 27491, 30830, 10,
      45, 32, 26597, 30475, 76, 76, 77, 32, 65, 80, 73, 26381, 21153, 26085, 24535]"

text \<open>The message of line 138.\<close>

definition api_error_msg :: "db_analyzer \<Rightarrow> exn \<Rightarrow> pystr" where
  "api_error_msg a e =
     api_error_headline @
     api_error_text1 @
     exc_str e @
     api_error_text2 @
     take 10 (db_api_key a) @
     api_error_text3 @
     db_model_name a @
     api_error_text4a @
     hints_heading @
     api_error_text4b"

text \<open>The first words of the message of line 142.\<close>

definition analysis_failure_headline :: pystr where
  "analysis_failure_headline =
     [25968, 25454, 24211, 20998, 26512, 22833, 36133]"

text \<open>Line 142, literal part 1.\<close>

definition analysis_failure_text1 :: pystr where
  "analysis_failure_text1 =
     [10, 10, 38169, 35823, 35814, 24773, 58, 32]"

text \<open>Line 142, literal part 2.\<close>

definition analysis_failure_text2 :: pystr where
  "analysis_failure_text2 =
     [10, 10, 38169, 35823, 31867, 22411, 58, 32]"

text \<open>The message of line 142.\<close>

definition analysis_failure_msg :: "db_analyzer \<Rightarrow> exn \<Rightarrow> pystr" where
  "analysis_failure_msg a e =
     analysis_failure_headline @
     analysis_failure_text1 @
     exc_str e @
     analysis_failure_text2 @
     ascii (class_name (exc_class e))"

text \<open>\<open>_format_error_report\<close>, literal part 1 of the template.\<close>

definition error_report_text1 :: pystr where
  "error_report_text1 =
     [35, 32, 128202, 32, 25968, 25454, 24211, 36816, 32500, 20998, 26512, 25253, 21578,
      10, 10, 62, 32, 42, 42, 25253, 21578, 29983, 25104, 26102, 38388, 42, 42, 58, 32]"

text \<open>\<open>_format_error_report\<close>, literal part 2 of the template.\<close>

definition error_report_text2 :: pystr where
  "error_report_text2 =
     [32, 32, 10, 62, 32, 42, 42, 25968, 25454, 24211, 31867, 22411, 42, 42, 58, 32]"

text \<open>\<open>_format_error_report\<close>, literal part 3 of the template.\<close>

definition error_report_text3 :: pystr where
  "error_report_text3 =
     [32, 32, 10, 62, 32, 42, 42, 25968, 25454, 24211, 22320, 22336, 42, 42, 58, 32]"

text \<open>\<open>_format_error_report\<close>, literal part 4 of the template.\<close>

definition error_report_text4 :: pystr where
  "error_report_text4 =
     [32, 32, 10, 62, 32, 42, 42, 29366, 24577, 42, 42, 58, 32, 10060, 32, 20998, 26512,
      22833, 36133, 10, 10, 45, 45, 45, 10, 10, 35, 35, 32, 9888, 65039, 32, 38169, 35823,
      20449, 24687, 10, 10]"

text \<open>\<open>_format_error_report\<close>, literal part 5 of the template.\<close>

definition error_report_text5 :: pystr where
  "error_report_text5 =
     [10, 10, 35, 35, 32, 128203, 32, 25910, 38598, 30340, 25968, 25454, 27010, 35272, 10,
      10, 45, 32, 42, 42, 24930, 26597, 35810, 25968, 37327, 42, 42, 58, 32]"

text \<open>\<open>_format_error_report\<close>, literal part 6 of the template.\<close>

definition error_report_text6 :: pystr where
  "error_report_text6 =
     [10, 45, 32, 42, 42, 27963, 36291, 36830, 25509, 25968, 42, 42, 58, 32]"

text \<open>\<open>_format_error_report\<close>, literal part 7 of the template.\<close>

definition error_report_text7 :: pystr where
  "error_report_text7 =
     [10, 45, 32, 42, 42, 34920, 25968, 37327, 42, 42, 58, 32]"

text \<open>\<open>_format_error_report\<close>, literal part 8 of the template.\<close>

definition error_report_text8 :: pystr where
  "error_report_text8 =
     [10, 10, 45, 45, 45, 10, 10, 42, 42, 27880, 24847, 42, 42, 58, 32, 30001, 20110,
      20998, 26512, 36807, 31243, 20986, 38169, 65292, 26080, 27861, 29983, 25104, 23436,
      25972, 30340, 20998, 26512, 25253, 21578, 12290, 35831, 26816, 26597, 25968, 25454,
      25910, 38598, 26159, 21542, 27491, 24120, 12290, 10]"

text \<open>The template of \<open>_format_error_report\<close>, its fields as strings.\<close>

definition error_report_template ::
  "pystr \<Rightarrow> pystr \<Rightarrow> pystr \<Rightarrow> pystr \<Rightarrow> pystr \<Rightarrow> pystr \<Rightarrow> pystr \<Rightarrow> pystr" where
  "error_report_template report_time database_type host error_msg slow_queries processlist tables =
     error_report_text1 @
     report_time @
     error_report_text2 @
     database_type @
     error_report_text3 @
     host @
     error_report_text4 @
     error_msg @
     error_report_text5 @
     slow_queries @
     error_report_text6 @
     processlist @
     error_report_text7 @
     tables @
     error_report_text8"

text \<open>The default \<open>Unknown\<close>.\<close>

definition unknown_text :: pystr where
  "unknown_text =
     [85, 110, 107, 110, 111, 119, 110]"

text \<open>
  The classes that the \<open>except\<close> clauses of \<open>_analyze_async\<close> name. Since Python 3.11
  \<open>asyncio.TimeoutError\<close> is the built-in \<open>TimeoutError\<close>; the classes of httpx and of
  openai are named as these packages export them.
\<close>

definition asyncio_timeout :: string where
  "asyncio_timeout = ''TimeoutError''"

definition httpx_timeout :: string where
  "httpx_timeout = ''httpx.TimeoutException''"

definition httpx_connect_error :: string where
  "httpx_connect_error = ''httpx.ConnectError''"

definition openai_api_error :: string where
  "openai_api_error = ''openai.APIError''"

text \<open>The chain of \<open>except\<close> clauses: the message for an exception.\<close>

definition error_message :: "db_analyzer \<Rightarrow> exn \<Rightarrow> pystr" where
  "error_message a e =
     (if caught_by (db_ancestors a) asyncio_timeout e then wait_timeout_msg a
      else if caught_by (db_ancestors a) httpx_timeout e then request_timeout_msg a e
      else if caught_by (db_ancestors a) httpx_connect_error e then connect_error_msg a e
      else if caught_by (db_ancestors a) openai_api_error e then api_error_msg a e
      else analysis_failure_msg a e)"

text \<open>\<open>len(data.get(key, []))\<close> as the template prints it.\<close>

definition count_of :: "pyval \<Rightarrow> pystr \<Rightarrow> exn + pystr" where
  "count_of d key =
     (case py_get d key (PList []) of
        Inl e \<Rightarrow> Inl e
      | Inr v \<Rightarrow> (case py_len v of Inl e \<Rightarrow> Inl e | Inr n \<Rightarrow> Inr (decimal n)))"

text \<open>\<open>_format_error_report\<close>.\<close>

definition format_error_report :: "db_analyzer \<Rightarrow> pystr \<Rightarrow> pyval \<Rightarrow> exn + pystr" where
  "format_error_report a error_msg d =
     (case py_get d (ascii ''database_type'') (PStr unknown_text) of
        Inl e \<Rightarrow> Inl e
      | Inr database_type \<Rightarrow>
     (case py_get d (ascii ''host'') (PStr unknown_text) of
        Inl e \<Rightarrow> Inl e
      | Inr host \<Rightarrow>
     (case count_of d (ascii ''slow_queries'') of
        Inl e \<Rightarrow> Inl e
      | Inr slow_queries \<Rightarrow>
     (case count_of d (ascii ''processlist'') of
        Inl e \<Rightarrow> Inl e
      | Inr processlist \<Rightarrow>
     (case count_of d (ascii ''tables'') of
        Inl e \<Rightarrow> Inl e
      | Inr tables \<Rightarrow>
          Inr (error_report_template (db_now a) (py_str (db_render a) database_type)
                 (py_str (db_render a) host)
                 error_msg slow_queries processlist tables))))))"

text \<open>
  \<open>_analyze_async\<close>: the prompt is built before the \<open>try\<close>; every exception of the
  request, of the reading of the answer and of the layout goes to an \<open>except\<close> clause,
  which returns the error report.
\<close>

definition db_analyze_async :: "db_analyzer \<Rightarrow> pyval \<Rightarrow> exn + pystr" where
  "db_analyze_async a d =
     (case db_prompt a d of
        Inl e \<Rightarrow> Inl e
      | Inr prompt \<Rightarrow>
          (case (case completion_text (db_client a prompt) of
                   Inl e \<Rightarrow> Inl e
                 | Inr analysis_result \<Rightarrow> db_layout a analysis_result d) of
             Inr report \<Rightarrow> Inr report
           | Inl e \<Rightarrow> format_error_report a (error_message a e) d))"

definition db_analyze :: "db_analyzer \<Rightarrow> pyval \<Rightarrow> exn + pystr" where
  "db_analyze a d = db_analyze_async a d"

text \<open>
  The data the analyzer is written for (\<open>data: Dict[str, Any]\<close>): a dict whose entries
  \<open>slow_queries\<close>, \<open>processlist\<close> and \<open>tables\<close>, where present, have a length.
\<close>

definition sized :: "pyval \<Rightarrow> bool" where
  "sized v = (case v of PStr s \<Rightarrow> True | PList vs \<Rightarrow> True | PDict kvs \<Rightarrow> True | _ \<Rightarrow> False)"

definition well_shaped :: "pyval \<Rightarrow> bool" where
  "well_shaped d =
     (case d of
        PDict kvs \<Rightarrow>
          list_all (\<lambda>key. case map_of kvs key of None \<Rightarrow> True | Some v \<Rightarrow> sized v)
            [ascii ''slow_queries'', ascii ''processlist'', ascii ''tables'']
      | _ \<Rightarrow> False)"

text \<open>The first words of the message of each \<open>except\<close> clause, and the clauses with hints.\<close>

definition category_headline :: "db_analyzer \<Rightarrow> exn \<Rightarrow> pystr" where
  "category_headline a e =
     (if caught_by (db_ancestors a) asyncio_timeout e then wait_timeout_headline
      else if caught_by (db_ancestors a) httpx_timeout e then request_timeout_headline
      else if caught_by (db_ancestors a) httpx_connect_error e then connect_error_headline
      else if caught_by (db_ancestors a) openai_api_error e then api_error_headline
      else analysis_failure_headline)"

definition has_hints_clause :: "db_analyzer \<Rightarrow> exn \<Rightarrow> bool" where
  "has_hints_clause a e \<longleftrightarrow>
     caught_by (db_ancestors a) asyncio_timeout e \<or>
     caught_by (db_ancestors a) httpx_timeout e \<or>
     caught_by (db_ancestors a) httpx_connect_error e \<or>
     caught_by (db_ancestors a) openai_api_error e"

text \<open>
  Some classes and what they inherit from, for the examples: classes of the standard
  library, of httpx and of openai. A class that is not listed inherits from
  \<open>Exception\<close> alone.
\<close>

definition example_ancestors :: "string \<Rightarrow> string list" where
  "example_ancestors cls =
     (if cls = ''TimeoutError'' then [''OSError'', ''Exception'', ''BaseException'', ''object'']
      else if cls = ''ConnectionError''
        then [''OSError'', ''Exception'', ''BaseException'', ''object'']
      else if cls = ''ConnectionRefusedError'' \<or> cls = ''ConnectionResetError''
        then [''ConnectionError'', ''OSError'', ''Exception'', ''BaseException'', ''object'']
      else if cls = ''http.client.RemoteDisconnected''
        then [''ConnectionResetError'', ''ConnectionError'', ''OSError'',
              ''http.client.BadStatusLine'', ''http.client.HTTPException'', ''Exception'',
              ''BaseException'', ''object'']
      else if cls = ''multiprocessing.context.TimeoutError''
        then [''multiprocessing.context.ProcessError'', ''Exception'', ''BaseException'',
              ''object'']
      else if cls = ''IndexError'' \<or> cls = ''KeyError''
        then [''LookupError'', ''Exception'', ''BaseException'', ''object'']
      else if cls = ''httpx.ReadTimeout''
        then [''httpx.TimeoutException'', ''httpx.TransportError'', ''httpx.RequestError'',
              ''httpx.HTTPError'', ''Exception'', ''BaseException'', ''object'']
      else if cls = ''httpx.ConnectError''
        then [''httpx.NetworkError'', ''httpx.TransportError'', ''httpx.RequestError'',
              ''httpx.HTTPError'', ''Exception'', ''BaseException'', ''object'']
      else if cls = ''openai.AuthenticationError''
        then [''openai.APIStatusError'', ''openai.APIError'', ''openai.OpenAIError'',
              ''Exception'', ''BaseException'', ''object'']
      else [''Exception'', ''BaseException'', ''object''])"

text \<open>An analyzer whose request times out, and a dataset, for the examples.\<close>

definition example_db :: db_analyzer where
  "example_db =
     \<lparr>db_base_url = ascii ''http://llm:8000/v1'', db_api_key = ascii ''sk-0123456789abcdef'',
      db_model_name = ascii ''qwen'', db_timeout = 60,
      db_prompt = (\<lambda>d. Inr (ascii ''prompt'')),
      db_client = (\<lambda>prompt. Inl (Exn ''TimeoutError'' [])),
      db_layout = (\<lambda>result d. Inr result),
      db_now = ascii ''2026-01-01 00:00:00'',
      db_render = (\<lambda>v. ascii ''?''),
      db_ancestors = example_ancestors\<rparr>"

definition example_dataset :: pyval where
  "example_dataset =
     PDict [(ascii ''database_type'', PStr (ascii ''PostgreSQL'')),
            (ascii ''host'', PStr (ascii ''db1'')),
            (ascii ''tables'', PList [])]"

subsection \<open>Failures of the request become the report\<close>

lemma startswith_append: "startswith (p @ s) p"
  by (induction p) auto

lemma startswith_iff: "startswith s p \<longleftrightarrow> (\<exists>q. s = p @ q)"
  by (induction s p rule: startswith.induct) auto

lemma contains_iff: "contains s sub \<longleftrightarrow> (\<exists>p q. s = p @ sub @ q)"
proof (induction s)
  case Nil
  then show ?case by simp
next
  case (Cons c cs)
  have "(\<exists>p q. c # cs = p @ sub @ q) \<longleftrightarrow>
        (\<exists>q. c # cs = sub @ q) \<or> (\<exists>p q. cs = p @ sub @ q)"
    by (auto simp: Cons_eq_append_conv)
  with Cons show ?case by (simp add: startswith_iff)
qed

lemma contains_trans: "contains s m \<Longrightarrow> contains m sub \<Longrightarrow> contains s sub"
proof -
  assume "contains s m" "contains m sub"
  then obtain p q p' q' where "s = p @ m @ q" "m = p' @ sub @ q'"
    unfolding contains_iff by blast
  then have "s = (p @ p') @ sub @ (q' @ q)" by simp
  then show ?thesis unfolding contains_iff by blast
qed

lemma startswith_contains: "startswith s sub \<Longrightarrow> contains s sub"
  by (cases s; cases sub) auto

lemma contains_here: "contains (sub @ s) sub"
  by (rule startswith_contains) (rule startswith_append)

lemma contains_after: "contains s sub \<Longrightarrow> contains (p @ s) sub"
  by (induction p) auto

lemma contains_mid: "contains (p @ sub @ s) sub"
  by (rule contains_after) (rule contains_here)

lemma count_of_sized:
  assumes "case map_of kvs key of None \<Rightarrow> True | Some v \<Rightarrow> sized v"
  shows "\<exists>n. count_of (PDict kvs) key = Inr n"
  using assms
  by (auto simp: count_of_def py_get_def py_len_def sized_def split: option.splits pyval.splits)

lemma format_error_report_total:
  assumes "well_shaped d"
  shows "\<exists>report. format_error_report a msg d = Inr report \<and> contains report msg"
proof -
  from assms obtain kvs where d: "d = PDict kvs"
    by (cases d) (auto simp: well_shaped_def)
  from assms d obtain n1 n2 n3 where
    "count_of d (ascii ''slow_queries'') = Inr n1"
    "count_of d (ascii ''processlist'') = Inr n2"
    "count_of d (ascii ''tables'') = Inr n3"
    using count_of_sized[of kvs "ascii ''slow_queries''"]
      count_of_sized[of kvs "ascii ''processlist''"] count_of_sized[of kvs "ascii ''tables''"]
    by (auto simp: well_shaped_def)
  then obtain ty host where r: "format_error_report a msg d =
      Inr (error_report_template (db_now a) ty host msg n1 n2 n3)"
    by (simp add: format_error_report_def d py_get_def)
  have "contains (error_report_template (db_now a) ty host msg n1 n2 n3) msg"
    unfolding error_report_template_def
    using contains_mid[of "error_report_text1 @ db_now a @ error_report_text2 @ ty @
        error_report_text3 @ host @ error_report_text4" msg]
    by simp
  with r show ?thesis by simp
qed

lemma error_message_headline: "startswith (error_message a e) (category_headline a e)"
  by (simp add: error_message_def category_headline_def wait_timeout_msg_def
      request_timeout_msg_def connect_error_msg_def api_error_msg_def analysis_failure_msg_def
      startswith_append)

lemma error_message_hints:
  "has_hints_clause a e \<Longrightarrow> contains (error_message a e) hints_heading"
proof -
  assume h: "has_hints_clause a e"
  have 1: "contains (wait_timeout_msg a) hints_heading"
    unfolding wait_timeout_msg_def
    using contains_mid[of "wait_timeout_headline @ wait_timeout_text1 @
      py_int_str (db_timeout a) @ wait_timeout_text2a" hints_heading]
    by simp
  have 2: "contains (request_timeout_msg a e) hints_heading"
    unfolding request_timeout_msg_def
    using contains_mid[of "request_timeout_headline @ request_timeout_text1 @ exc_str e @
      request_timeout_text2a" hints_heading]
    by simp
  have 3: "contains (connect_error_msg a e) hints_heading"
    unfolding connect_error_msg_def
    using contains_mid[of "connect_error_headline @ connect_error_text1 @ exc_str e @
      connect_error_text2 @ db_base_url a @ connect_error_text3a" hints_heading]
    by simp
  have 4: "contains (api_error_msg a e) hints_heading"
    unfolding api_error_msg_def
    using contains_mid[of "api_error_headline @ api_error_text1 @ exc_str e @
      api_error_text2 @ take 10 (db_api_key a) @ api_error_text3 @ db_model_name a @
      api_error_text4a" hints_heading]
    by simp
  from h 1 2 3 4 show ?thesis
    by (auto simp: error_message_def has_hints_clause_def)
qed

text \<open>
  Claim C5, as the code has it. For a dataset of the shape above whose prompt could be
  built, a failure of the request or of the reading of the answer never leaves
  \<open>analyze\<close>: it returns an error report that holds the message of the \<open>except\<close> clause
  for the failure, which begins with the headline of its category. For the timeouts, the
  connection errors and the errors of the API (an authentication error is one) the report
  holds the hints; for any other exception, such as the \<open>IndexError\<close> of an answer with
  no choice, the message is the headline, \<open>str(e)\<close> and the name of the class. An
  exception belongs to a clause by its class: it is caught by the first clause that
  names its class or a class it inherits from.
\<close>

theorem db_analyze_absorbs_failure:
  assumes "well_shaped d" and "db_prompt a d = Inr prompt"
    and "completion_text (db_client a prompt) = Inl e"
  shows "\<exists>report. db_analyze a d = Inr report \<and> contains report (error_message a e) \<and>
           startswith (error_message a e) (category_headline a e) \<and>
           (if has_hints_clause a e then contains report hints_heading
            else error_message a e = analysis_failure_msg a e)"
proof -
  from format_error_report_total[OF assms(1), of a "error_message a e"]
  obtain report where r: "format_error_report a (error_message a e) d = Inr report"
    "contains report (error_message a e)"
    by blast
  with assms(2,3) have "db_analyze a d = Inr report"
    by (simp add: db_analyze_def db_analyze_async_def)
  moreover have "\<not> has_hints_clause a e \<Longrightarrow> error_message a e = analysis_failure_msg a e"
    by (simp add: has_hints_clause_def error_message_def)
  moreover have "has_hints_clause a e \<Longrightarrow> contains report hints_heading"
    using r(2) error_message_hints[of a e] by (blast intro: contains_trans)
  ultimately show ?thesis
    using r(2) error_message_headline[of a e] by auto
qed

lemma db_analyze_total:
  assumes "well_shaped d" and "db_prompt a d = Inr prompt"
  shows "\<exists>report. db_analyze a d = Inr report"
  using assms format_error_report_total[OF assms(1), of a]
  by (auto simp: db_analyze_def db_analyze_async_def split: sum.splits)

theorem db_analyze_absorbs_failure_witness:
  "well_shaped example_dataset \<and>
   (\<exists>report.
      db_analyze
        (example_db\<lparr>db_client := \<lambda>prompt. Inl (Exn ''openai.AuthenticationError'' (ascii ''Error code: 401''))\<rparr>)
        example_dataset = Inr report \<and>
      contains report
        (api_error_msg
           (example_db\<lparr>db_client := \<lambda>prompt. Inl (Exn ''openai.AuthenticationError'' (ascii ''Error code: 401''))\<rparr>)
           (Exn ''openai.AuthenticationError'' (ascii ''Error code: 401''))) \<and>
      contains report hints_heading)"
proof -
  let ?e = "Exn ''openai.AuthenticationError'' (ascii ''Error code: 401'')"
  let ?a = "example_db\<lparr>db_client := \<lambda>prompt. Inl ?e\<rparr>"
  have shape: "well_shaped example_dataset"
    by (simp add: well_shaped_def example_dataset_def sized_def ascii_def)
  have prompt: "db_prompt ?a example_dataset = Inr (ascii ''prompt'')"
    by (simp add: example_db_def)
  have fails: "completion_text (db_client ?a (ascii ''prompt'')) = Inl ?e"
    by (simp add: completion_text_def)
  have hints: "has_hints_clause ?a ?e"
    by (simp add: has_hints_clause_def caught_by_def openai_api_error_def example_db_def
        example_ancestors_def)
  have msg: "error_message ?a ?e = api_error_msg ?a ?e"
    by (simp add: error_message_def caught_by_def asyncio_timeout_def httpx_timeout_def
        httpx_connect_error_def openai_api_error_def example_db_def example_ancestors_def)
  from db_analyze_absorbs_failure[OF shape prompt fails] hints
  obtain report where r: "db_analyze ?a example_dataset = Inr report"
    "contains report (error_message ?a ?e)" "contains report hints_heading"
    by auto
  with shape msg show ?thesis by auto
qed

text \<open>
  An exception whose class inherits from \<open>openai.APIError\<close>, whatever the class, is an
  error of the API unless an earlier clause catches it; a class that only shares the
  name \<open>TimeoutError\<close> goes to the last clause, which prints that name.
\<close>

lemma api_error_subclass:
  assumes "openai_api_error \<in> set (db_ancestors a (exc_class e))"
    and "\<not> caught_by (db_ancestors a) asyncio_timeout e"
    and "\<not> caught_by (db_ancestors a) httpx_timeout e"
    and "\<not> caught_by (db_ancestors a) httpx_connect_error e"
  shows "error_message a e = api_error_msg a e \<and> has_hints_clause a e"
  using assms by (simp add: error_message_def has_hints_clause_def caught_by_def)

lemma foreign_timeout_error:
  "error_message example_db (Exn ''multiprocessing.context.TimeoutError'' []) =
     analysis_failure_headline @ analysis_failure_text1 @ analysis_failure_text2 @
     ascii ''TimeoutError'' \<and>
   \<not> has_hints_clause example_db (Exn ''multiprocessing.context.TimeoutError'' [])"
  by (simp add: error_message_def has_hints_clause_def caught_by_def asyncio_timeout_def
      httpx_timeout_def httpx_connect_error_def openai_api_error_def example_db_def
      example_ancestors_def analysis_failure_msg_def class_name_def)

lemma read_timeout_error:
  "error_message example_db (Exn ''httpx.ReadTimeout'' []) =
     request_timeout_msg example_db (Exn ''httpx.ReadTimeout'' [])"
  by (simp add: error_message_def caught_by_def asyncio_timeout_def httpx_timeout_def
      example_db_def example_ancestors_def)

text \<open>
  A dataset that is a string makes \<open>_format_error_report\<close> raise inside the \<open>except\<close>
  clause, and the \<open>AttributeError\<close> leaves \<open>analyze\<close>. An answer with no choice gives a
  report with the \<open>IndexError\<close> and without hints.
\<close>

lemma malformed_response_report:
  "db_analyze (example_db\<lparr>db_client := \<lambda>prompt. Inr []\<rparr>) example_dataset =
     Inr (error_report_template (ascii ''2026-01-01 00:00:00'') (ascii ''PostgreSQL'') (ascii ''db1'')
            (analysis_failure_headline @ analysis_failure_text1 @
             ascii ''list index out of range'' @ analysis_failure_text2 @ ascii ''IndexError'')
            [48] [48] [48])"
  by (simp add: db_analyze_def db_analyze_async_def example_db_def completion_text_def
      error_message_def caught_by_def asyncio_timeout_def httpx_timeout_def
      httpx_connect_error_def openai_api_error_def analysis_failure_msg_def
      example_ancestors_def class_name_def
      format_error_report_def py_get_def example_dataset_def count_of_def py_len_def
      py_str_def decimal.simps ascii_def)

lemma malformed_response_no_hints:
  "\<not> contains
     (error_report_template (ascii ''2026-01-01 00:00:00'') (ascii ''PostgreSQL'') (ascii ''db1'')
        (analysis_failure_headline @ analysis_failure_text1 @
         ascii ''list index out of range'' @ analysis_failure_text2 @ ascii ''IndexError'')
        [48] [48] [48])
     hints_heading"
  by (simp add: error_report_template_def error_report_text1_def error_report_text2_def
      error_report_text3_def error_report_text4_def error_report_text5_def
      error_report_text6_def error_report_text7_def error_report_text8_def
      analysis_failure_headline_def analysis_failure_text1_def analysis_failure_text2_def
      hints_heading_def ascii_def)

theorem db_analyze_counterexample:
  "db_analyze example_db (PStr (ascii ''rows'')) =
     Inl (Exn ''AttributeError''
            (quoted ''str'' @ ascii '' object has no attribute '' @ quoted ''get'')) \<and>
   (case db_analyze (example_db\<lparr>db_client := \<lambda>prompt. Inr []\<rparr>) example_dataset of
      Inl e \<Rightarrow> False
    | Inr report \<Rightarrow>
        contains report (ascii ''IndexError'') \<and> \<not> contains report hints_heading)"
proof -
  have 1: "db_analyze example_db (PStr (ascii ''rows'')) =
     Inl (Exn ''AttributeError''
            (quoted ''str'' @ ascii '' object has no attribute '' @ quoted ''get''))"
    by (simp add: db_analyze_def db_analyze_async_def example_db_def completion_text_def
        format_error_report_def py_get_def)
  have 2: "contains
     (error_report_template (ascii ''2026-01-01 00:00:00'') (ascii ''PostgreSQL'') (ascii ''db1'')
        (analysis_failure_headline @ analysis_failure_text1 @
         ascii ''list index out of range'' @ analysis_failure_text2 @ ascii ''IndexError'')
        [48] [48] [48])
     (ascii ''IndexError'')"
    unfolding error_report_template_def
    using contains_mid[of "error_report_text1 @ ascii ''2026-01-01 00:00:00'' @
        error_report_text2 @ ascii ''PostgreSQL'' @ error_report_text3 @ ascii ''db1'' @
        error_report_text4 @ analysis_failure_headline @ analysis_failure_text1 @
        ascii ''list index out of range'' @ analysis_failure_text2" "ascii ''IndexError''"]
    by simp
  from 1 2 malformed_response_no_hints show ?thesis
    by (simp add: malformed_response_report)
qed


section \<open>The task executor\<close>

text \<open>
  \<open>TaskExecutor\<close> of log_analyzer/task.py and of db_ops_analyzer/task.py. The two classes
  differ in the fields of a run, in the key of a report and in \<open>_run_task\<close>; what they
  share is modelled once, with the variant as a parameter.
\<close>

datatype variant = LogAnalysis | DbOps

text \<open>The truth value of a Python value, as \<open>or\<close> and \<open>if not\<close> take it.\<close>

fun truthy :: "pyval \<Rightarrow> bool" where
  "truthy PNone = False"
| "truthy (PBool b) = b"
| "truthy (PInt i) = (i \<noteq> 0)"
| "truthy (PStr s) = (s \<noteq> [])"
| "truthy (PList vs) = (vs \<noteq> [])"
| "truthy (PDict kvs) = (kvs \<noteq> [])"
| "truthy (PObject t) = True"

text \<open>
  A run: the dict \<open>run_info\<close>. The log analysis keeps a container name and the chunk
  counts of the progress, the database analysis the stage of the progress.
\<close>

record run =
  run_no :: nat
  run_task :: pystr
  run_container :: "pystr option"
  run_status :: string
  run_stage :: string
  run_percentage :: int
  run_progress_stage :: "string option"
  run_chunks :: "(nat \<times> nat) option"
  run_started_at :: pystr
  run_finished_at :: "pystr option"
  run_error :: "pystr option"
  run_report_id :: "pystr option"

text \<open>A report: the dict stored in \<open>self.reports\<close>.\<close>

record report =
  report_id :: pystr
  report_run :: nat
  report_task :: pystr
  report_label :: pyval
  report_content :: pystr
  report_file_path :: pyval
  report_minio_path :: pyval
  report_created_at :: pystr
  report_timestamp :: pystr

text \<open>
  The executor: the two registries and the counter. \<open>tasks\<close> is the list of tasks of
  the configuration (\<open>Config.get_tasks\<close>).
\<close>

record executor =
  tasks :: "pyval list"
  runs :: "nat \<rightharpoonup> run"
  reports :: "pystr \<rightharpoonup> report"
  run_id_counter :: nat

text \<open>\<open>Config.get_task\<close>: the first task of that name, or \<open>None\<close>.\<close>

fun get_task :: "pyval list \<Rightarrow> pystr \<Rightarrow> exn + pyval" where
  "get_task [] task_name = Inr PNone"
| "get_task (task # rest) task_name =
     (case py_get task (ascii ''name'') PNone of
        Inl e \<Rightarrow> Inl e
      | Inr name \<Rightarrow> if name = PStr task_name then Inr task else get_task rest task_name)"

definition task_missing :: pystr where
  "task_missing = [20219, 21153, 19981, 23384, 22312, 58, 32]"

text \<open>The \<open>run_info\<close> that \<open>_create_run\<close> stores; \<open>container_name or 'all'\<close>.\<close>

definition new_run :: "variant \<Rightarrow> nat \<Rightarrow> pystr \<Rightarrow> pystr option \<Rightarrow> pystr \<Rightarrow> run" where
  "new_run v rid task_name container_name started_at =
     \<lparr>run_no = rid, run_task = task_name,
      run_container =
        (case v of
           DbOps \<Rightarrow> None
         | LogAnalysis \<Rightarrow>
             (case container_name of
                None \<Rightarrow> Some (ascii ''all'')
              | Some c \<Rightarrow> Some (if c = [] then ascii ''all'' else c))),
      run_status = ''running'', run_stage = ''queued'', run_percentage = 0,
      run_progress_stage = (case v of DbOps \<Rightarrow> Some ''queued'' | LogAnalysis \<Rightarrow> None),
      run_chunks = (case v of DbOps \<Rightarrow> None | LogAnalysis \<Rightarrow> Some (0, 0)),
      run_started_at = started_at, run_finished_at = None, run_error = None,
      run_report_id = None\<rparr>"

text \<open>\<open>_create_run\<close>, run by one thread without interference.\<close>

definition create_run ::
  "variant \<Rightarrow> executor \<Rightarrow> pystr \<Rightarrow> pystr option \<Rightarrow> pystr \<Rightarrow> nat \<times> executor" where
  "create_run v ex task_name container_name started_at =
     (let rid = run_id_counter ex + 1;
          ex1 = ex\<lparr>run_id_counter := rid\<rparr>
      in (rid, ex1\<lparr>runs := (runs ex1)(rid \<mapsto> new_run v rid task_name container_name started_at)\<rparr>))"

text \<open>
  \<open>override_config or self.config.get_task(task_name)\<close>, and the check that follows.
\<close>

definition resolve_task :: "executor \<Rightarrow> pystr \<Rightarrow> pyval \<Rightarrow> exn + pyval" where
  "resolve_task ex task_name override_config =
     (case (if truthy override_config then Inr override_config
            else get_task (tasks ex) task_name) of
        Inl e \<Rightarrow> Inl e
      | Inr task_config \<Rightarrow>
          if \<not> truthy task_config
          then Inl (Exn ''ValueError'' (task_missing @ task_name))
          else Inr task_config)"

text \<open>
  \<open>execute_task_async\<close>: the run id, or the exception, and the executor after the
  call. The thread it starts runs \<open>_run_task\<close> later.
\<close>

definition execute_task_async ::
  "variant \<Rightarrow> executor \<Rightarrow> pystr \<Rightarrow> pyval \<Rightarrow> pystr option \<Rightarrow> pystr \<Rightarrow> (exn + nat) \<times> executor"
where
  "execute_task_async v ex task_name override_config container_name started_at =
     (case resolve_task ex task_name override_config of
        Inl e \<Rightarrow> (Inl e, ex)
      | Inr task_config \<Rightarrow>
          (case create_run v ex task_name container_name started_at of
             (rid, ex') \<Rightarrow> (Inr rid, ex')))"

text \<open>An executor with one task, for the examples.\<close>

definition example_executor :: executor where
  "example_executor =
     \<lparr>tasks = [PDict [(ascii ''name'', PStr (ascii ''daily''))]], runs = Map.empty,
      reports = Map.empty, run_id_counter = 0\<rparr>"

subsection \<open>A task that does not exist\<close>

text \<open>
  Claim C9, as the code has it. When no override is given (\<open>None\<close>, or a value that
  counts as false) and the configuration has no task of that name, \<open>execute_task_async\<close>
  raises \<open>ValueError\<close> with the message of the source and the name of the task, and the
  executor is as it was: no run id is taken and no run is recorded.
\<close>

theorem unknown_task_fails:
  assumes "\<not> truthy override_config" and "get_task (tasks ex) task_name = Inr PNone"
  shows "execute_task_async v ex task_name override_config container_name started_at =
           (Inl (Exn ''ValueError'' (task_missing @ task_name)), ex)"
  using assms by (simp add: execute_task_async_def resolve_task_def)

theorem unknown_task_fails_witness:
  "get_task (tasks example_executor) (ascii ''weekly'') = Inr PNone \<and>
   execute_task_async DbOps example_executor (ascii ''weekly'') PNone None (ascii ''t0'') =
     (Inl (Exn ''ValueError'' (task_missing @ ascii ''weekly'')), example_executor)"
proof -
  have g: "get_task (tasks example_executor) (ascii ''weekly'') = Inr PNone"
    by (simp add: example_executor_def py_get_def ascii_def)
  from unknown_task_fails[OF _ g, of PNone] g show ?thesis by simp
qed

text \<open>The class of the exception is \<open>ValueError\<close>; the source has no \<open>TaskNotFoundError\<close>.\<close>

theorem unknown_task_error_class_counterexample:
  "fst (execute_task_async LogAnalysis example_executor (ascii ''weekly'') PNone None (ascii ''t0'')) =
     Inl (Exn ''ValueError'' (task_missing @ ascii ''weekly'')) \<and>
   exc_class (Exn ''ValueError'' (task_missing @ ascii ''weekly'')) \<noteq> ''TaskNotFoundError''"
  by (simp add: execute_task_async_def resolve_task_def example_executor_def py_get_def ascii_def)

subsection \<open>Concurrent calls of \<open>execute_task_async\<close>\<close>

text \<open>
  Several threads call \<open>execute_task_async\<close> on one executor. A call is at one of these
  places: before the task is resolved; before \<open>with self._lock\<close>; holding the lock,
  before \<open>self._run_id_counter + 1\<close> reads the counter; with the run id, before the
  counter is stored; before the lock is released; before the run is stored in
  \<open>self.runs\<close>; returned with its run id; ended by an exception. \<open>issued\<close> is not a
  variable of the program: it records the run ids in the order in which the counter took
  them. The threads of \<open>_run_task\<close> do not touch the counter or the lock and are left out
  here.
\<close>

record caller =
  call_task :: pystr
  call_override :: pyval
  call_container :: "pystr option"
  call_started_at :: pystr

datatype call_pc =
    Calling
  | AwaitRunLock
  | ReadCounter
  | WriteCounter nat
  | ReleaseRunLock nat
  | StoreRun nat
  | ReturnedId nat
  | RaisedExn exn

record exec_state =
  call_pcs :: "call_pc list"
  run_lock :: bool
  shared :: executor
  issued :: "nat list"

definition calls_init :: "caller list \<Rightarrow> executor \<Rightarrow> exec_state" where
  "calls_init callers ex =
     \<lparr>call_pcs = replicate (length callers) Calling, run_lock = False, shared = ex, issued = []\<rparr>"

definition call_step :: "variant \<Rightarrow> caller list \<Rightarrow> exec_state \<Rightarrow> nat \<Rightarrow> exec_state option" where
  "call_step v callers s i =
     (if length (call_pcs s) \<le> i \<or> length callers \<le> i then None
      else (case call_pcs s ! i of
        Calling \<Rightarrow>
          (case resolve_task (shared s) (call_task (callers ! i)) (call_override (callers ! i)) of
             Inl e \<Rightarrow> Some (s\<lparr>call_pcs := (call_pcs s)[i := RaisedExn e]\<rparr>)
           | Inr task_config \<Rightarrow> Some (s\<lparr>call_pcs := (call_pcs s)[i := AwaitRunLock]\<rparr>))
      | AwaitRunLock \<Rightarrow>
          if run_lock s then None
          else Some (s\<lparr>call_pcs := (call_pcs s)[i := ReadCounter], run_lock := True\<rparr>)
      | ReadCounter \<Rightarrow>
          Some (s\<lparr>call_pcs := (call_pcs s)[i := WriteCounter (run_id_counter (shared s) + 1)]\<rparr>)
      | WriteCounter rid \<Rightarrow>
          Some (s\<lparr>call_pcs := (call_pcs s)[i := ReleaseRunLock rid],
                  shared := (shared s)\<lparr>run_id_counter := rid\<rparr>,
                  issued := issued s @ [rid]\<rparr>)
      | ReleaseRunLock rid \<Rightarrow>
          Some (s\<lparr>call_pcs := (call_pcs s)[i := StoreRun rid], run_lock := False\<rparr>)
      | StoreRun rid \<Rightarrow>
          Some (s\<lparr>call_pcs := (call_pcs s)[i := ReturnedId rid],
                  shared := (shared s)\<lparr>runs := (runs (shared s))
                    (rid \<mapsto> new_run v rid (call_task (callers ! i))
                             (call_container (callers ! i)) (call_started_at (callers ! i)))\<rparr>\<rparr>)
      | ReturnedId rid \<Rightarrow> None
      | RaisedExn e \<Rightarrow> None))"

fun call_rank :: "call_pc \<Rightarrow> nat" where
  "call_rank Calling = 6"
| "call_rank AwaitRunLock = 5"
| "call_rank ReadCounter = 4"
| "call_rank (WriteCounter rid) = 3"
| "call_rank (ReleaseRunLock rid) = 2"
| "call_rank (StoreRun rid) = 1"
| "call_rank (ReturnedId rid) = 0"
| "call_rank (RaisedExn e) = 0"

definition calls_remaining :: "exec_state \<Rightarrow> nat" where
  "calls_remaining s = sum_list (map call_rank (call_pcs s))"

definition first_call_enabled :: "variant \<Rightarrow> caller list \<Rightarrow> exec_state \<Rightarrow> exec_state option" where
  "first_call_enabled v callers s =
     (case List.find (\<lambda>i. call_step v callers s i \<noteq> None) [0..<length (call_pcs s)] of
        None \<Rightarrow> None
      | Some i \<Rightarrow> call_step v callers s i)"

lemma sum_list_call_rank_update:
  "i < length xs \<Longrightarrow> call_rank y < call_rank (xs ! i) \<Longrightarrow>
   sum_list (map call_rank (xs[i := y])) < sum_list (map call_rank xs)"
proof (induction xs arbitrary: i)
  case Nil
  then show ?case by simp
next
  case (Cons x xs)
  then show ?case by (cases i) auto
qed

lemma call_step_remaining:
  "call_step v callers s i = Some s' \<Longrightarrow> calls_remaining s' < calls_remaining s"
  unfolding call_step_def calls_remaining_def
  by (auto split: if_splits call_pc.splits sum.splits intro!: sum_list_call_rank_update)

lemma first_call_enabled_remaining:
  "first_call_enabled v callers s = Some s' \<Longrightarrow> calls_remaining s' < calls_remaining s"
  unfolding first_call_enabled_def
  by (auto split: option.splits dest: call_step_remaining)

text \<open>
  As for the tasks of the analysis, the order of the steps is a parameter, and the calls
  then run until none can take a step.
\<close>

fun run_calls :: "variant \<Rightarrow> caller list \<Rightarrow> nat list \<Rightarrow> exec_state \<Rightarrow> exec_state" where
  "run_calls v callers [] s = s"
| "run_calls v callers (i # sched) s =
     (case call_step v callers s i of
        None \<Rightarrow> run_calls v callers sched s
      | Some s' \<Rightarrow> run_calls v callers sched s')"

function finish_calls :: "variant \<Rightarrow> caller list \<Rightarrow> exec_state \<Rightarrow> exec_state" where
  "finish_calls v callers s =
     (case first_call_enabled v callers s of
        None \<Rightarrow> s
      | Some s' \<Rightarrow> finish_calls v callers s')"
  by pat_completeness auto
termination
  by (relation "measure (\<lambda>(v, callers, s). calls_remaining s)")
     (auto dest: first_call_enabled_remaining)

declare finish_calls.simps [simp del]

fun id_of :: "call_pc \<Rightarrow> nat option" where
  "id_of (ReleaseRunLock rid) = Some rid"
| "id_of (StoreRun rid) = Some rid"
| "id_of (ReturnedId rid) = Some rid"
| "id_of p = None"

fun returned_id :: "call_pc \<Rightarrow> nat option" where
  "returned_id (ReturnedId rid) = Some rid"
| "returned_id p = None"

fun in_run_lock :: "call_pc \<Rightarrow> bool" where
  "in_run_lock ReadCounter = True"
| "in_run_lock (WriteCounter rid) = True"
| "in_run_lock (ReleaseRunLock rid) = True"
| "in_run_lock p = False"

fun write_ok :: "nat \<Rightarrow> call_pc \<Rightarrow> bool" where
  "write_ok n (WriteCounter rid) = (rid = n + 1)"
| "write_ok n p = True"

fun call_over :: "call_pc \<Rightarrow> bool" where
  "call_over (ReturnedId rid) = True"
| "call_over (RaisedExn e) = True"
| "call_over p = False"

fun resolved_ok :: "executor \<Rightarrow> caller \<times> call_pc \<Rightarrow> bool" where
  "resolved_ok ex (c, Calling) = True"
| "resolved_ok ex (c, RaisedExn e) = (resolve_task ex (call_task c) (call_override c) = Inl e)"
| "resolved_ok ex (c, p) = (\<not> isl (resolve_task ex (call_task c) (call_override c)))"

text \<open>
  What holds in every state: the lock is held by exactly the one call inside
  \<open>with self._lock\<close>, if any; a call that has computed its run id holds the counter plus
  one; the run ids taken so far are the initial counter plus 1, 2, ... in this order, and
  they are, each once, the ids of the calls past the store of the counter.
\<close>

definition calls_inv :: "caller list \<Rightarrow> executor \<Rightarrow> exec_state \<Rightarrow> bool" where
  "calls_inv callers ex s \<longleftrightarrow>
     length (call_pcs s) = length callers \<and>
     tasks (shared s) = tasks ex \<and>
     how_many in_run_lock (call_pcs s) = (if run_lock s then 1 else 0) \<and>
     list_all (write_ok (run_id_counter (shared s))) (call_pcs s) \<and>
     issued s = [Suc (run_id_counter ex)..<Suc (run_id_counter (shared s))] \<and>
     run_id_counter ex \<le> run_id_counter (shared s) \<and>
     mset (List.map_filter id_of (call_pcs s)) = mset (issued s) \<and>
     list_all (resolved_ok ex) (zip callers (call_pcs s))"

lemma map_filter_update_same:
  "f y = f (xs ! i) \<Longrightarrow> List.map_filter f (xs[i := y]) = List.map_filter f xs"
proof (induction xs arbitrary: i)
  case Nil
  then show ?case by simp
next
  case (Cons x xs)
  show ?case
  proof (cases i)
    case 0
    with Cons.prems show ?thesis by (simp add: List.map_filter_simps)
  next
    case (Suc n)
    with Cons.prems have "f y = f (xs ! n)" by simp
    from Cons.IH[OF this] Suc show ?thesis
      by (simp add: List.map_filter_simps split: option.splits)
  qed
qed

lemma map_filter_update_new:
  "i < length xs \<Longrightarrow> f (xs ! i) = None \<Longrightarrow> f y = Some r \<Longrightarrow>
   mset (List.map_filter f (xs[i := y])) = add_mset r (mset (List.map_filter f xs))"
proof (induction xs arbitrary: i)
  case Nil
  then show ?case by simp
next
  case (Cons x xs)
  then show ?case by (cases i) (auto simp: List.map_filter_simps split: option.splits)
qed

lemma list_all_zip_update:
  "i < length ys \<Longrightarrow> i < length xs \<Longrightarrow> list_all P (zip xs ys) \<Longrightarrow> P (xs ! i, y) \<Longrightarrow>
   list_all P (zip xs (ys[i := y]))"
  by (auto simp: list_all_length nth_list_update)

lemma resolve_task_tasks:
  "tasks ex1 = tasks ex2 \<Longrightarrow> resolve_task ex1 n c = resolve_task ex2 n c"
  by (simp add: resolve_task_def)

lemma calls_inv_tasks: "calls_inv callers ex s \<Longrightarrow> tasks (shared s) = tasks ex"
  unfolding calls_inv_def by blast

lemma calls_init_inv: "calls_inv callers ex (calls_init callers ex)"
  by (simp add: calls_inv_def calls_init_def how_many_def List.map_filter_def list_all_length)

lemma calls_inv_lock:
  "calls_inv callers ex s \<Longrightarrow> how_many in_run_lock (call_pcs s) = (if run_lock s then 1 else 0)"
  unfolding calls_inv_def by blast

lemma calls_inv_writes:
  "calls_inv callers ex s \<Longrightarrow> list_all (write_ok (run_id_counter (shared s))) (call_pcs s)"
  unfolding calls_inv_def by blast

lemma calls_inv_resolved:
  "calls_inv callers ex s \<Longrightarrow> list_all (resolved_ok ex) (zip callers (call_pcs s))"
  unfolding calls_inv_def by blast

lemma run_lock_owner_unique:
  assumes inv: "calls_inv callers ex s" and i: "i < length (call_pcs s)"
    and own: "in_run_lock (call_pcs s ! i)" and j: "j < length (call_pcs s)" "j \<noteq> i"
  shows "\<not> in_run_lock (call_pcs s ! j)"
proof
  assume "in_run_lock (call_pcs s ! j)"
  moreover from calls_inv_lock[OF inv] have "how_many in_run_lock (call_pcs s) \<le> 1" by simp
  ultimately have "i = j"
    using i own j(1) by (intro how_many_unique[of in_run_lock "call_pcs s"]) auto
  with j(2) show False by simp
qed

lemma call_step_inv:
  assumes inv: "calls_inv callers ex s" and step: "call_step v callers s i = Some s'"
  shows "calls_inv callers ex s'"
proof -
  from step have i: "i < length (call_pcs s)" "i < length callers"
    by (auto simp: call_step_def split: if_splits)
  note hm = how_many_update[OF i(1), of in_run_lock]
  from calls_inv_resolved[OF inv] i
  have res: "resolved_ok ex (callers ! i, call_pcs s ! i)"
    by (simp add: list_all_length)
  from inv have same: "y = call_pcs s ! i \<or> id_of y = id_of (call_pcs s ! i) \<Longrightarrow>
      mset (List.map_filter id_of ((call_pcs s)[i := y])) = mset (issued s)" for y
    by (auto simp: calls_inv_def map_filter_update_same)
  show ?thesis
  proof (cases "call_pcs s ! i")
    case Calling
    show ?thesis
    proof (cases "resolve_task (shared s) (call_task (callers ! i)) (call_override (callers ! i))")
      case (Inl e)
      with step i Calling have s': "s' = s\<lparr>call_pcs := (call_pcs s)[i := RaisedExn e]\<rparr>"
        by (simp add: call_step_def)
      from Inl resolve_task_tasks[OF calls_inv_tasks[OF inv]]
      have r: "resolved_ok ex (callers ! i, RaisedExn e)" by simp
      from inv i Calling hm[of "RaisedExn e"] same[of "RaisedExn e"] r show ?thesis
        unfolding s' calls_inv_def
        by (auto intro!: list_all_update list_all_zip_update)
    next
      case (Inr cfg)
      with step i Calling have s': "s' = s\<lparr>call_pcs := (call_pcs s)[i := AwaitRunLock]\<rparr>"
        by (simp add: call_step_def)
      from Inr resolve_task_tasks[OF calls_inv_tasks[OF inv]]
      have r: "resolved_ok ex (callers ! i, AwaitRunLock)" by simp
      from inv i Calling hm[of AwaitRunLock] same[of AwaitRunLock] r show ?thesis
        unfolding s' calls_inv_def
        by (auto intro!: list_all_update list_all_zip_update)
    qed
  next
    case AwaitRunLock
    with step i have s': "s' = s\<lparr>call_pcs := (call_pcs s)[i := ReadCounter], run_lock := True\<rparr>"
      and free: "\<not> run_lock s"
      by (auto simp: call_step_def split: if_splits)
    from inv i AwaitRunLock free res hm[of ReadCounter] same[of ReadCounter] show ?thesis
      unfolding s' calls_inv_def
      by (auto intro!: list_all_update list_all_zip_update)
  next
    case ReadCounter
    let ?y = "WriteCounter (run_id_counter (shared s) + 1)"
    from step i ReadCounter have s': "s' = s\<lparr>call_pcs := (call_pcs s)[i := ?y]\<rparr>"
      by (auto simp: call_step_def)
    from inv i ReadCounter res hm[of ?y] same[of ?y] show ?thesis
      unfolding s' calls_inv_def
      by (auto intro!: list_all_update list_all_zip_update)
  next
    case (WriteCounter rid)
    from step i WriteCounter have s': "s' = s\<lparr>call_pcs := (call_pcs s)[i := ReleaseRunLock rid],
        shared := (shared s)\<lparr>run_id_counter := rid\<rparr>, issued := issued s @ [rid]\<rparr>"
      by (auto simp: call_step_def)
    from calls_inv_writes[OF inv] i WriteCounter have rid: "rid = run_id_counter (shared s) + 1"
      by (auto simp: list_all_length)
    have others: "write_ok n (call_pcs s ! j)" if "j < length (call_pcs s)" "j \<noteq> i" for j n
    proof -
      from run_lock_owner_unique[OF inv i(1) _ that] WriteCounter
      have "\<not> in_run_lock (call_pcs s ! j)" by simp
      then show ?thesis by (cases "call_pcs s ! j") auto
    qed
    have writes: "list_all (write_ok n) ((call_pcs s)[i := ReleaseRunLock rid])" for n
      using others i by (auto simp: list_all_length nth_list_update)
    have ids: "mset (List.map_filter id_of ((call_pcs s)[i := ReleaseRunLock rid])) =
        add_mset rid (mset (List.map_filter id_of (call_pcs s)))"
      using i WriteCounter by (intro map_filter_update_new) auto
    from inv i WriteCounter res hm[of "ReleaseRunLock rid"] writes ids rid show ?thesis
      unfolding s' calls_inv_def
      by (auto intro!: list_all_zip_update)
  next
    case (ReleaseRunLock rid)
    from step i ReleaseRunLock have s': "s' = s\<lparr>call_pcs := (call_pcs s)[i := StoreRun rid],
        run_lock := False\<rparr>"
      by (auto simp: call_step_def)
    have "0 < how_many in_run_lock (call_pcs s)"
      using i ReleaseRunLock by (intro how_many_pos[of i]) auto
    with calls_inv_lock[OF inv] have held: "run_lock s" "how_many in_run_lock (call_pcs s) = 1"
      by (auto split: if_splits)
    from inv i ReleaseRunLock res held hm[of "StoreRun rid"] same[of "StoreRun rid"] show ?thesis
      unfolding s' calls_inv_def
      by (auto intro!: list_all_update list_all_zip_update)
  next
    case (StoreRun rid)
    let ?y = "ReturnedId rid"
    from step i StoreRun obtain rs where s': "s' = s\<lparr>call_pcs := (call_pcs s)[i := ?y],
        shared := (shared s)\<lparr>runs := rs\<rparr>\<rparr>"
      by (auto simp: call_step_def)
    from inv i StoreRun res hm[of ?y] same[of ?y] show ?thesis
      unfolding s' calls_inv_def
      by (auto intro!: list_all_update list_all_zip_update)
  next
    case (ReturnedId rid)
    with step i show ?thesis by (simp add: call_step_def)
  next
    case (RaisedExn e)
    with step i show ?thesis by (simp add: call_step_def)
  qed
qed

lemma run_calls_inv:
  "calls_inv callers ex s \<Longrightarrow> calls_inv callers ex (run_calls v callers sched s)"
proof (induction sched arbitrary: s)
  case Nil
  then show ?case by simp
next
  case (Cons i sched)
  then show ?case
    by (cases "call_step v callers s i") (auto intro: call_step_inv)
qed

lemma finish_calls_inv:
  "calls_inv callers ex s \<Longrightarrow> calls_inv callers ex (finish_calls v callers s)"
proof (induction v callers s rule: finish_calls.induct)
  case (1 v callers s)
  show ?case
  proof (cases "first_call_enabled v callers s")
    case None
    with 1 show ?thesis by (simp add: finish_calls.simps)
  next
    case (Some s')
    then obtain i where "call_step v callers s i = Some s'"
      by (auto simp: first_call_enabled_def split: option.splits)
    with "1.prems" have "calls_inv callers ex s'" by (rule call_step_inv)
    with 1 Some show ?thesis by (simp add: finish_calls.simps)
  qed
qed

lemma finish_calls_stuck:
  "i < length (call_pcs (finish_calls v callers s)) \<Longrightarrow>
   call_step v callers (finish_calls v callers s) i = None"
proof (induction v callers s rule: finish_calls.induct)
  case (1 v callers s)
  show ?case
  proof (cases "first_call_enabled v callers s")
    case None
    then have "finish_calls v callers s = s" by (simp add: finish_calls.simps)
    moreover from None have "call_step v callers s j = None" if "j < length (call_pcs s)" for j
      using that
      by (auto simp: first_call_enabled_def find_None_iff split: option.splits
          dest: find_Some_iff[THEN iffD1])
    ultimately show ?thesis using "1.prems" by simp
  next
    case (Some s')
    with 1 show ?thesis by (simp add: finish_calls.simps)
  qed
qed

lemma calls_no_deadlock:
  assumes inv: "calls_inv callers ex s"
    and stuck: "\<And>i. i < length (call_pcs s) \<Longrightarrow> call_step v callers s i = None"
    and i: "i < length (call_pcs s)"
  shows "call_over (call_pcs s ! i)"
proof -
  from inv have len: "length (call_pcs s) = length callers" by (simp add: calls_inv_def)
  have shape: "call_pcs s ! j = AwaitRunLock \<and> run_lock s \<or> call_over (call_pcs s ! j)"
    if "j < length (call_pcs s)" for j
    using stuck[OF that] that len
    by (cases "call_pcs s ! j") (auto simp: call_step_def split: if_splits sum.splits)
  have out: "\<not> in_run_lock p" if "p = AwaitRunLock \<or> call_over p" for p
    using that by (cases p) auto
  have "how_many in_run_lock (call_pcs s) = 0"
    unfolding how_many_zero using shape out by blast
  with calls_inv_lock[OF inv] have "\<not> run_lock s" by (simp split: if_splits)
  with shape[OF i] show ?thesis by simp
qed

lemma returned_ids_length:
  "length cs = length ps \<Longrightarrow> list_all call_over ps \<Longrightarrow>
   list_all (resolved_ok ex) (zip cs ps) \<Longrightarrow>
   length (List.map_filter returned_id ps) =
   how_many (\<lambda>c. \<not> isl (resolve_task ex (call_task c) (call_override c))) cs"
proof (induction cs ps rule: list_induct2)
  case Nil
  then show ?case by (simp add: how_many_def List.map_filter_simps)
next
  case (Cons c cs p ps)
  then show ?case
    by (cases p) (auto simp: how_many_def List.map_filter_simps)
qed

lemma returned_ids_held:
  "list_all call_over ps \<Longrightarrow> List.map_filter id_of ps = List.map_filter returned_id ps"
proof (induction ps)
  case Nil
  then show ?case by (simp add: List.map_filter_simps)
next
  case (Cons p ps)
  then show ?case by (cases p) (auto simp: List.map_filter_simps)
qed

text \<open>A call whose task resolves.\<close>

definition can_start :: "executor \<Rightarrow> caller \<Rightarrow> bool" where
  "can_start ex c = (\<not> isl (resolve_task ex (call_task c) (call_override c)))"

text \<open>
  Claim C6. Whatever the order in which the calls take their steps, every call ends;
  each call whose task resolves returns a run id; the ids returned are pairwise distinct;
  sorted, they are the initial counter plus 1, 2, ..., \<open>K\<close> with no gap, which is also
  the order in which the counter took them; the counter ends at the initial value plus
  \<open>K\<close>.
\<close>

theorem run_ids_unique_dense:
  "(let s = finish_calls v callers (run_calls v callers sched (calls_init callers ex));
        ids = List.map_filter returned_id (call_pcs s);
        c0 = run_id_counter ex
    in list_all call_over (call_pcs s) \<and>
       length ids = how_many (can_start ex) callers \<and>
       distinct ids \<and>
       sort ids = [Suc c0..<Suc (c0 + length ids)] \<and>
       issued s = [Suc c0..<Suc (c0 + length ids)] \<and>
       run_id_counter (shared s) = c0 + length ids)"
proof -
  define s where "s = finish_calls v callers (run_calls v callers sched (calls_init callers ex))"
  define ids where "ids = List.map_filter returned_id (call_pcs s)"
  define c0 where "c0 = run_id_counter ex"
  have inv: "calls_inv callers ex s"
    unfolding s_def by (intro finish_calls_inv run_calls_inv calls_init_inv)
  have over: "list_all call_over (call_pcs s)"
    unfolding list_all_length
  proof (intro allI impI)
    fix i assume i: "i < length (call_pcs s)"
    show "call_over (call_pcs s ! i)"
    proof (rule calls_no_deadlock[OF inv _ i])
      fix j assume "j < length (call_pcs s)"
      then show "call_step v callers s j = None"
        unfolding s_def by (rule finish_calls_stuck)
    qed
  qed
  from inv have len: "length callers = length (call_pcs s)" by (simp add: calls_inv_def)
  have n: "length ids = how_many (can_start ex) callers"
    unfolding ids_def can_start_def
    using len over calls_inv_resolved[OF inv] by (rule returned_ids_length)
  from inv have iss: "issued s = [Suc c0..<Suc (run_id_counter (shared s))]"
    and le: "c0 \<le> run_id_counter (shared s)"
    and m: "mset (List.map_filter id_of (call_pcs s)) = mset (issued s)"
    by (simp_all add: calls_inv_def c0_def)
  from m have mids: "mset ids = mset (issued s)"
    by (simp add: ids_def returned_ids_held[OF over])
  then have "length ids = length (issued s)" by (rule mset_eq_length)
  with iss le have counter: "run_id_counter (shared s) = c0 + length ids" by simp
  have d: "distinct ids"
    using mids iss by (metis distinct_upt mset_eq_imp_distinct_iff)
  have "sort ids = issued s"
    using mids iss by (intro properties_for_sort) (simp_all del: upt_Suc)
  with iss counter have srt: "sort ids = [Suc c0..<Suc (c0 + length ids)]" by simp
  from iss counter have iss': "issued s = [Suc c0..<Suc (c0 + length ids)]" by simp
  from over n d srt iss' counter show ?thesis
    unfolding Let_def s_def[symmetric] ids_def[symmetric] c0_def[symmetric] by blast
qed

text \<open>A call alone does what \<open>execute_task_async\<close> above does.\<close>

lemma single_call_agrees:
  "(let s = finish_calls v [c] (calls_init [c] ex)
    in (case execute_task_async v ex (call_task c) (call_override c) (call_container c)
              (call_started_at c) of
          (Inl e, ex') \<Rightarrow> call_pcs s = [RaisedExn e] \<and> shared s = ex'
        | (Inr rid, ex') \<Rightarrow> call_pcs s = [ReturnedId rid] \<and> shared s = ex'))"
proof (cases "resolve_task ex (call_task c) (call_override c)")
  case (Inl e)
  then show ?thesis
    by (simp add: finish_calls.simps first_call_enabled_def call_step_def calls_init_def
        execute_task_async_def Let_def)
next
  case (Inr cfg)
  have r: "resolve_task (ex\<lparr>run_id_counter := n\<rparr>) t ov = resolve_task ex t ov" for n t ov
    by (simp add: resolve_task_def)
  from Inr show ?thesis
    by (simp add: finish_calls.simps first_call_enabled_def call_step_def calls_init_def
        execute_task_async_def create_run_def Let_def r)
qed


section \<open>The aggregator of sources\<close>

text \<open>
  \<open>MultiSource\<close> of log_analyzer/plugins/sources/multi.py. A sub-source is an object of
  another plugin; of it the model keeps the label set by the constructor and what its
  \<open>collect()\<close> does: it raises, it returns a string, it returns an iterable (the items
  it yields, and the exception that ends the iteration, if one does), or it returns
  something else.
\<close>

datatype collected =
    CollectRaises exn
  | GaveString pystr
  | GaveIterable "pyval list" "exn option"
  | GaveOther

record subsource =
  sub_label :: pystr
  sub_collect :: collected

record multi_source =
  source_instances :: "subsource list"
  call_chain :: "pyval list"

text \<open>\<open>d[key]\<close> for a string key.\<close>

definition py_item :: "pyval \<Rightarrow> string \<Rightarrow> exn + pyval" where
  "py_item d key =
     (case d of
        PDict kvs \<Rightarrow>
          (case map_of kvs (ascii key) of
             None \<Rightarrow> Inl (Exn ''KeyError'' (quoted key))
           | Some v \<Rightarrow> Inr v)
      | PStr s \<Rightarrow>
          Inl (Exn ''TypeError'' (ascii ''string indices must be integers, not '' @ quoted ''str''))
      | PList vs \<Rightarrow>
          Inl (Exn ''TypeError''
                 (ascii ''list indices must be integers or slices, not str''))
      | _ \<Rightarrow>
          Inl (Exn ''TypeError'' (quoted (type_name d) @ ascii '' object is not subscriptable'')))"

text \<open>An entry of \<open>all_logs\<close>: the time of collection, the label, the content.\<close>

type_synonym log_entry = "pystr \<times> pystr \<times> pyval"

text \<open>
  The loop over the items of an iterable. \<open>clock n\<close> is the \<open>n\<close>-th reading of
  \<open>datetime.now().strftime(...)\<close> in this call of \<open>collect\<close>.
\<close>

fun collect_items ::
  "(nat \<Rightarrow> pystr) \<Rightarrow> pystr \<Rightarrow> pyval list \<Rightarrow> log_entry list \<Rightarrow> nat \<Rightarrow> log_entry list \<times> nat"
where
  "collect_items clock label [] all_logs n = (all_logs, n)"
| "collect_items clock label (log_chunk # items) all_logs n =
     (if truthy log_chunk
      then collect_items clock label items (all_logs @ [(clock n, label, log_chunk)]) (n + 1)
      else collect_items clock label items all_logs n)"

text \<open>
  The loop over the sub-sources. An exception of \<open>collect()\<close>, or of the iteration, is
  logged and the loop goes on; what was appended before stays.
\<close>

fun collect_sources ::
  "(nat \<Rightarrow> pystr) \<Rightarrow> subsource list \<Rightarrow> log_entry list \<Rightarrow> nat \<Rightarrow> log_entry list"
where
  "collect_sources clock [] all_logs n = all_logs"
| "collect_sources clock (source_instance # rest) all_logs n =
     (case sub_collect source_instance of
        CollectRaises e \<Rightarrow> collect_sources clock rest all_logs n
      | GaveString result \<Rightarrow>
          if result \<noteq> []
          then collect_sources clock rest
                 (all_logs @ [(clock n, sub_label source_instance, PStr result)]) (n + 1)
          else collect_sources clock rest all_logs n
      | GaveIterable items err \<Rightarrow>
          (case collect_items clock (sub_label source_instance) items all_logs n of
             (all_logs', n') \<Rightarrow> collect_sources clock rest all_logs' n')
      | GaveOther \<Rightarrow> collect_sources clock rest all_logs n)"

definition call_relation :: pystr where
  "call_relation = [35, 32, 35843, 29992, 20851, 31995, 58, 32]"

text \<open>One line of the annotation of the call chain.\<close>

definition chain_line :: "(pyval \<Rightarrow> pystr) \<Rightarrow> pyval \<Rightarrow> exn + pystr" where
  "chain_line render chain =
     (case py_item chain ''from'' of
        Inl e \<Rightarrow> Inl e
      | Inr src \<Rightarrow>
     (case py_item chain ''to'' of
        Inl e \<Rightarrow> Inl e
      | Inr dst \<Rightarrow>
     (case py_get chain (ascii ''protocol'') (PStr (ascii ''unknown'')) of
        Inl e \<Rightarrow> Inl e
      | Inr protocol \<Rightarrow>
          Inr (call_relation @ py_str render src @ ascii '' -> '' @ py_str render dst @
               ascii '' ('' @ py_str render protocol @ ascii '')''))))"

fun chain_lines :: "(pyval \<Rightarrow> pystr) \<Rightarrow> pyval list \<Rightarrow> exn + pystr list" where
  "chain_lines render [] = Inr []"
| "chain_lines render (chain # rest) =
     (case chain_line render chain of
        Inl e \<Rightarrow> Inl e
      | Inr l \<Rightarrow> (case chain_lines render rest of Inl e \<Rightarrow> Inl e | Inr ls \<Rightarrow> Inr (l # ls)))"

text \<open>\<open>f"[{timestamp}] [{label}] {line}\n"\<close>.\<close>

definition labelled :: "pystr \<Rightarrow> pystr \<Rightarrow> pystr \<Rightarrow> pystr" where
  "labelled timestamp label line =
     ascii ''['' @ timestamp @ ascii ''] ['' @ label @ ascii ''] '' @ line @ [NL]"

text \<open>The lines yielded for one entry: those that are not blank.\<close>

definition entry_lines :: "pystr \<Rightarrow> pystr \<Rightarrow> pystr \<Rightarrow> pystr list" where
  "entry_lines timestamp label log_content =
     map (labelled timestamp label) (filter (\<lambda>line. strip line \<noteq> []) (split_on NL log_content))"

text \<open>
  The last loop of \<open>collect\<close>: what is yielded, and the exception that ends the
  generator when a content has no \<open>split\<close>.
\<close>

fun format_logs :: "log_entry list \<Rightarrow> pystr list \<times> exn option" where
  "format_logs [] = ([], None)"
| "format_logs ((timestamp, label, log_content) # logs) =
     (case log_content of
        PStr s \<Rightarrow>
          (case format_logs logs of
             (out, err) \<Rightarrow> (entry_lines timestamp label s @ out, err))
      | _ \<Rightarrow>
          ([], Some (Exn ''AttributeError''
                       (quoted (type_name log_content) @ ascii '' object has no attribute '' @
                        quoted ''split''))))"

text \<open>
  \<open>MultiSource.collect\<close>, a generator: the strings it yields and, if one does, the
  exception that ends it.
\<close>

definition multi_collect ::
  "(nat \<Rightarrow> pystr) \<Rightarrow> (pyval \<Rightarrow> pystr) \<Rightarrow> multi_source \<Rightarrow> pystr list \<times> exn option" where
  "multi_collect clock render ms =
     (let all_logs = collect_sources clock (source_instances ms) [] 0
      in if all_logs = [] then ([], None)
         else
           (let sorted_logs = sort_key fst all_logs
            in (case (if call_chain ms \<noteq> []
                      then (case chain_lines render (call_chain ms) of
                              Inl e \<Rightarrow> Inl e
                            | Inr ls \<Rightarrow> Inr [join [NL] ls @ [NL, NL]])
                      else Inr []) of
                  Inl e \<Rightarrow> ([], Some e)
                | Inr call_chain_info \<Rightarrow>
                    (case format_logs sorted_logs of
                       (out, err) \<Rightarrow> (call_chain_info @ out, err)))))"

text \<open>
  A sub-source whose \<open>collect()\<close> raises; one whose items are strings (or count as false
  and are skipped); the strings a sub-source gives.
\<close>

definition raises :: "subsource \<Rightarrow> bool" where
  "raises s = (case sub_collect s of CollectRaises e \<Rightarrow> True | _ \<Rightarrow> False)"

fun is_text :: "pyval \<Rightarrow> bool" where
  "is_text (PStr s) = True"
| "is_text v = (\<not> truthy v)"

definition strings_only :: "subsource \<Rightarrow> bool" where
  "strings_only s =
     (case sub_collect s of GaveIterable items err \<Rightarrow> list_all is_text items | _ \<Rightarrow> True)"

fun texts :: "pyval list \<Rightarrow> pystr list" where
  "texts [] = []"
| "texts (PStr s # vs) = s # texts vs"
| "texts (v # vs) = texts vs"

definition contents :: "subsource \<Rightarrow> pystr list" where
  "contents s =
     (case sub_collect s of
        GaveString result \<Rightarrow> [result]
      | GaveIterable items err \<Rightarrow> texts items
      | _ \<Rightarrow> [])"

text \<open>The annotation of the call chain, yielded first when there is a call chain.\<close>

definition annotation :: "(pyval \<Rightarrow> pystr) \<Rightarrow> multi_source \<Rightarrow> pystr list" where
  "annotation render ms =
     (if call_chain ms = [] then []
      else (case chain_lines render (call_chain ms) of
              Inl e \<Rightarrow> []
            | Inr ls \<Rightarrow> [join [NL] ls @ [NL, NL]]))"

text \<open>
  What the aggregator is to yield, after the words of the specification. The contents
  kept are the strings that are not empty of the sub-sources that did not raise, each
  with the label of its sub-source, in the order of the sub-sources; the \<open>n\<close>-th of them
  is stamped with the \<open>n\<close>-th reading of the clock, the time at which it was collected;
  the stream is the non-blank lines of the contents, ordered by their stamps, each in the
  form \<open>[timestamp] [label] line\<close>.
\<close>

definition kept :: "subsource list \<Rightarrow> (pystr \<times> pystr) list" where
  "kept subs =
     concat (map (\<lambda>s. map (\<lambda>c. (sub_label s, c)) (filter (\<lambda>c. c \<noteq> []) (contents s)))
               (filter (\<lambda>s. \<not> raises s) subs))"

definition stamped :: "(nat \<Rightarrow> pystr) \<Rightarrow> (pystr \<times> pystr) list \<Rightarrow> (pystr \<times> pystr \<times> pystr) list" where
  "stamped clock lcs = map (\<lambda>(n, label, c). (clock n, label, c)) (enumerate 0 lcs)"

definition merged :: "(nat \<Rightarrow> pystr) \<Rightarrow> subsource list \<Rightarrow> pystr list" where
  "merged clock subs =
     concat (map (\<lambda>(timestamp, label, c). entry_lines timestamp label c)
               (sort_key fst (stamped clock (kept subs))))"

text \<open>An entry of \<open>all_logs\<close> for a stamped content.\<close>

definition as_entry :: "pystr \<times> pystr \<times> pystr \<Rightarrow> log_entry" where
  "as_entry e = (case e of (timestamp, label, c) \<Rightarrow> (timestamp, label, PStr c))"

lemma collect_sources_skip_raising:
  "collect_sources clock (filter (\<lambda>s. \<not> raises s) subs) all_logs n =
   collect_sources clock subs all_logs n"
proof (induction subs arbitrary: all_logs n)
  case Nil
  then show ?case by simp
next
  case (Cons s subs)
  then show ?case
    by (cases "sub_collect s") (auto simp: raises_def split: prod.splits)
qed

lemma collect_items_texts:
  assumes "list_all is_text items"
  shows "collect_items clock label items all_logs n =
     (all_logs @ map (\<lambda>(k, c). (clock k, label, PStr c))
                   (enumerate n (filter (\<lambda>c. c \<noteq> []) (texts items))),
      n + length (filter (\<lambda>c. c \<noteq> []) (texts items)))"
  using assms
proof (induction items arbitrary: all_logs n)
  case Nil
  then show ?case by simp
next
  case (Cons x items)
  then show ?case by (cases x) auto
qed

lemma enumerate_map:
  "enumerate n (map f xs) = map (\<lambda>(k, x). (k, f x)) (enumerate n xs)"
  by (induction xs arbitrary: n) simp_all

lemma kept_Cons:
  "kept (s # subs) =
     (if raises s then []
      else map (\<lambda>c. (sub_label s, c)) (filter (\<lambda>c. c \<noteq> []) (contents s))) @ kept subs"
  by (simp add: kept_def)

lemma collect_sources_kept:
  assumes "list_all strings_only subs"
  shows "collect_sources clock subs all_logs n =
     all_logs @ map (\<lambda>(k, label, c). (clock k, label, PStr c)) (enumerate n (kept subs))"
  using assms
proof (induction subs arbitrary: all_logs n)
  case Nil
  then show ?case by (simp add: kept_def)
next
  case (Cons s subs)
  then have IH: "collect_sources clock subs logs k =
      logs @ map (\<lambda>(k, label, c). (clock k, label, PStr c)) (enumerate k (kept subs))" for logs k
    by simp
  show ?case
  proof (cases "sub_collect s")
    case (CollectRaises e)
    then show ?thesis by (simp add: IH kept_Cons raises_def)
  next
    case (GaveString result)
    then show ?thesis
      by (simp add: IH kept_Cons raises_def contents_def enumerate_append_eq)
  next
    case (GaveIterable items err)
    with Cons.prems have "list_all is_text items" by (simp add: strings_only_def)
    from collect_items_texts[OF this] GaveIterable show ?thesis
      by (simp add: IH kept_Cons raises_def contents_def enumerate_append_eq enumerate_map
          split_def comp_def)
  next
    case GaveOther
    then show ?thesis by (simp add: IH kept_Cons raises_def contents_def)
  qed
qed


lemma insort_key_map:
  "insort_key f (g x) (map g xs) = map g (insort_key (\<lambda>x. f (g x)) x xs)"
  by (induction xs) simp_all

lemma sort_key_map: "sort_key f (map g xs) = map g (sort_key (\<lambda>x. f (g x)) xs)"
  by (induction xs) (simp_all add: insort_key_map)

lemma format_logs_entries:
  "format_logs (map as_entry es) =
     (concat (map (\<lambda>(timestamp, label, c). entry_lines timestamp label c) es), None)"
  by (induction es) (auto simp: as_entry_def)

lemma collected_stamped:
  assumes "list_all strings_only subs"
  shows "collect_sources clock subs [] 0 = map as_entry (stamped clock (kept subs))"
  using collect_sources_kept[OF assms, of clock "[]" 0]
  by (simp add: stamped_def as_entry_def split_def comp_def)

lemma multi_collect_merged:
  assumes strs: "list_all strings_only (source_instances ms)"
    and chain: "\<not> isl (chain_lines render (call_chain ms))"
  shows "multi_collect clock render ms =
     ((if kept (source_instances ms) = [] then [] else annotation render ms) @
      merged clock (source_instances ms), None)"
proof -
  let ?es = "stamped clock (kept (source_instances ms))"
  from chain obtain ls where cl: "chain_lines render (call_chain ms) = Inr ls"
    by (cases "chain_lines render (call_chain ms)") auto
  have logs: "collect_sources clock (source_instances ms) [] 0 = map as_entry ?es"
    by (rule collected_stamped[OF strs])
  have key: "(\<lambda>e. fst (as_entry e)) = fst" by (auto simp: as_entry_def)
  have sorted: "sort_key fst (map as_entry ?es) = map as_entry (sort_key fst ?es)"
    by (simp add: sort_key_map key)
  have empty: "?es = [] \<longleftrightarrow> kept (source_instances ms) = []"
    by (simp add: stamped_def enumerate_eq_zip)
  show ?thesis
  proof (cases "kept (source_instances ms) = []")
    case True
    then show ?thesis
      by (simp add: multi_collect_def logs merged_def stamped_def)
  next
    case False
    with empty have "?es \<noteq> []" by simp
    with False show ?thesis
      unfolding multi_collect_def logs Let_def sorted format_logs_entries
      by (simp add: annotation_def cl merged_def)
  qed
qed

lemma stamped_nth: "stamped clock lcs = map (\<lambda>n. (clock n, lcs ! n)) [0..<length lcs]"
  by (rule nth_equalityI) (simp_all add: stamped_def nth_enumerate_eq split_def)

lemma kept_mem:
  "(label, c) \<in> set (kept subs) \<longleftrightarrow>
     (\<exists>s \<in> set subs. \<not> raises s \<and> label = sub_label s \<and> c \<in> set (contents s) \<and> c \<noteq> [])"
  by (auto simp: kept_def)

lemma merged_mem:
  "entry \<in> set (merged clock subs) \<longleftrightarrow>
     (\<exists>n line. n < length (kept subs) \<and>
        entry = labelled (clock n) (fst (kept subs ! n)) line \<and>
        line \<in> set (split_on NL (snd (kept subs ! n))) \<and> strip line \<noteq> [])"
  by (auto simp: merged_def stamped_nth entry_lines_def split_def)

lemma blank_content: "line \<in> set (split_on NL []) \<Longrightarrow> strip line = []"
  by (simp add: strip_def)

lemma merged_complete:
  assumes "s \<in> set subs" "\<not> raises s" "c \<in> set (contents s)"
    and "line \<in> set (split_on NL c)" "strip line \<noteq> []"
  shows "\<exists>n. labelled (clock n) (sub_label s) line \<in> set (merged clock subs)"
proof -
  from assms(4,5) have "c \<noteq> []" using blank_content by blast
  with assms(1-3) have "(sub_label s, c) \<in> set (kept subs)" by (auto simp: kept_mem)
  then obtain n where "n < length (kept subs)" "kept subs ! n = (sub_label s, c)"
    by (auto simp: in_set_conv_nth)
  with assms(4,5) show ?thesis unfolding merged_mem by force
qed

lemma merged_sound:
  assumes "entry \<in> set (merged clock subs)"
  shows "\<exists>s \<in> set subs. \<not> raises s \<and>
     (\<exists>n c line. entry = labelled (clock n) (sub_label s) line \<and> c \<in> set (contents s) \<and>
        line \<in> set (split_on NL c) \<and> strip line \<noteq> [])"
proof -
  from assms obtain n line where n: "n < length (kept subs)"
    and e: "entry = labelled (clock n) (fst (kept subs ! n)) line"
    and l: "line \<in> set (split_on NL (snd (kept subs ! n)))" "strip line \<noteq> []"
    unfolding merged_mem by blast
  from n have "(fst (kept subs ! n), snd (kept subs ! n)) \<in> set (kept subs)" by simp
  then obtain s where "s \<in> set subs" "\<not> raises s" "fst (kept subs ! n) = sub_label s"
      "snd (kept subs ! n) \<in> set (contents s)"
    unfolding kept_mem by blast
  with e l show ?thesis by auto
qed

lemma multi_collect_cong:
  "collect_sources clock (source_instances ms1) [] 0 =
   collect_sources clock (source_instances ms2) [] 0 \<Longrightarrow>
   call_chain ms1 = call_chain ms2 \<Longrightarrow>
   multi_collect clock render ms1 = multi_collect clock render ms2"
proof -
  assume a: "collect_sources clock (source_instances ms1) [] 0 =
      collect_sources clock (source_instances ms2) [] 0"
    and b: "call_chain ms1 = call_chain ms2"
  show ?thesis unfolding multi_collect_def a b ..
qed

text \<open>
  Claim C8, as the code has it. A \<open>MultiSource\<close> of three sub-sources, exactly one of
  which raises in \<open>collect()\<close>, the others giving strings, and a call chain whose
  entries can be printed: \<open>collect\<close> ends without an exception. What it yields is the
  annotation of the call chain (when a call chain is configured and something was
  collected) followed by the merged stream of the two other sub-sources: every
  non-blank line of every string they gave, in the form \<open>[timestamp] [label] line\<close> with
  a newline at its end, stamped with the time at which its string was collected, and
  nothing else. It is also what the \<open>MultiSource\<close> of the two other sub-sources yields.
\<close>

theorem multi_collect_partial_failure:
  assumes three: "source_instances ms = [s1, s2, s3]"
    and one: "how_many raises [s1, s2, s3] = 1"
    and strs: "list_all strings_only [s1, s2, s3]"
    and chain: "\<not> isl (chain_lines render (call_chain ms))"
  shows "multi_collect clock render ms =
           ((if kept [s1, s2, s3] = [] then [] else annotation render ms) @
            merged clock [s1, s2, s3], None) \<and>
         (\<forall>s \<in> set [s1, s2, s3]. \<not> raises s \<longrightarrow>
            (\<forall>c \<in> set (contents s). \<forall>line \<in> set (split_on NL c). strip line \<noteq> [] \<longrightarrow>
               (\<exists>n. labelled (clock n) (sub_label s) line \<in> set (merged clock [s1, s2, s3])))) \<and>
         (\<forall>entry \<in> set (merged clock [s1, s2, s3]).
            \<exists>s \<in> set [s1, s2, s3]. \<not> raises s \<and>
              (\<exists>n c line. entry = labelled (clock n) (sub_label s) line \<and>
                 c \<in> set (contents s) \<and> line \<in> set (split_on NL c) \<and> strip line \<noteq> [])) \<and>
         length (filter (\<lambda>s. \<not> raises s) [s1, s2, s3]) = 2 \<and>
         multi_collect clock render ms =
           multi_collect clock render
             (ms\<lparr>source_instances := filter (\<lambda>s. \<not> raises s) [s1, s2, s3]\<rparr>)"
proof -
  let ?subs = "[s1, s2, s3]"
  have res: "multi_collect clock render ms =
      ((if kept ?subs = [] then [] else annotation render ms) @ merged clock ?subs, None)"
    using multi_collect_merged[of ms render clock] strs chain unfolding three by simp
  have complete: "\<forall>s \<in> set ?subs. \<not> raises s \<longrightarrow>
      (\<forall>c \<in> set (contents s). \<forall>line \<in> set (split_on NL c). strip line \<noteq> [] \<longrightarrow>
         (\<exists>n. labelled (clock n) (sub_label s) line \<in> set (merged clock ?subs)))"
    using merged_complete[of _ ?subs _ _ clock] by blast
  have sound: "\<forall>entry \<in> set (merged clock ?subs).
      \<exists>s \<in> set ?subs. \<not> raises s \<and>
        (\<exists>n c line. entry = labelled (clock n) (sub_label s) line \<and>
           c \<in> set (contents s) \<and> line \<in> set (split_on NL c) \<and> strip line \<noteq> [])"
    using merged_sound[of _ clock ?subs] by blast
  have same: "multi_collect clock render ms =
      multi_collect clock render (ms\<lparr>source_instances := filter (\<lambda>s. \<not> raises s) ?subs\<rparr>)"
  proof -
    have "collect_sources clock (filter (\<lambda>s. \<not> raises s) ?subs) [] 0 =
        collect_sources clock ?subs [] 0"
      by (rule collect_sources_skip_raising)
    then show ?thesis
      by (intro multi_collect_cong) (simp_all add: three del: collect_sources.simps filter.simps)
  qed
  have two: "length (filter (\<lambda>s. \<not> raises s) ?subs) = 2"
  proof -
    have "length (filter (\<lambda>s. \<not> raises s) ?subs) + how_many raises ?subs = length ?subs"
      unfolding how_many_def by (metis sum_length_filter_compl add.commute)
    with one show ?thesis by simp
  qed
  from res complete sound two same show ?thesis by blast
qed

text \<open>Three sub-sources, the second of which raises, for the examples.\<close>

definition example_clock :: "nat \<Rightarrow> pystr" where
  "example_clock n = ascii ''2026-01-01 00:00:0'' @ decimal n"

definition web_source :: subsource where
  "web_source =
     \<lparr>sub_label = ascii ''web'',
      sub_collect = GaveString (ascii ''boot'' @ [NL] @ ascii ''ERROR x'')\<rparr>"

definition api_source :: subsource where
  "api_source =
     \<lparr>sub_label = ascii ''api'',
      sub_collect = CollectRaises (Exn ''RuntimeError'' (ascii ''docker down''))\<rparr>"

definition db_source :: subsource where
  "db_source =
     \<lparr>sub_label = ascii ''db'', sub_collect = GaveIterable [PStr (ascii ''slow query'')] None\<rparr>"

definition example_multi :: multi_source where
  "example_multi = \<lparr>source_instances = [web_source, api_source, db_source], call_chain = []\<rparr>"

definition example_chain :: pyval where
  "example_chain = PDict [(ascii ''from'', PStr (ascii ''web'')), (ascii ''to'', PStr (ascii ''api''))]"

lemma example_sources:
  "how_many raises [web_source, api_source, db_source] = 1"
  "list_all strings_only [web_source, api_source, db_source]"
  by (simp_all add: how_many_def raises_def strings_only_def web_source_def api_source_def
      db_source_def)

lemma example_kept:
  "kept [web_source, api_source, db_source] =
     [(ascii ''web'', ascii ''boot'' @ [NL] @ ascii ''ERROR x''),
      (ascii ''db'', ascii ''slow query'')]"
  by (simp add: kept_def raises_def contents_def web_source_def api_source_def db_source_def
      ascii_def)

lemma example_merged:
  "merged example_clock [web_source, api_source, db_source] =
     [labelled (ascii ''2026-01-01 00:00:00'') (ascii ''web'') (ascii ''boot''),
      labelled (ascii ''2026-01-01 00:00:00'') (ascii ''web'') (ascii ''ERROR x''),
      labelled (ascii ''2026-01-01 00:00:01'') (ascii ''db'') (ascii ''slow query'')]"
  unfolding merged_def example_kept
  by (simp add: stamped_def example_clock_def decimal.simps entry_lines_def ascii_def NL_def
      strip_def is_space_def)

theorem multi_collect_partial_failure_witness:
  "how_many raises [web_source, api_source, db_source] = 1 \<and>
   list_all strings_only [web_source, api_source, db_source] \<and>
   multi_collect example_clock (\<lambda>v. []) example_multi =
     ([labelled (ascii ''2026-01-01 00:00:00'') (ascii ''web'') (ascii ''boot''),
       labelled (ascii ''2026-01-01 00:00:00'') (ascii ''web'') (ascii ''ERROR x''),
       labelled (ascii ''2026-01-01 00:00:01'') (ascii ''db'') (ascii ''slow query'')],
      None) \<and>
   multi_collect example_clock (\<lambda>v. []) example_multi =
     multi_collect example_clock (\<lambda>v. [])
       (example_multi\<lparr>source_instances :=
          filter (\<lambda>s. \<not> raises s) [web_source, api_source, db_source]\<rparr>)"
proof -
  have three: "source_instances example_multi = [web_source, api_source, db_source]"
    by (simp add: example_multi_def)
  have chain: "\<not> isl (chain_lines (\<lambda>v. []) (call_chain example_multi))"
    by (simp add: example_multi_def)
  have none: "annotation (\<lambda>v. []) example_multi = []"
    by (simp add: annotation_def example_multi_def)
  from multi_collect_partial_failure[OF three example_sources chain, of example_clock]
  have "multi_collect example_clock (\<lambda>v. []) example_multi =
       ((if kept [web_source, api_source, db_source] = [] then []
         else annotation (\<lambda>v. []) example_multi) @
        merged example_clock [web_source, api_source, db_source], None)"
    "multi_collect example_clock (\<lambda>v. []) example_multi =
       multi_collect example_clock (\<lambda>v. [])
         (example_multi\<lparr>source_instances :=
            filter (\<lambda>s. \<not> raises s) [web_source, api_source, db_source]\<rparr>)"
    by blast+
  with example_sources none show ?thesis by (simp add: example_merged)
qed

text \<open>
  With a call chain configured, the first string yielded is the annotation, which is not
  a labelled line of a sub-source.
\<close>

lemma example_multi_output:
  "multi_collect example_clock (\<lambda>v. []) (example_multi\<lparr>call_chain := [example_chain]\<rparr>) =
     ([call_relation @ ascii ''web -> api (unknown)'' @ [NL, NL],
       labelled (ascii ''2026-01-01 00:00:00'') (ascii ''web'') (ascii ''boot''),
       labelled (ascii ''2026-01-01 00:00:00'') (ascii ''web'') (ascii ''ERROR x''),
       labelled (ascii ''2026-01-01 00:00:01'') (ascii ''db'') (ascii ''slow query'')],
      None)"
  by (simp add: multi_collect_def example_multi_def web_source_def api_source_def db_source_def
      example_clock_def decimal.simps example_chain_def chain_line_def py_item_def py_get_def
      py_str_def entry_lines_def ascii_def NL_def strip_def is_space_def Let_def)

theorem multi_collect_annotation_counterexample:
  "hd (fst (multi_collect example_clock (\<lambda>v. []) (example_multi\<lparr>call_chain := [example_chain]\<rparr>))) =
     call_relation @ ascii ''web -> api (unknown)'' @ [NL, NL] \<and>
   \<not> startswith (call_relation @ ascii ''web -> api (unknown)'' @ [NL, NL]) (ascii ''['') \<and>
   how_many raises (source_instances (example_multi\<lparr>call_chain := [example_chain]\<rparr>)) = 1"
proof (intro conjI)
  show "hd (fst (multi_collect example_clock (\<lambda>v. [])
          (example_multi\<lparr>call_chain := [example_chain]\<rparr>))) =
      call_relation @ ascii ''web -> api (unknown)'' @ [NL, NL]"
    by (simp add: example_multi_output)
  show "\<not> startswith (call_relation @ ascii ''web -> api (unknown)'' @ [NL, NL]) (ascii ''['')"
    by (simp add: call_relation_def ascii_def)
  show "how_many raises (source_instances (example_multi\<lparr>call_chain := [example_chain]\<rparr>)) = 1"
    using example_sources(1) by (simp add: example_multi_def)
qed


section \<open>The run of a task, database analysis\<close>

text \<open>
  \<open>_run_task\<close> of db_ops_analyzer/task.py. The plugins are objects of other modules.
  Of a source the model keeps what its \<open>collect()\<close> does (it raises, or it returns the
  data); of a sink, what \<open>save\<close> does with a report (it raises, or it returns). The
  plugins depend on what is installed and on the systems they talk to, so they are
  parameters: the \<open>import\<close> of the module of a plugin gives its class or raises, and
  the class, called with the keyword arguments, gives the object or raises. The clock
  is a parameter, and so is what the classes of the exceptions inherit from.
\<close>

type_synonym source = "exn + pyval"

type_synonym sink = "pystr \<Rightarrow> exn + pyval"

record db_world =
  source_class :: "pystr \<Rightarrow> exn + (pyval \<Rightarrow> exn + source)"
  analyzer_class :: "exn + (pyval \<Rightarrow> exn + db_analyzer)"
  sink_class :: "exn + (pyval \<Rightarrow> exn + sink)"
  ancestors :: "string \<Rightarrow> string list"
  render :: "pyval \<Rightarrow> pystr"
  timestamp_now :: pystr
  report_created_at :: pystr
  finished_at :: pystr

text \<open>
  \<open>f(**params)\<close> needs a mapping; the message names the callable, a class by its module
  and its name.
\<close>

definition as_kwargs :: "string \<Rightarrow> pyval \<Rightarrow> exn + pyval" where
  "as_kwargs callee params =
     (case params of
        PDict kvs \<Rightarrow> Inr params
      | _ \<Rightarrow>
          Inl (Exn ''TypeError''
                 (ascii callee @ ascii ''() argument after ** must be a mapping, not '' @
                  ascii (type_name params))))"

text \<open>The classes of the plugins, by module and name.\<close>

definition db_source_callee :: "pystr \<Rightarrow> string" where
  "db_source_callee name =
     (if name = ascii ''mysql'' then ''db_ops_analyzer.plugins.sources.mysql.MySQLSource''
      else if name = ascii ''postgresql''
        then ''db_ops_analyzer.plugins.sources.postgresql.PostgreSQLSource''
      else if name = ascii ''redis'' then ''db_ops_analyzer.plugins.sources.redis.RedisSource''
      else ''db_ops_analyzer.plugins.sources.mongodb.MongoDBSource'')"

definition db_analyzer_callee :: string where
  "db_analyzer_callee = ''db_ops_analyzer.plugins.analyzers.langgraph.LangGraphAnalyzer''"

definition db_sink_callee :: string where
  "db_sink_callee = ''db_ops_analyzer.plugins.sinks.file.FileSink''"

definition unknown_source :: pystr where
  "unknown_source = [26410, 30693, 30340, 83, 111, 117, 114, 99, 101, 25554, 20214, 58, 32]"

definition unknown_analyzer :: pystr where
  "unknown_analyzer =
     [26410, 30693, 30340, 65, 110, 97, 108, 121, 122, 101, 114, 25554, 20214, 58, 32]"

definition connection_failed :: pystr where
  "connection_failed = [25968, 25454, 24211, 36830, 25509, 22833, 36133, 58, 32]"

definition db_source_names :: "pystr list" where
  "db_source_names = [ascii ''mysql'', ascii ''postgresql'', ascii ''redis'', ascii ''mongodb'']"

text \<open>
  \<open>create_source\<close>: the module is imported, the class is called; an exception is
  logged and raised again.
\<close>

definition db_create_source :: "db_world \<Rightarrow> pyval \<Rightarrow> exn + source" where
  "db_create_source w source_config =
     (case py_get source_config (ascii ''name'') PNone of
        Inl e \<Rightarrow> Inl e
      | Inr source_name \<Rightarrow>
     (case py_get source_config (ascii ''params'') (PDict []) of
        Inl e \<Rightarrow> Inl e
      | Inr source_params \<Rightarrow>
          (case source_name of
             PStr name \<Rightarrow>
               if name \<in> set db_source_names
               then (case source_class w name of
                       Inl e \<Rightarrow> Inl e
                     | Inr cls \<Rightarrow>
                         (case as_kwargs (db_source_callee name) source_params of
                            Inl e \<Rightarrow> Inl e
                          | Inr kwargs \<Rightarrow> cls kwargs))
               else Inl (Exn ''ValueError'' (unknown_source @ name))
           | _ \<Rightarrow> Inl (Exn ''ValueError'' (unknown_source @ py_str (render w) source_name)))))"

definition db_create_analyzer :: "db_world \<Rightarrow> pyval \<Rightarrow> exn + db_analyzer" where
  "db_create_analyzer w analyzer_config =
     (case py_get analyzer_config (ascii ''name'') PNone of
        Inl e \<Rightarrow> Inl e
      | Inr analyzer_name \<Rightarrow>
     (case py_get analyzer_config (ascii ''params'') (PDict []) of
        Inl e \<Rightarrow> Inl e
      | Inr analyzer_params \<Rightarrow>
          if analyzer_name = PStr (ascii ''langgraph'')
          then (case analyzer_class w of
                  Inl e \<Rightarrow> Inl e
                | Inr cls \<Rightarrow>
                    (case as_kwargs db_analyzer_callee analyzer_params of
                       Inl e \<Rightarrow> Inl e
                     | Inr kwargs \<Rightarrow> cls kwargs))
          else Inl (Exn ''ValueError''
                      (unknown_analyzer @ py_str (render w) analyzer_name))))"

text \<open>\<open>for x in v\<close>: the items, or the \<open>TypeError\<close> of a value that cannot be iterated.\<close>

definition py_iter :: "pyval \<Rightarrow> exn + pyval list" where
  "py_iter v =
     (case v of
        PList vs \<Rightarrow> Inr vs
      | PDict kvs \<Rightarrow> Inr (map (\<lambda>kv. PStr (fst kv)) kvs)
      | PStr s \<Rightarrow> Inr (map (\<lambda>c. PStr [c]) s)
      | _ \<Rightarrow> Inl (Exn ''TypeError'' (quoted (type_name v) @ ascii '' object is not iterable'')))"

text \<open>
  \<open>create_sinks\<close>: a sink that cannot be built, or that is not known, is skipped; the
  reading of \<open>name\<close> and \<open>params\<close> is outside the \<open>try\<close>.
\<close>

fun db_sinks_loop :: "db_world \<Rightarrow> pyval list \<Rightarrow> sink list \<Rightarrow> exn + sink list" where
  "db_sinks_loop w [] sinks = Inr sinks"
| "db_sinks_loop w (sink_config # rest) sinks =
     (case py_get sink_config (ascii ''name'') PNone of
        Inl e \<Rightarrow> Inl e
      | Inr sink_name \<Rightarrow>
     (case py_get sink_config (ascii ''params'') (PDict []) of
        Inl e \<Rightarrow> Inl e
      | Inr sink_params \<Rightarrow>
          if sink_name = PStr (ascii ''file'')
          then (case sink_class w of
                  Inl e \<Rightarrow> db_sinks_loop w rest sinks
                | Inr cls \<Rightarrow>
                    (case as_kwargs db_sink_callee sink_params of
                       Inl e \<Rightarrow> db_sinks_loop w rest sinks
                     | Inr kwargs \<Rightarrow>
                         (case cls kwargs of
                            Inl e \<Rightarrow> db_sinks_loop w rest sinks
                          | Inr s \<Rightarrow> db_sinks_loop w rest (sinks @ [s]))))
          else db_sinks_loop w rest sinks))"

definition db_create_sinks :: "db_world \<Rightarrow> pyval \<Rightarrow> exn + sink list" where
  "db_create_sinks w sinks_config =
     (case py_iter sinks_config of
        Inl e \<Rightarrow> Inl e
      | Inr configs \<Rightarrow> db_sinks_loop w configs [])"

text \<open>
  The plugins of a run, as the first lines of the \<open>try\<close> build them: the source, the
  analyzer, the sinks.
\<close>

definition db_plugins :: "db_world \<Rightarrow> pyval \<Rightarrow> exn + (source \<times> db_analyzer \<times> sink list)" where
  "db_plugins w task_config =
     (case py_item task_config ''source'' of
        Inl e \<Rightarrow> Inl e
      | Inr source_config \<Rightarrow>
     (case db_create_source w source_config of
        Inl e \<Rightarrow> Inl e
      | Inr source \<Rightarrow>
     (case py_item task_config ''analyzer'' of
        Inl e \<Rightarrow> Inl e
      | Inr analyzer_config \<Rightarrow>
     (case db_create_analyzer w analyzer_config of
        Inl e \<Rightarrow> Inl e
      | Inr analyzer \<Rightarrow>
     (case py_get task_config (ascii ''sinks'') (PList []) of
        Inl e \<Rightarrow> Inl e
      | Inr sinks_config \<Rightarrow>
     (case db_create_sinks w sinks_config of
        Inl e \<Rightarrow> Inl e
      | Inr sinks \<Rightarrow> Inr (source, analyzer, sinks)))))))"

text \<open>The class that \<open>except ConnectionError\<close> names, a built-in class.\<close>

definition connection_error :: string where
  "connection_error = ''ConnectionError''"

text \<open>\<open>s.title()\<close>, for the letters of ASCII.\<close>

fun title_from :: "bool \<Rightarrow> pystr \<Rightarrow> pystr" where
  "title_from cased [] = []"
| "title_from cased (c # cs) =
     (if 97 \<le> c \<and> c \<le> 122 then (if cased then c else c - 32) # title_from True cs
      else if 65 \<le> c \<and> c \<le> 90 then (if cased then c + 32 else c) # title_from True cs
      else c # title_from False cs)"

definition py_title :: "pyval \<Rightarrow> exn + pyval" where
  "py_title v =
     (case v of
        PStr s \<Rightarrow> Inr (PStr (title_from False s))
      | _ \<Rightarrow>
          Inl (Exn ''AttributeError''
                 (quoted (type_name v) @ ascii '' object has no attribute '' @ quoted ''title'')))"

text \<open>\<open>task_config['source'].get('params', {}).get(key, 'Unknown')\<close>.\<close>

definition source_param :: "pyval \<Rightarrow> string \<Rightarrow> exn + pyval" where
  "source_param source_config key =
     (case py_get source_config (ascii ''params'') (PDict []) of
        Inl e \<Rightarrow> Inl e
      | Inr params \<Rightarrow> py_get params (ascii key) (PStr unknown_text))"

text \<open>The dict \<open>error_data\<close> of the \<open>except ConnectionError\<close> clause.\<close>

definition error_data :: "pyval \<Rightarrow> exn \<Rightarrow> exn + pyval" where
  "error_data task_config e =
     (case py_item task_config ''source'' of
        Inl e' \<Rightarrow> Inl e'
      | Inr source_config \<Rightarrow>
     (case py_get source_config (ascii ''name'') (PStr unknown_text) of
        Inl e' \<Rightarrow> Inl e'
      | Inr name \<Rightarrow>
     (case py_title name of
        Inl e' \<Rightarrow> Inl e'
      | Inr database_type \<Rightarrow>
     (case source_param source_config ''host'' of
        Inl e' \<Rightarrow> Inl e'
      | Inr host \<Rightarrow>
     (case source_param source_config ''port'' of
        Inl e' \<Rightarrow> Inl e'
      | Inr port \<Rightarrow>
     (case source_param source_config ''database'' of
        Inl e' \<Rightarrow> Inl e'
      | Inr database \<Rightarrow>
          Inr (PDict [(ascii ''database_type'', database_type), (ascii ''host'', host),
                      (ascii ''port'', port), (ascii ''database'', database),
                      (ascii ''slow_queries'', PList []), (ascii ''processlist'', PList []),
                      (ascii ''tables'', PList []),
                      (ascii ''errors'', PList [PStr (exc_str e)])])))))))"

text \<open>The changes of \<open>run_info\<close>.\<close>

definition update_run :: "executor \<Rightarrow> nat \<Rightarrow> (run \<Rightarrow> run) \<Rightarrow> executor" where
  "update_run ex rid f =
     (case runs ex rid of
        None \<Rightarrow> ex
      | Some r \<Rightarrow> ex\<lparr>runs := (runs ex)(rid \<mapsto> f r)\<rparr>)"

definition db_stage :: "string \<Rightarrow> int \<Rightarrow> run \<Rightarrow> run" where
  "db_stage stage percentage r =
     r\<lparr>run_stage := stage, run_percentage := percentage, run_progress_stage := Some stage\<rparr>"

definition db_failed :: "pystr \<Rightarrow> exn \<Rightarrow> run \<Rightarrow> run" where
  "db_failed at e r =
     r\<lparr>run_status := ''failed'', run_stage := ''failed'', run_percentage := 0,
       run_progress_stage := Some ''failed'', run_finished_at := Some at,
       run_error := Some (exc_str e)\<rparr>"

definition db_report ::
  "db_world \<Rightarrow> nat \<Rightarrow> pystr \<Rightarrow> pyval \<Rightarrow> pystr \<Rightarrow> report" where
  "db_report w rid task_name database content =
     \<lparr>report_id = timestamp_now w @ ascii ''_'' @ task_name, report_run = rid,
      report_task = task_name, report_label = database, report_content = content,
      report_file_path = PNone, report_minio_path = PNone,
      report_created_at = report_created_at w, report_timestamp = timestamp_now w\<rparr>"

definition store_report :: "executor \<Rightarrow> pystr \<Rightarrow> report \<Rightarrow> executor" where
  "store_report ex key rep = ex\<lparr>reports := (reports ex)(key \<mapsto> rep)\<rparr>"

text \<open>
  The \<open>except ConnectionError\<close> clause: the run is marked failed, the error report is
  built by a second analyzer and stored, and \<open>_run_task\<close> returns. An exception in the
  clause leaves it for the outer \<open>except\<close>.
\<close>

definition db_connection_failed ::
  "db_world \<Rightarrow> executor \<Rightarrow> nat \<Rightarrow> pystr \<Rightarrow> pyval \<Rightarrow> exn \<Rightarrow> exn option \<times> executor" where
  "db_connection_failed w ex rid task_name task_config e =
     (let ex1 = update_run ex rid (db_failed (finished_at w) e)
      in (case error_data task_config e of
            Inl e' \<Rightarrow> (Some e', ex1)
          | Inr data \<Rightarrow>
         (case py_get task_config (ascii ''analyzer'') (PDict []) of
            Inl e' \<Rightarrow> (Some e', ex1)
          | Inr analyzer_config \<Rightarrow>
         (case db_create_analyzer w analyzer_config of
            Inl e' \<Rightarrow> (Some e', ex1)
          | Inr temp_analyzer \<Rightarrow>
         (case format_error_report temp_analyzer (connection_failed @ exc_str e) data of
            Inl e' \<Rightarrow> (Some e', ex1)
          | Inr result \<Rightarrow>
         (case py_get data (ascii ''database'') (PStr (ascii ''all'')) of
            Inl e' \<Rightarrow> (Some e', ex1)
          | Inr database \<Rightarrow>
             (let report_key = timestamp_now w @ ascii ''_'' @ task_name;
                  ex2 = store_report ex1 report_key (db_report w rid task_name database result);
                  ex3 = update_run ex2 rid (\<lambda>r. r\<lparr>run_report_id := Some report_key\<rparr>)
              in (case py_get task_config (ascii ''sinks'') (PList []) of
                    Inl e' \<Rightarrow> (Some e', ex3)
                  | Inr sinks_config \<Rightarrow>
                      (case db_create_sinks w sinks_config of
                         Inl e' \<Rightarrow> (Some e', ex3)
                       | Inr sinks \<Rightarrow> (None, ex3))))))))))"

text \<open>
  The body of the \<open>try\<close>: the exception that leaves it, if one does, and the executor
  at that moment. The calls of \<open>sink.save\<close> are each in a \<open>try\<close> of their own and change
  nothing here.
\<close>

definition db_try ::
  "db_world \<Rightarrow> executor \<Rightarrow> nat \<Rightarrow> pystr \<Rightarrow> pyval \<Rightarrow> exn option \<times> executor" where
  "db_try w ex rid task_name task_config =
     (let ex0 = update_run ex rid (db_stage ''collecting'' 10)
      in (case db_plugins w task_config of
            Inl e \<Rightarrow> (Some e, ex0)
          | Inr (source, analyzer, sinks) \<Rightarrow>
              (case source of
                 Inl e \<Rightarrow>
                   if caught_by (ancestors w) connection_error e
                   then db_connection_failed w ex0 rid task_name task_config e
                   else (Some e, ex0)
               | Inr data \<Rightarrow>
                   (let ex1 = update_run ex0 rid (db_stage ''analyzing'' 50)
                    in (case db_analyze analyzer data of
                          Inl e \<Rightarrow> (Some e, ex1)
                        | Inr result \<Rightarrow>
                            (let ex2 = update_run ex1 rid (db_stage ''saving'' 90);
                                 report_key = timestamp_now w @ ascii ''_'' @ task_name;
                                 database_name =
                                   (case data of
                                      PDict kvs \<Rightarrow>
                                        (case map_of kvs (ascii ''database'') of
                                           None \<Rightarrow> PStr (ascii ''all'')
                                         | Some v \<Rightarrow> v)
                                    | _ \<Rightarrow> PStr (ascii ''all''));
                                 ex3 = store_report ex2 report_key
                                         (db_report w rid task_name database_name result)
                             in (None,
                                 update_run ex3 rid
                                   (\<lambda>r. (db_stage ''finished'' 100 r)
                                      \<lparr>run_status := ''completed'',
                                       run_finished_at := Some (finished_at w),
                                       run_report_id := Some report_key\<rparr>))))))))"

text \<open>
  \<open>_run_task\<close>. \<open>self.runs[run_id]\<close> is read before the \<open>try\<close>: for a run that is not
  recorded the thread ends with a \<open>KeyError\<close> and nothing changes.
\<close>

definition db_run_task :: "db_world \<Rightarrow> executor \<Rightarrow> nat \<Rightarrow> pystr \<Rightarrow> pyval \<Rightarrow> executor" where
  "db_run_task w ex rid task_name task_config =
     (case runs ex rid of
        None \<Rightarrow> ex
      | Some run_info \<Rightarrow>
          (case db_try w ex rid task_name task_config of
             (None, ex') \<Rightarrow> ex'
           | (Some e, ex') \<Rightarrow> update_run ex' rid (db_failed (finished_at w) e)))"


section \<open>The run of a task, log analysis\<close>

text \<open>
  \<open>_run_task\<close> of log_analyzer/task.py. A source is what its \<open>collect()\<close> does, as for
  the sub-sources of the aggregator; of a sink the model keeps whether the name of its
  class holds \<open>minio\<close> and what \<open>save\<close> does. As for the database analysis, the
  \<open>import\<close> of the module of a plugin gives its class or raises, and the class is
  called with the keyword arguments. \<open>percent\<close> is \<open>int(processed / total * 100)\<close>, a
  computation in floating point.
\<close>

record log_sink =
  sink_is_minio :: bool
  sink_save :: "pystr \<Rightarrow> exn + pyval"

record log_world =
  log_source_class :: "pystr \<Rightarrow> exn + (pyval \<Rightarrow> exn + collected)"
  log_analyzer_class :: "exn + (pyval \<Rightarrow> exn + analyzer)"
  log_sink_class :: "pystr \<Rightarrow> exn + (pyval \<Rightarrow> exn + log_sink)"
  log_schedule :: "nat list"
  log_object_str :: pystr
  log_percent :: "nat \<Rightarrow> nat \<Rightarrow> int"
  log_render :: "pyval \<Rightarrow> pystr"
  log_timestamp :: pystr
  log_created_at :: pystr
  log_finished_at :: pystr

definition log_source_names :: "pystr list" where
  "log_source_names = [ascii ''multi'', ascii ''docker'', ascii ''file'']"

definition log_sink_names :: "pystr list" where
  "log_sink_names = [ascii ''database'', ascii ''file'', ascii ''minio'']"

definition log_source_callee :: "pystr \<Rightarrow> string" where
  "log_source_callee name =
     (if name = ascii ''multi'' then ''log_analyzer.plugins.sources.multi.MultiSource''
      else if name = ascii ''docker'' then ''log_analyzer.plugins.sources.docker.DockerSource''
      else ''log_analyzer.plugins.sources.file.FileSource'')"

definition log_sink_callee :: "pystr \<Rightarrow> string" where
  "log_sink_callee name =
     (if name = ascii ''database'' then ''log_analyzer.plugins.sinks.database.DatabaseSink''
      else if name = ascii ''file'' then ''log_analyzer.plugins.sinks.file.FileSink''
      else ''log_analyzer.plugins.sinks.minio.MinIOSink'')"

definition log_create_source :: "log_world \<Rightarrow> pyval \<Rightarrow> exn + collected" where
  "log_create_source w source_config =
     (case py_get source_config (ascii ''name'') PNone of
        Inl e \<Rightarrow> Inl e
      | Inr source_name \<Rightarrow>
     (case py_get source_config (ascii ''params'') (PDict []) of
        Inl e \<Rightarrow> Inl e
      | Inr source_params \<Rightarrow>
          (case source_name of
             PStr name \<Rightarrow>
               if name \<in> set log_source_names
               then (case log_source_class w name of
                       Inl e \<Rightarrow> Inl e
                     | Inr cls \<Rightarrow>
                         (case as_kwargs (log_source_callee name) source_params of
                            Inl e \<Rightarrow> Inl e
                          | Inr kwargs \<Rightarrow> cls kwargs))
               else Inl (Exn ''ValueError'' (unknown_source @ name))
           | _ \<Rightarrow> Inl (Exn ''ValueError'' (unknown_source @ py_str (log_render w) source_name)))))"

text \<open>
  \<open>analyzer_params['progress_callback'] = ...\<close>: the parameters must take an item for
  a key that is a string.
\<close>

definition set_item_error :: "pyval \<Rightarrow> exn" where
  "set_item_error v =
     (case v of
        PList vs \<Rightarrow> Exn ''TypeError'' (ascii ''list indices must be integers or slices, not str'')
      | _ \<Rightarrow>
          Exn ''TypeError''
            (quoted (type_name v) @ ascii '' object does not support item assignment''))"

text \<open>
  \<open>create_analyzer\<close> imports the module, puts the callback into the parameters and
  calls the class; \<open>_run_task\<close> then sets the run id.
\<close>

definition log_create_analyzer :: "log_world \<Rightarrow> nat \<Rightarrow> pyval \<Rightarrow> exn + analyzer" where
  "log_create_analyzer w rid analyzer_config =
     (case py_get analyzer_config (ascii ''name'') PNone of
        Inl e \<Rightarrow> Inl e
      | Inr analyzer_name \<Rightarrow>
     (case py_get analyzer_config (ascii ''params'') (PDict []) of
        Inl e \<Rightarrow> Inl e
      | Inr analyzer_params \<Rightarrow>
          if analyzer_name = PStr (ascii ''langgraph'')
          then (case log_analyzer_class w of
                  Inl e \<Rightarrow> Inl e
                | Inr cls \<Rightarrow>
                    (case analyzer_params of
                       PDict kvs \<Rightarrow>
                         (case cls analyzer_params of
                            Inl e \<Rightarrow> Inl e
                          | Inr a \<Rightarrow>
                              Inr (a\<lparr>progress_callback := True, run_id := Some (int rid)\<rparr>))
                     | _ \<Rightarrow> Inl (set_item_error analyzer_params)))
          else Inl (Exn ''ValueError''
                      (unknown_analyzer @ py_str (log_render w) analyzer_name))))"

fun log_sinks_loop :: "log_world \<Rightarrow> pyval list \<Rightarrow> log_sink list \<Rightarrow> exn + log_sink list" where
  "log_sinks_loop w [] sinks = Inr sinks"
| "log_sinks_loop w (sink_config # rest) sinks =
     (case py_get sink_config (ascii ''name'') PNone of
        Inl e \<Rightarrow> Inl e
      | Inr sink_name \<Rightarrow>
     (case py_get sink_config (ascii ''params'') (PDict []) of
        Inl e \<Rightarrow> Inl e
      | Inr sink_params \<Rightarrow>
          (case sink_name of
             PStr name \<Rightarrow>
               if name \<in> set log_sink_names
               then (case log_sink_class w name of
                       Inl e \<Rightarrow> log_sinks_loop w rest sinks
                     | Inr cls \<Rightarrow>
                         (case as_kwargs (log_sink_callee name) sink_params of
                            Inl e \<Rightarrow> log_sinks_loop w rest sinks
                          | Inr kwargs \<Rightarrow>
                              (case cls kwargs of
                                 Inl e \<Rightarrow> log_sinks_loop w rest sinks
                               | Inr s \<Rightarrow> log_sinks_loop w rest (sinks @ [s]))))
               else log_sinks_loop w rest sinks
           | _ \<Rightarrow> log_sinks_loop w rest sinks)))"

definition log_create_sinks :: "log_world \<Rightarrow> pyval \<Rightarrow> exn + log_sink list" where
  "log_create_sinks w sinks_config =
     (case py_iter sinks_config of
        Inl e \<Rightarrow> Inl e
      | Inr configs \<Rightarrow> log_sinks_loop w configs [])"

definition log_plugins ::
  "log_world \<Rightarrow> nat \<Rightarrow> pyval \<Rightarrow> exn + (collected \<times> analyzer \<times> log_sink list)" where
  "log_plugins w rid task_config =
     (case py_item task_config ''source'' of
        Inl e \<Rightarrow> Inl e
      | Inr source_config \<Rightarrow>
     (case log_create_source w source_config of
        Inl e \<Rightarrow> Inl e
      | Inr source \<Rightarrow>
     (case py_item task_config ''analyzer'' of
        Inl e \<Rightarrow> Inl e
      | Inr analyzer_config \<Rightarrow>
     (case log_create_analyzer w rid analyzer_config of
        Inl e \<Rightarrow> Inl e
      | Inr analyzer \<Rightarrow>
     (case py_get task_config (ascii ''sinks'') (PList []) of
        Inl e \<Rightarrow> Inl e
      | Inr sinks_config \<Rightarrow>
     (case log_create_sinks w sinks_config of
        Inl e \<Rightarrow> Inl e
      | Inr sinks \<Rightarrow> Inr (source, analyzer, sinks)))))))"

text \<open>
  \<open>data = source.collect()\<close> and, for an iterable that is not a string,
  \<open>'\n'.join(data)\<close>, which first takes all the items and then wants strings.
\<close>

fun strings_of :: "nat \<Rightarrow> pyval list \<Rightarrow> exn + pystr list" where
  "strings_of i [] = Inr []"
| "strings_of i (PStr s # vs) =
     (case strings_of (i + 1) vs of Inl e \<Rightarrow> Inl e | Inr ss \<Rightarrow> Inr (s # ss))"
| "strings_of i (v # vs) =
     Inl (Exn ''TypeError''
            (ascii ''sequence item '' @ decimal i @ ascii '': expected str instance, '' @
             ascii (type_name v) @ ascii '' found''))"

definition collect_text :: "log_world \<Rightarrow> collected \<Rightarrow> exn + data" where
  "collect_text w source =
     (case source of
        CollectRaises e \<Rightarrow> Inl e
      | GaveString s \<Rightarrow> Inr (Str s)
      | GaveIterable items err \<Rightarrow>
          (case err of
             Some e \<Rightarrow> Inl e
           | None \<Rightarrow>
               (case strings_of 0 items of
                  Inl e \<Rightarrow> Inl e
                | Inr ss \<Rightarrow> Inr (Str (join [NL] ss))))
      | GaveOther \<Rightarrow> Inr (Object (log_object_str w)))"

text \<open>\<open>_update_progress\<close>, for each call of the callback in turn.\<close>

definition update_progress :: "log_world \<Rightarrow> executor \<Rightarrow> int \<times> nat \<times> nat \<Rightarrow> executor" where
  "update_progress w ex call =
     (case call of
        (rid, total_chunks, processed_chunks) \<Rightarrow>
          if rid < 0 then ex
          else update_run ex (nat rid)
                 (\<lambda>r. r\<lparr>run_chunks := Some (total_chunks, processed_chunks),
                        run_percentage :=
                          (if total_chunks > 0 then log_percent w processed_chunks total_chunks
                           else 0)\<rparr>))"

text \<open>\<open>'/' in result_path\<close>.\<close>

definition has_slash :: "pyval \<Rightarrow> exn + bool" where
  "has_slash v =
     (case v of
        PStr s \<Rightarrow> Inr (47 \<in> set s)
      | PList vs \<Rightarrow> Inr (PStr [47] \<in> set vs)
      | PDict kvs \<Rightarrow> Inr ([47] \<in> set (map fst kvs))
      | _ \<Rightarrow>
          Inl (Exn ''TypeError''
                 (ascii ''argument of type '' @ quoted (type_name v) @ ascii '' is not iterable'')))"

text \<open>The loop over the sinks: \<open>sink_result\<close> and \<open>minio_path\<close>.\<close>

fun log_save_loop :: "log_sink list \<Rightarrow> pystr \<Rightarrow> pyval \<Rightarrow> pyval \<Rightarrow> pyval \<times> pyval" where
  "log_save_loop [] result sink_result minio_path = (sink_result, minio_path)"
| "log_save_loop (sink # sinks) result sink_result minio_path =
     (case sink_save sink result of
        Inl e \<Rightarrow> log_save_loop sinks result sink_result minio_path
      | Inr result_path \<Rightarrow>
          if truthy result_path
          then (let sink_result' = (if \<not> truthy sink_result then result_path else sink_result)
                in if sink_is_minio sink
                   then log_save_loop sinks result sink_result' result_path
                   else (case has_slash result_path of
                           Inl e \<Rightarrow> log_save_loop sinks result sink_result' minio_path
                         | Inr True \<Rightarrow> log_save_loop sinks result sink_result' result_path
                         | Inr False \<Rightarrow> log_save_loop sinks result sink_result' minio_path))
          else log_save_loop sinks result sink_result minio_path)"

definition log_failed :: "pystr \<Rightarrow> exn \<Rightarrow> run \<Rightarrow> run" where
  "log_failed at e r =
     r\<lparr>run_status := ''failed'', run_finished_at := Some at, run_error := Some (exc_str e),
       run_stage := ''failed''\<rparr>"

text \<open>\<open>container_name or run_info.get('container_name', 'all')\<close>.\<close>

definition container_of :: "pystr option \<Rightarrow> run \<Rightarrow> pystr" where
  "container_of container_name r =
     (case container_name of
        Some c \<Rightarrow>
          if c \<noteq> [] then c
          else (case run_container r of None \<Rightarrow> ascii ''all'' | Some rc \<Rightarrow> rc)
      | None \<Rightarrow> (case run_container r of None \<Rightarrow> ascii ''all'' | Some rc \<Rightarrow> rc))"

text \<open>
  The body of the \<open>try\<close>: it ends, an exception leaves it, or the analysis never
  returns; and the executor at that moment.
\<close>

definition log_try ::
  "log_world \<Rightarrow> executor \<Rightarrow> nat \<Rightarrow> pystr \<Rightarrow> pyval \<Rightarrow> pystr option \<Rightarrow> unit outcome \<times> executor"
where
  "log_try w ex rid task_name task_config container_name =
     (let ex0 = update_run ex rid
                  (\<lambda>r. r\<lparr>run_stage := ''collecting'', run_chunks := Some (0, 0),
                         run_percentage := 0\<rparr>)
      in (case log_plugins w rid task_config of
            Inl e \<Rightarrow> (Raises e, ex0)
          | Inr (source, analyzer, sinks) \<Rightarrow>
              (case collect_text w source of
                 Inl e \<Rightarrow> (Raises e, ex0)
               | Inr d \<Rightarrow>
                   (let ex1 = update_run ex0 rid (\<lambda>r. r\<lparr>run_stage := ''analyzing''\<rparr>)
                    in (case analyze analyzer (log_schedule w) d of
                          (res, eff) \<Rightarrow>
                            (let ex2 = foldl (update_progress w) ex1 (progress_log eff)
                             in (case res of
                                   Raises e \<Rightarrow> (Raises e, ex2)
                                 | Hangs \<Rightarrow> (Hangs, ex2)
                                 | Returns result \<Rightarrow>
                                     (let ex3 = update_run ex2 rid (\<lambda>r. r\<lparr>run_stage := ''saving''\<rparr>)
                                      in (case runs ex3 rid of
                                            None \<Rightarrow> (Returns (), ex3)
                                          | Some run_info \<Rightarrow>
     (let container = container_of container_name run_info;
          paths = log_save_loop sinks result PNone PNone;
          report_key = log_timestamp w @ ascii ''_'' @ container;
          rep = \<lparr>report_id = report_key, report_run = rid, report_task = task_name,
                 report_label = PStr container, report_content = result,
                 report_file_path = fst paths, report_minio_path = snd paths,
                 report_created_at = log_created_at w, report_timestamp = log_timestamp w\<rparr>;
          ex4 = store_report (store_report ex3 report_key rep) (decimal rid) rep
      in (Returns (),
          update_run ex4 rid
            (\<lambda>r. r\<lparr>run_status := ''completed'', run_finished_at := Some (log_finished_at w),
                   run_report_id := Some report_key, run_stage := ''finished'',
                   run_percentage := 100\<rparr>))))))))))))"

definition log_run_task ::
  "log_world \<Rightarrow> executor \<Rightarrow> nat \<Rightarrow> pystr \<Rightarrow> pyval \<Rightarrow> pystr option \<Rightarrow> executor" where
  "log_run_task w ex rid task_name task_config container_name =
     (case runs ex rid of
        None \<Rightarrow> ex
      | Some run_info \<Rightarrow>
          (case log_try w ex rid task_name task_config container_name of
             (Returns u, ex') \<Rightarrow> ex'
           | (Hangs, ex') \<Rightarrow> ex'
           | (Raises e, ex') \<Rightarrow> update_run ex' rid (log_failed (log_finished_at w) e)))"


subsection \<open>What a failed run leaves\<close>

text \<open>
  A run that failed and stored no report, and a run that failed and whose error report
  is stored under the key and holds the message of the connection failure.
\<close>

definition failed_without_report :: "executor \<Rightarrow> executor \<Rightarrow> nat \<Rightarrow> exn \<Rightarrow> bool" where
  "failed_without_report ex ex' rid e \<longleftrightarrow>
     reports ex' = reports ex \<and>
     (case runs ex' rid of
        None \<Rightarrow> False
      | Some r \<Rightarrow>
          run_status r = ''failed'' \<and> run_stage r = ''failed'' \<and>
          run_error r = Some (exc_str e))"

definition failed_with_report :: "executor \<Rightarrow> nat \<Rightarrow> pystr \<Rightarrow> exn \<Rightarrow> bool" where
  "failed_with_report ex' rid report_key e \<longleftrightarrow>
     (case runs ex' rid of
        None \<Rightarrow> False
      | Some r \<Rightarrow>
          run_status r = ''failed'' \<and> run_stage r = ''failed'' \<and>
          run_error r = Some (exc_str e) \<and> run_report_id r = Some report_key) \<and>
     (case reports ex' report_key of
        None \<Rightarrow> False
      | Some rep \<Rightarrow>
          report_id rep = report_key \<and> report_run rep = rid \<and>
          contains (report_content rep) (connection_failed @ exc_str e))"

text \<open>
  The \<open>TypeError\<close> of a call that lacks required arguments, and the keyword arguments
  a constructor reads.
\<close>

definition has_key :: "pyval \<Rightarrow> string \<Rightarrow> bool" where
  "has_key kwargs name =
     (case kwargs of PDict kvs \<Rightarrow> map_of kvs (ascii name) \<noteq> None | _ \<Rightarrow> False)"

definition name_list :: "string list \<Rightarrow> pystr" where
  "name_list names =
     (if length names \<le> 1 then concat (map quoted names)
      else if length names = 2 then quoted (names ! 0) @ ascii '' and '' @ quoted (names ! 1)
      else join (ascii '', '') (map quoted (butlast names)) @ ascii '', and '' @
           quoted (last names))"

definition missing_arguments :: "string \<Rightarrow> string list \<Rightarrow> pyval \<Rightarrow> exn option" where
  "missing_arguments callee required kwargs =
     (let missing = filter (\<lambda>name. \<not> has_key kwargs name) required
      in if missing = [] then None
         else Some (Exn ''TypeError''
                      (ascii callee @ ascii ''() missing '' @ decimal (length missing) @
                       ascii '' required positional argument'' @
                       (if length missing = 1 then [] else ascii ''s'') @ ascii '': '' @
                       name_list missing)))"

definition text_arg :: "pyval \<Rightarrow> string \<Rightarrow> pystr \<Rightarrow> pystr" where
  "text_arg kwargs name dflt =
     (case kwargs of
        PDict kvs \<Rightarrow> (case map_of kvs (ascii name) of Some (PStr s) \<Rightarrow> s | _ \<Rightarrow> dflt)
      | _ \<Rightarrow> dflt)"

definition int_arg :: "pyval \<Rightarrow> string \<Rightarrow> int \<Rightarrow> int" where
  "int_arg kwargs name dflt =
     (case kwargs of
        PDict kvs \<Rightarrow> (case map_of kvs (ascii name) of Some (PInt i) \<Rightarrow> i | _ \<Rightarrow> dflt)
      | _ \<Rightarrow> dflt)"

text \<open>
  An installation for the examples of the database analysis. Of the drivers only
  psycopg2 is there, so only the module of \<open>PostgreSQLSource\<close> can be imported; its
  constructor has a default for every argument, and its \<open>collect()\<close> raises the
  \<open>ConnectionError\<close> of \<open>_get_connection\<close> for a server that does not answer in time.
  The constructor of the analyzer wants \<open>base_url\<close>, \<open>api_key\<close> and \<open>model_name\<close>.
\<close>

definition unreachable_text :: pystr where
  "unreachable_text =
     [26080, 27861, 36830, 25509, 21040, 80, 111, 115, 116, 103, 114, 101, 83, 81, 76, 25968,
      25454, 24211, 32] @ ascii ''db1:5432'' @
     [10, 36830, 25509, 36229, 26102, 12290, 21487, 33021, 30340, 21407, 22240, 65306, 10,
      49, 46, 32, 32593, 32476, 19981, 36890, 25110, 38450, 28779, 22681, 38459, 27490, 10,
      50, 46, 32, 20027, 26426, 22320, 22336, 19981, 27491, 30830]"

definition unreachable :: exn where
  "unreachable = Exn ''ConnectionError'' unreachable_text"

definition driver_of :: "pystr \<Rightarrow> string" where
  "driver_of name =
     (if name = ascii ''mysql'' then ''pymysql''
      else if name = ascii ''redis'' then ''redis''
      else ''pymongo'')"

definition example_db_init :: "pyval \<Rightarrow> exn + db_analyzer" where
  "example_db_init kwargs =
     (case missing_arguments ''LangGraphAnalyzer.__init__''
             [''base_url'', ''api_key'', ''model_name''] kwargs of
        Some e \<Rightarrow> Inl e
      | None \<Rightarrow>
          Inr (example_db\<lparr>db_base_url := text_arg kwargs ''base_url'' (ascii ''?''),
                          db_api_key := text_arg kwargs ''api_key'' (ascii ''?''),
                          db_model_name := text_arg kwargs ''model_name'' (ascii ''?''),
                          db_timeout := int_arg kwargs ''timeout'' 60\<rparr>))"

definition example_db_world :: db_world where
  "example_db_world =
     \<lparr>source_class =
        (\<lambda>name. if name = ascii ''postgresql'' then Inr (\<lambda>kwargs. Inr (Inl unreachable))
                 else Inl (Exn ''ModuleNotFoundError''
                             (ascii ''No module named '' @ quoted (driver_of name)))),
      analyzer_class = Inr example_db_init,
      sink_class = Inr (\<lambda>kwargs. Inr (\<lambda>content. Inr (PStr (ascii ''/app/reports/db.md'')))),
      ancestors = example_ancestors,
      render = (\<lambda>v. ascii ''?''),
      timestamp_now = ascii ''20260101_000000'',
      report_created_at = ascii ''2026-01-01T00:00:00'',
      finished_at = ascii ''2026-01-01T00:00:01''\<rparr>"

definition example_llm_params :: pyval where
  "example_llm_params =
     PDict [(ascii ''base_url'', PStr (ascii ''http://llm:8000/v1'')),
            (ascii ''api_key'', PStr (ascii ''sk-0123456789abcdef'')),
            (ascii ''model_name'', PStr (ascii ''qwen''))]"

definition example_db_task :: pyval where
  "example_db_task =
     PDict [(ascii ''source'',
             PDict [(ascii ''name'', PStr (ascii ''postgresql'')),
                    (ascii ''params'',
                     PDict [(ascii ''host'', PStr (ascii ''db1'')), (ascii ''port'', PInt 5432)])]),
            (ascii ''analyzer'',
             PDict [(ascii ''name'', PStr (ascii ''langgraph'')),
                    (ascii ''params'', example_llm_params)])]"

definition example_oracle_task :: pyval where
  "example_oracle_task =
     PDict [(ascii ''source'', PDict [(ascii ''name'', PStr (ascii ''oracle''))]),
            (ascii ''analyzer'',
             PDict [(ascii ''name'', PStr (ascii ''langgraph'')),
                    (ascii ''params'', example_llm_params)])]"

definition example_db_executor :: executor where
  "example_db_executor =
     snd (create_run DbOps example_executor (ascii ''nightly'') None (ascii ''2026-01-01T00:00:00''))"

text \<open>
  An installation for the examples of the log analysis. Only the module of \<open>FileSource\<close>
  can be imported. Its constructor wants \<open>file_path\<close>; its \<open>collect()\<close> is a generator
  whose first statement asks whether the file exists, before any \<open>try\<close>: for a file on a
  mount whose server has gone the question is answered by a \<open>ConnectionResetError\<close>,
  which comes out when \<open>_run_task\<close> joins the lines.
\<close>

definition connection_reset :: exn where
  "connection_reset =
     Exn ''ConnectionResetError''
       (ascii ''[Errno 104] Connection reset by peer: '' @ quoted ''/mnt/logs/app.log'')"

definition example_log_init :: "pyval \<Rightarrow> exn + analyzer" where
  "example_log_init kwargs =
     (case missing_arguments ''LangGraphAnalyzer.__init__''
             [''base_url'', ''api_key'', ''model_name''] kwargs of
        Some e \<Rightarrow> Inl e
      | None \<Rightarrow>
          Inr (example_analyzer\<lparr>mode := text_arg kwargs ''mode'' (ascii ''sequential''),
                                concurrency := int_arg kwargs ''concurrency'' 3,
                                chunk_size := int_arg kwargs ''chunk_size'' 5000\<rparr>))"

definition example_file_source :: "pyval \<Rightarrow> exn + collected" where
  "example_file_source kwargs =
     (case missing_arguments ''FileSource.__init__'' [''file_path''] kwargs of
        Some e \<Rightarrow> Inl e
      | None \<Rightarrow> Inr (GaveIterable [] (Some connection_reset)))"

definition example_log_world :: log_world where
  "example_log_world =
     \<lparr>log_source_class =
        (\<lambda>name. if name = ascii ''file'' then Inr example_file_source
                 else Inl (Exn ''ModuleNotFoundError''
                             (ascii ''No module named '' @
                              quoted (''log_analyzer.plugins.sources.'' @
                                      (if name = ascii ''docker'' then ''docker'' else ''multi''))))),
      log_analyzer_class = Inr example_log_init,
      log_sink_class =
        (\<lambda>name. Inr (\<lambda>kwargs. Inr \<lparr>sink_is_minio = (name = ascii ''minio''),
                                      sink_save = (\<lambda>content. Inr PNone)\<rparr>)),
      log_schedule = [],
      log_object_str = [],
      log_percent = (\<lambda>processed_chunks total_chunks. 0),
      log_render = (\<lambda>v. ascii ''?''),
      log_timestamp = ascii ''20260101_000000'',
      log_created_at = ascii ''2026-01-01T00:00:00'',
      log_finished_at = ascii ''2026-01-01T00:00:01''\<rparr>"

definition example_log_task :: pyval where
  "example_log_task =
     PDict [(ascii ''source'',
             PDict [(ascii ''name'', PStr (ascii ''file'')),
                    (ascii ''params'',
                     PDict [(ascii ''file_path'', PStr (ascii ''/mnt/logs/app.log''))])]),
            (ascii ''analyzer'',
             PDict [(ascii ''name'', PStr (ascii ''langgraph'')),
                    (ascii ''params'', example_llm_params)])]"

definition example_log_executor :: executor where
  "example_log_executor =
     snd (create_run LogAnalysis example_executor (ascii ''nightly'') None
            (ascii ''2026-01-01T00:00:00''))"


lemma reports_update_run [simp]: "reports (update_run ex rid f) = reports ex"
  by (simp add: update_run_def split: option.splits)

lemma runs_update_run:
  "runs (update_run ex rid f) rid = map_option f (runs ex rid)"
  by (simp add: update_run_def split: option.splits)

lemma runs_store_report [simp]: "runs (store_report ex key rep) = runs ex"
  by (simp add: store_report_def)

lemma update_run_store_report:
  "update_run (store_report ex key rep) rid f = store_report (update_run ex rid f) key rep"
  by (simp add: update_run_def store_report_def split: option.splits)

lemma db_create_source_shape:
  assumes "db_create_source w source_config = Inr source"
  shows "\<exists>kvs name params. source_config = PDict kvs \<and>
      py_get source_config (ascii ''name'') d = Inr (PStr name) \<and>
      py_get source_config (ascii ''params'') (PDict []) = Inr (PDict params)"
proof -
  from assms obtain kvs where sc: "source_config = PDict kvs"
    by (cases source_config) (auto simp: db_create_source_def py_get_def)
  from assms sc obtain name where n: "map_of kvs (ascii ''name'') = Some (PStr name)"
    by (auto simp: db_create_source_def py_get_def split: option.splits pyval.splits if_splits)
  from assms sc n obtain params where
    "py_get source_config (ascii ''params'') (PDict []) = Inr (PDict params)"
    by (auto simp: db_create_source_def py_get_def as_kwargs_def
        split: option.splits pyval.splits if_splits sum.splits)
  with sc n show ?thesis by (auto simp: py_get_def)
qed

lemma error_data_ok:
  assumes "py_item task_config ''source'' = Inr source_config"
    and "db_create_source w source_config = Inr source"
  shows "\<exists>data. error_data task_config e = Inr data \<and> well_shaped data \<and>
      (\<exists>v. py_get data (ascii ''database'') (PStr (ascii ''all'')) = Inr v)"
proof -
  from db_create_source_shape[OF assms(2), of "PStr unknown_text"]
  obtain kvs name params where sc: "source_config = PDict kvs"
    and n: "py_get source_config (ascii ''name'') (PStr unknown_text) = Inr (PStr name)"
    and p: "py_get source_config (ascii ''params'') (PDict []) = Inr (PDict params)"
    by blast
  have sp: "\<exists>v. source_param source_config key = Inr v" for key
    by (simp add: source_param_def p) (simp add: py_get_def)
  then obtain host port database where
    "source_param source_config ''host'' = Inr host"
    "source_param source_config ''port'' = Inr port"
    "source_param source_config ''database'' = Inr database"
    by metis
  with assms(1) n have "error_data task_config e =
      Inr (PDict [(ascii ''database_type'', PStr (title_from False name)), (ascii ''host'', host),
                  (ascii ''port'', port), (ascii ''database'', database),
                  (ascii ''slow_queries'', PList []), (ascii ''processlist'', PList []),
                  (ascii ''tables'', PList []),
                  (ascii ''errors'', PList [PStr (exc_str e)])])"
    by (simp add: error_data_def py_title_def)
  then show ?thesis
    by (simp add: well_shaped_def sized_def py_get_def py_len_def ascii_def)
qed

lemma db_connection_failed_ok:
  assumes run: "runs ex rid = Some r"
    and plugins: "db_plugins w task_config = Inr (source, analyzer, sinks)"
  shows "\<exists>ex'. db_connection_failed w ex rid task_name task_config e = (None, ex') \<and>
      failed_with_report ex' rid (timestamp_now w @ ascii ''_'' @ task_name) e"
proof -
  from plugins obtain source_config analyzer_config sinks_config where
    sc: "py_item task_config ''source'' = Inr source_config"
    and src: "db_create_source w source_config = Inr source"
    and ac: "py_item task_config ''analyzer'' = Inr analyzer_config"
    and an: "db_create_analyzer w analyzer_config = Inr analyzer"
    and sk: "py_get task_config (ascii ''sinks'') (PList []) = Inr sinks_config"
    and sn: "db_create_sinks w sinks_config = Inr sinks"
    by (auto simp: db_plugins_def split: sum.splits)
  from ac have ac': "py_get task_config (ascii ''analyzer'') (PDict []) = Inr analyzer_config"
    by (cases task_config) (auto simp: py_item_def py_get_def split: option.splits)
  from error_data_ok[OF sc src, of e] obtain data database where
    ed: "error_data task_config e = Inr data" and ws: "well_shaped data"
    and db: "py_get data (ascii ''database'') (PStr (ascii ''all'')) = Inr database"
    by blast
  from format_error_report_total[OF ws, of analyzer "connection_failed @ exc_str e"]
  obtain result where res: "format_error_report analyzer (connection_failed @ exc_str e) data = Inr result"
    and has: "contains result (connection_failed @ exc_str e)"
    by blast
  let ?key = "timestamp_now w @ ascii ''_'' @ task_name"
  let ?ex1 = "update_run ex rid (db_failed (finished_at w) e)"
  let ?ex2 = "store_report ?ex1 ?key (db_report w rid task_name database result)"
  let ?ex3 = "update_run ?ex2 rid (\<lambda>r. r\<lparr>run_report_id := Some ?key\<rparr>)"
  have out: "db_connection_failed w ex rid task_name task_config e = (None, ?ex3)"
    by (simp add: db_connection_failed_def Let_def ed ac' an res db sk sn)
  have "failed_with_report ?ex3 rid ?key e"
    using run has
    by (simp add: failed_with_report_def runs_update_run db_failed_def store_report_def
        db_report_def)
  with out show ?thesis by blast
qed


lemma db_connection_report:
  assumes run: "runs ex rid = Some r"
    and plugins: "db_plugins w task_config = Inr (Inl e, analyzer, sinks)"
    and conn: "caught_by (ancestors w) connection_error e"
  shows "failed_with_report (db_run_task w ex rid task_name task_config) rid
           (timestamp_now w @ ascii ''_'' @ task_name) e"
proof -
  let ?ex0 = "update_run ex rid (db_stage ''collecting'' 10)"
  have run0: "runs ?ex0 rid = Some (db_stage ''collecting'' 10 r)"
    using run by (simp add: runs_update_run)
  from db_connection_failed_ok[OF run0 plugins, of task_name e] obtain ex' where
    out: "db_connection_failed w ?ex0 rid task_name task_config e = (None, ex')"
    and rep: "failed_with_report ex' rid (timestamp_now w @ ascii ''_'' @ task_name) e"
    by blast
  have "db_try w ex rid task_name task_config = (None, ex')"
    by (simp add: db_try_def Let_def plugins conn out)
  then show ?thesis using run rep by (simp add: db_run_task_def)
qed

lemma db_try_reports:
  assumes run: "runs ex rid = Some r"
    and out: "db_try w ex rid task_name task_config = (Some e, ex')"
  shows "reports ex' = reports ex \<and> runs ex' rid \<noteq> None"
proof (cases "db_plugins w task_config")
  case (Inl e')
  with out run show ?thesis by (auto simp: db_try_def Let_def runs_update_run)
next
  case (Inr t)
  then obtain source analyzer sinks where
    plugins: "db_plugins w task_config = Inr (source, analyzer, sinks)"
    by (cases t) auto
  show ?thesis
  proof (cases source)
    case (Inl e')
    show ?thesis
    proof (cases "caught_by (ancestors w) connection_error e'")
      case True
      let ?ex0 = "update_run ex rid (db_stage ''collecting'' 10)"
      have run0: "runs ?ex0 rid = Some (db_stage ''collecting'' 10 r)"
        using run by (simp add: runs_update_run)
      from db_connection_failed_ok[OF run0 plugins, of task_name e'] obtain ex'' where
        "db_connection_failed w ?ex0 rid task_name task_config e' = (None, ex'')"
        by blast
      with out plugins Inl True show ?thesis by (simp add: db_try_def Let_def)
    next
      case False
      with out plugins Inl run show ?thesis
        by (auto simp: db_try_def Let_def runs_update_run)
    qed
  next
    case (Inr data)
    with out plugins run show ?thesis
      by (auto simp: db_try_def Let_def runs_update_run split: sum.splits)
  qed
qed

lemma db_other_failure:
  assumes run: "runs ex rid = Some r"
    and out: "fst (db_try w ex rid task_name task_config) = Some e"
  shows "failed_without_report ex (db_run_task w ex rid task_name task_config) rid e"
proof -
  obtain ex' where t: "db_try w ex rid task_name task_config = (Some e, ex')"
    using out by (cases "db_try w ex rid task_name task_config") auto
  from db_try_reports[OF run t] obtain r' where "reports ex' = reports ex" "runs ex' rid = Some r'"
    by auto
  then show ?thesis using run t
    by (simp add: db_run_task_def failed_without_report_def runs_update_run db_failed_def)
qed

lemma reports_update_progress [simp]: "reports (update_progress w ex call) = reports ex"
  by (cases call) (simp add: update_progress_def)

lemma reports_foldl_update_progress [simp]:
  "reports (foldl (update_progress w) ex calls) = reports ex"
  by (induction calls arbitrary: ex) simp_all

lemma runs_update_run_dom: "runs (update_run ex rid f) k = None \<longleftrightarrow> runs ex k = None"
  by (simp add: update_run_def split: option.splits)

lemma runs_update_progress: "runs (update_progress w ex call) k = None \<longleftrightarrow> runs ex k = None"
  by (cases call) (simp add: update_progress_def runs_update_run_dom)

lemma runs_foldl_update_progress:
  "runs (foldl (update_progress w) ex calls) k = None \<longleftrightarrow> runs ex k = None"
  by (induction calls arbitrary: ex) (simp_all add: runs_update_progress)

lemma runs_update_run_some:
  "(\<exists>y. runs (update_run ex rid f) k = Some y) \<longleftrightarrow> (\<exists>y. runs ex k = Some y)"
  using runs_update_run_dom[of ex rid f k] by (metis not_None_eq)

lemma runs_foldl_update_progress_some:
  "(\<exists>y. runs (foldl (update_progress w) ex calls) k = Some y) \<longleftrightarrow> (\<exists>y. runs ex k = Some y)"
  using runs_foldl_update_progress[of w ex calls k] by (metis not_None_eq)

lemma log_try_reports:
  assumes run: "runs ex rid = Some r"
    and out: "log_try w ex rid task_name task_config container_name = (Raises e, ex')"
  shows "reports ex' = reports ex \<and> runs ex' rid \<noteq> None"
  using out run
  by (auto simp: log_try_def Let_def runs_update_run_some runs_foldl_update_progress_some
      split: sum.splits prod.splits outcome.splits option.splits)

lemma log_any_failure:
  assumes run: "runs ex rid = Some r"
    and out: "fst (log_try w ex rid task_name task_config container_name) = Raises e"
  shows "failed_without_report ex
           (log_run_task w ex rid task_name task_config container_name) rid e"
proof -
  obtain ex' where t: "log_try w ex rid task_name task_config container_name = (Raises e, ex')"
    using out by (cases "log_try w ex rid task_name task_config container_name") auto
  from log_try_reports[OF run t] obtain r' where "reports ex' = reports ex" "runs ex' rid = Some r'"
    by auto
  then show ?thesis using run t
    by (simp add: log_run_task_def failed_without_report_def runs_update_run log_failed_def)
qed

lemma log_collect_raises:
  assumes "log_plugins w rid task_config = Inr (source, analyzer, sinks)"
    and "collect_text w source = Inl e"
  shows "fst (log_try w ex rid task_name task_config container_name) = Raises e"
  using assms by (simp add: log_try_def Let_def)

lemma log_plugins_raise:
  assumes "log_plugins w rid task_config = Inl e"
  shows "fst (log_try w ex rid task_name task_config container_name) = Raises e"
  using assms by (simp add: log_try_def Let_def)

lemma log_analyze_raises:
  assumes "log_plugins w rid task_config = Inr (source, analyzer, sinks)"
    and "collect_text w source = Inr d"
    and "fst (analyze analyzer (log_schedule w) d) = Raises e"
  shows "fst (log_try w ex rid task_name task_config container_name) = Raises e"
proof -
  from assms(3) obtain eff where "analyze analyzer (log_schedule w) d = (Raises e, eff)"
    by (cases "analyze analyzer (log_schedule w) d") auto
  with assms(1,2) show ?thesis by (simp add: log_try_def Let_def)
qed

lemma db_collect_raises:
  assumes "db_plugins w task_config = Inr (Inl e, analyzer, sinks)"
    and "\<not> caught_by (ancestors w) connection_error e"
  shows "fst (db_try w ex rid task_name task_config) = Some e"
  using assms by (simp add: db_try_def Let_def)

lemma db_plugins_raise:
  assumes "db_plugins w task_config = Inl e"
  shows "fst (db_try w ex rid task_name task_config) = Some e"
  using assms by (simp add: db_try_def Let_def)

lemma db_analyze_raises:
  assumes "db_plugins w task_config = Inr (Inr data, analyzer, sinks)"
    and "db_analyze analyzer data = Inl e"
  shows "fst (db_try w ex rid task_name task_config) = Some e"
  using assms by (simp add: db_try_def Let_def)


text \<open>
  Claim C2, as the code has it. In the executor of db_ops_analyzer, when
  \<open>source.collect()\<close> raises a \<open>ConnectionError\<close>, an instance of the class or of a
  class that inherits from it, the run is marked failed with the message as error, and
  an error report is stored under \<open>timestamp_task\<close>, holding the message; the run
  names the report. Every exception that leaves the body of the \<open>try\<close> marks the run
  failed with its message as error, and the reports are those of before. In the
  executor of log_analyzer there is only the second clause: every exception that leaves
  the body of the \<open>try\<close>, a \<open>ConnectionError\<close> of \<open>collect()\<close> among them, marks the run
  failed and stores no report.
\<close>

theorem connectivity_failure_asymmetry:
  "(runs ex rid = Some r \<and> db_plugins w task_config = Inr (Inl e, analyzer, sinks) \<and>
    caught_by (ancestors w) connection_error e \<longrightarrow>
      failed_with_report (db_run_task w ex rid task_name task_config) rid
        (timestamp_now w @ ascii ''_'' @ task_name) e) \<and>
   (runs ex rid = Some r \<and> fst (db_try w ex rid task_name task_config) = Some e \<longrightarrow>
      failed_without_report ex (db_run_task w ex rid task_name task_config) rid e) \<and>
   (runs ex rid = Some r \<and>
    fst (log_try lw ex rid task_name task_config container_name) = Raises e \<longrightarrow>
      failed_without_report ex
        (log_run_task lw ex rid task_name task_config container_name) rid e)"
proof (intro conjI impI)
  assume "runs ex rid = Some r \<and> db_plugins w task_config = Inr (Inl e, analyzer, sinks) \<and>
    caught_by (ancestors w) connection_error e"
  then show "failed_with_report (db_run_task w ex rid task_name task_config) rid
      (timestamp_now w @ ascii ''_'' @ task_name) e"
    using db_connection_report[of ex rid r w task_config e analyzer sinks task_name] by simp
next
  assume "runs ex rid = Some r \<and> fst (db_try w ex rid task_name task_config) = Some e"
  then show "failed_without_report ex (db_run_task w ex rid task_name task_config) rid e"
    using db_other_failure[of ex rid r w task_name task_config e] by simp
next
  assume "runs ex rid = Some r \<and>
    fst (log_try lw ex rid task_name task_config container_name) = Raises e"
  then show "failed_without_report ex
      (log_run_task lw ex rid task_name task_config container_name) rid e"
    using log_any_failure[of ex rid r lw task_name task_config container_name e] by simp
qed

lemma example_db_run:
  "runs example_db_executor 1 =
     Some (new_run DbOps 1 (ascii ''nightly'') None (ascii ''2026-01-01T00:00:00''))"
  by (simp add: example_db_executor_def create_run_def example_executor_def)

lemma example_log_run:
  "runs example_log_executor 1 =
     Some (new_run LogAnalysis 1 (ascii ''nightly'') None (ascii ''2026-01-01T00:00:00''))"
  by (simp add: example_log_executor_def create_run_def example_executor_def)

lemma example_llm_kwargs: "as_kwargs callee example_llm_params = Inr example_llm_params"
  by (simp add: as_kwargs_def example_llm_params_def)

lemma example_analyzer_config:
  "py_get (PDict [(ascii ''name'', PStr (ascii ''langgraph'')),
                  (ascii ''params'', example_llm_params)]) (ascii ''name'') PNone =
     Inr (PStr (ascii ''langgraph''))"
  "py_get (PDict [(ascii ''name'', PStr (ascii ''langgraph'')),
                  (ascii ''params'', example_llm_params)]) (ascii ''params'') (PDict []) =
     Inr example_llm_params"
  by (simp_all add: py_get_def ascii_def)

lemma example_llm_dict: "\<exists>kvs. example_llm_params = PDict kvs"
  by (simp add: example_llm_params_def)

lemma example_llm_arguments:
  "missing_arguments callee [''base_url'', ''api_key'', ''model_name''] example_llm_params = None"
  by (simp add: missing_arguments_def has_key_def example_llm_params_def ascii_def)

lemma example_db_analyzer: "example_db_init example_llm_params = Inr example_db"
  by (simp add: example_db_init_def example_llm_arguments)
     (simp add: example_db_def text_arg_def int_arg_def example_llm_params_def ascii_def)

lemma example_db_plugins:
  "db_plugins example_db_world example_db_task = Inr (Inl unreachable, example_db, [])"
proof -
  have a: "py_item example_db_task ''analyzer'' =
      Inr (PDict [(ascii ''name'', PStr (ascii ''langgraph'')),
                  (ascii ''params'', example_llm_params)])"
    by (simp add: example_db_task_def py_item_def ascii_def)
  have b: "db_create_analyzer example_db_world
      (PDict [(ascii ''name'', PStr (ascii ''langgraph'')),
              (ascii ''params'', example_llm_params)]) = Inr example_db"
    unfolding db_create_analyzer_def example_analyzer_config
    by (simp add: example_db_world_def example_llm_kwargs example_db_analyzer)
  have c: "py_item example_db_task ''source'' =
      Inr (PDict [(ascii ''name'', PStr (ascii ''postgresql'')),
                  (ascii ''params'',
                   PDict [(ascii ''host'', PStr (ascii ''db1'')), (ascii ''port'', PInt 5432)])])"
    by (simp add: example_db_task_def py_item_def ascii_def)
  have d: "db_create_source example_db_world
      (PDict [(ascii ''name'', PStr (ascii ''postgresql'')),
              (ascii ''params'',
               PDict [(ascii ''host'', PStr (ascii ''db1'')), (ascii ''port'', PInt 5432)])]) =
      Inr (Inl unreachable)"
    by (simp add: db_create_source_def py_get_def db_source_names_def example_db_world_def
        as_kwargs_def ascii_def)
  have e: "py_get example_db_task (ascii ''sinks'') (PList []) = Inr (PList [])"
    by (simp add: example_db_task_def py_get_def ascii_def)
  show ?thesis
    by (simp add: db_plugins_def a b c d e db_create_sinks_def py_iter_def del: One_nat_def)
qed

lemma example_oracle_raises:
  "fst (db_try example_db_world example_db_executor 1 (ascii ''nightly'') example_oracle_task) =
     Some (Exn ''ValueError'' (unknown_source @ ascii ''oracle''))"
  by (simp add: db_try_def db_plugins_def example_oracle_task_def py_item_def py_get_def
      db_create_source_def db_source_names_def ascii_def)

lemma example_log_analyzer: "example_log_init example_llm_params = Inr example_analyzer"
  by (simp add: example_log_init_def example_llm_arguments)
     (simp add: example_analyzer_def text_arg_def int_arg_def example_llm_params_def ascii_def)

lemma example_log_plugins:
  "log_plugins example_log_world 1 example_log_task =
     Inr (GaveIterable [] (Some connection_reset),
          example_analyzer\<lparr>progress_callback := True, run_id := Some 1\<rparr>, [])"
proof -
  have a: "py_item example_log_task ''analyzer'' =
      Inr (PDict [(ascii ''name'', PStr (ascii ''langgraph'')),
                  (ascii ''params'', example_llm_params)])"
    by (simp add: example_log_task_def py_item_def ascii_def)
  have b: "log_create_analyzer example_log_world 1
      (PDict [(ascii ''name'', PStr (ascii ''langgraph'')),
              (ascii ''params'', example_llm_params)]) =
      Inr (example_analyzer\<lparr>progress_callback := True, run_id := Some 1\<rparr>)"
  proof -
    from example_llm_dict obtain kvs where kvs: "example_llm_params = PDict kvs" by blast
    have "log_create_analyzer example_log_world 1
        (PDict [(ascii ''name'', PStr (ascii ''langgraph'')),
                (ascii ''params'', example_llm_params)]) =
        (case example_log_init example_llm_params of
           Inl e \<Rightarrow> Inl e
         | Inr a \<Rightarrow> Inr (a\<lparr>progress_callback := True, run_id := Some (int 1)\<rparr>))"
      unfolding log_create_analyzer_def example_analyzer_config
      by (simp add: example_log_world_def kvs[symmetric] del: One_nat_def)
         (simp add: kvs)
    then show ?thesis by (simp add: example_log_analyzer)
  qed
  have c: "py_item example_log_task ''source'' =
      Inr (PDict [(ascii ''name'', PStr (ascii ''file'')),
                  (ascii ''params'',
                   PDict [(ascii ''file_path'', PStr (ascii ''/mnt/logs/app.log''))])])"
    by (simp add: example_log_task_def py_item_def ascii_def)
  have d: "log_create_source example_log_world
      (PDict [(ascii ''name'', PStr (ascii ''file'')),
              (ascii ''params'',
               PDict [(ascii ''file_path'', PStr (ascii ''/mnt/logs/app.log''))])]) =
      Inr (GaveIterable [] (Some connection_reset))"
    by (simp add: log_create_source_def py_get_def log_source_names_def example_log_world_def
        as_kwargs_def example_file_source_def missing_arguments_def has_key_def ascii_def)
  have e: "py_get example_log_task (ascii ''sinks'') (PList []) = Inr (PList [])"
    by (simp add: example_log_task_def py_get_def ascii_def)
  show ?thesis
    by (simp add: log_plugins_def a b c d e log_create_sinks_def py_iter_def del: One_nat_def)
qed

lemma example_log_raises:
  "fst (log_try example_log_world example_log_executor 1 (ascii ''nightly'') example_log_task
          None) = Raises connection_reset"
  by (rule log_collect_raises[OF example_log_plugins]) (simp add: collect_text_def)

lemma unreachable_caught: "caught_by (ancestors example_db_world) connection_error unreachable"
  by (simp add: caught_by_def connection_error_def unreachable_def)

lemma connection_reset_caught: "caught_by example_ancestors connection_error connection_reset"
  by (simp add: caught_by_def connection_error_def connection_reset_def example_ancestors_def)

text \<open>
  An exception of a class that inherits from \<open>ConnectionError\<close>, as
  \<open>http.client.RemoteDisconnected\<close> does, is caught by the clause; a class of another
  module that is only called \<open>ConnectionError\<close> is not.
\<close>

lemma remote_disconnected_caught:
  "caught_by example_ancestors connection_error (Exn ''http.client.RemoteDisconnected'' msg) \<and>
   \<not> caught_by example_ancestors connection_error (Exn ''requests.exceptions.ConnectionError'' msg)"
  by (simp add: caught_by_def connection_error_def example_ancestors_def)

theorem connectivity_failure_asymmetry_witness:
  "(runs example_db_executor 1 =
      Some (new_run DbOps 1 (ascii ''nightly'') None (ascii ''2026-01-01T00:00:00'')) \<and>
    db_plugins example_db_world example_db_task = Inr (Inl unreachable, example_db, []) \<and>
    caught_by (ancestors example_db_world) connection_error unreachable \<and>
    failed_with_report
      (db_run_task example_db_world example_db_executor 1 (ascii ''nightly'') example_db_task) 1
      (ascii ''20260101_000000_nightly'') unreachable) \<and>
   (fst (db_try example_db_world example_db_executor 1 (ascii ''nightly'') example_oracle_task) =
      Some (Exn ''ValueError'' (unknown_source @ ascii ''oracle'')) \<and>
    failed_without_report example_db_executor
      (db_run_task example_db_world example_db_executor 1 (ascii ''nightly'') example_oracle_task)
      1 (Exn ''ValueError'' (unknown_source @ ascii ''oracle''))) \<and>
   (runs example_log_executor 1 =
      Some (new_run LogAnalysis 1 (ascii ''nightly'') None (ascii ''2026-01-01T00:00:00'')) \<and>
    fst (log_try example_log_world example_log_executor 1 (ascii ''nightly'') example_log_task
           None) = Raises connection_reset \<and>
    failed_without_report example_log_executor
      (log_run_task example_log_world example_log_executor 1 (ascii ''nightly'')
         example_log_task None) 1 connection_reset)"
proof -
  note conn = unreachable_caught and raises = example_log_raises
  have key: "timestamp_now example_db_world @ ascii ''_'' @ ascii ''nightly'' =
      ascii ''20260101_000000_nightly''"
    by (simp add: example_db_world_def ascii_def)
  have a: "failed_with_report
      (db_run_task example_db_world example_db_executor 1 (ascii ''nightly'') example_db_task) 1
      (ascii ''20260101_000000_nightly'') unreachable"
    using connectivity_failure_asymmetry[of example_db_executor 1
        "new_run DbOps 1 (ascii ''nightly'') None (ascii ''2026-01-01T00:00:00'')"
        example_db_world example_db_task unreachable example_db "[]" "ascii ''nightly''"]
      example_db_run example_db_plugins conn key
    by simp
  have b: "failed_without_report example_db_executor
      (db_run_task example_db_world example_db_executor 1 (ascii ''nightly'') example_oracle_task)
      1 (Exn ''ValueError'' (unknown_source @ ascii ''oracle''))"
    using connectivity_failure_asymmetry[of example_db_executor 1
        "new_run DbOps 1 (ascii ''nightly'') None (ascii ''2026-01-01T00:00:00'')"
        example_db_world example_oracle_task
        "Exn ''ValueError'' (unknown_source @ ascii ''oracle'')" _ _ "ascii ''nightly''"]
      example_db_run example_oracle_raises
    by simp
  have c: "failed_without_report example_log_executor
      (log_run_task example_log_world example_log_executor 1 (ascii ''nightly'')
         example_log_task None) 1 connection_reset"
    using connectivity_failure_asymmetry[of example_log_executor 1
        "new_run LogAnalysis 1 (ascii ''nightly'') None (ascii ''2026-01-01T00:00:00'')"
        _ example_log_task connection_reset _ _ "ascii ''nightly''" example_log_world None]
      example_log_run raises
    by simp
  from a b c example_db_run example_db_plugins conn example_oracle_raises example_log_run raises
  show ?thesis by simp
qed

text \<open>
  The executor of log_analyzer has no \<open>except ConnectionError\<close>: when the \<open>collect()\<close>
  of the source raises a \<open>ConnectionResetError\<close>, which is a \<open>ConnectionError\<close>, the run
  is marked failed with the message as error and no report is stored, neither under the
  run id nor under any other key.
\<close>

theorem log_connection_error_no_report_counterexample:
  "log_plugins example_log_world 1 example_log_task =
     Inr (GaveIterable [] (Some connection_reset),
          example_analyzer\<lparr>progress_callback := True, run_id := Some 1\<rparr>, []) \<and>
   caught_by example_ancestors connection_error connection_reset \<and>
   reports (log_run_task example_log_world example_log_executor 1 (ascii ''nightly'')
              example_log_task None) = Map.empty \<and>
   map_option (\<lambda>r. (run_status r, run_error r, run_report_id r))
     (runs (log_run_task example_log_world example_log_executor 1 (ascii ''nightly'')
              example_log_task None) 1) =
     Some (''failed'', Some (exc_str connection_reset), None)"
proof -
  let ?ex = "log_run_task example_log_world example_log_executor 1 (ascii ''nightly'')
      example_log_task None"
  have t: "log_try example_log_world example_log_executor 1 (ascii ''nightly'') example_log_task
      None =
      (Raises connection_reset,
       update_run example_log_executor 1
         (\<lambda>r. r\<lparr>run_stage := ''collecting'', run_chunks := Some (0, 0), run_percentage := 0\<rparr>))"
    unfolding log_try_def Let_def example_log_plugins by (simp add: collect_text_def)
  have "reports ?ex = reports example_log_executor"
    unfolding log_run_task_def example_log_run t by simp
  then have r: "reports ?ex = Map.empty"
    by (simp add: example_log_executor_def create_run_def example_executor_def)
  have s: "map_option (\<lambda>r. (run_status r, run_error r, run_report_id r)) (runs ?ex 1) =
      Some (''failed'', Some (exc_str connection_reset), None)"
    unfolding log_run_task_def example_log_run t
    by (simp add: runs_update_run example_log_run log_failed_def new_run_def
        del: One_nat_def)
  from example_log_plugins connection_reset_caught r s show ?thesis by simp
qed

end
